(* ===== verification/Prelude.thy ===== *)
theory Prelude
  imports Main "HOL-Library.Word"
begin

text \<open>
  Shared ground of the development: the machine integer types of the C sources, the outcome type
  that makes undefined behaviour of the C abstract machine a value, bounds-checked reads of a
  memory block, and the generic facts on lists, options and words that the component theories use.
\<close>

unbundle bit_operations_syntax

named_theorems outcome_simps \<open>computation rules of the outcome type\<close>

section \<open>Machine integers\<close>

type_synonym u8 = "8 word"
type_synonym u16 = "16 word"
type_synonym u32 = "32 word"
type_synonym u64 = "64 word"

section \<open>Outcomes: a value, or a fault of the C abstract machine\<close>

text \<open>
  The sources have undefined behaviour on some paths (a null pointer that is dereferenced, a read
  outside an object, a signed overflow, a list node that is linked twice, an object that is used as one of another type).
  A definition that can reach such a path returns an outcome: \<open>Inl\<close> the fault, or \<open>Inr\<close> the value.
\<close>

datatype fault = NullPointer | OutOfBounds | SignedOverflow | DivByZero | UseAfterFree | Uninitialized | NodeInUse | WrongType

type_synonym 'a outcome = "fault + 'a"

definition obind :: "'a outcome \<Rightarrow> ('a \<Rightarrow> 'b outcome) \<Rightarrow> 'b outcome" where
  "obind m f = (case m of Inl e \<Rightarrow> Inl e | Inr x \<Rightarrow> f x)"

lemma obind_Inl [simp, outcome_simps]: "obind (Inl e) f = Inl e"
  by (simp add: obind_def)

lemma obind_Inr [simp, outcome_simps]: "obind (Inr x) f = f x"
  by (simp add: obind_def)

lemma obind_eq_Inr_iff: "obind m f = Inr y \<longleftrightarrow> (\<exists>x. m = Inr x \<and> f x = Inr y)"
  by (cases m) auto

lemma obind_split: "P (obind m f) \<longleftrightarrow> (\<forall>e. m = Inl e \<longrightarrow> P (Inl e)) \<and> (\<forall>x. m = Inr x \<longrightarrow> P (f x))"
  by (cases m) auto

text \<open>A read of byte \<open>i\<close> of a memory block: outside the block it is a fault.\<close>

definition rd :: "'a list \<Rightarrow> nat \<Rightarrow> 'a outcome" where
  "rd mem i = (if i < length mem then Inr (mem ! i) else Inl OutOfBounds)"

lemma rd_in [simp]: "i < length mem \<Longrightarrow> rd mem i = Inr (mem ! i)"
  by (simp add: rd_def)

lemma rd_out [simp]: "length mem \<le> i \<Longrightarrow> rd mem i = Inl OutOfBounds"
  by (simp add: rd_def)

text \<open>Reading through a pointer that may be null.\<close>

definition deref :: "'a option \<Rightarrow> 'a outcome" where
  "deref p = (case p of None \<Rightarrow> Inl NullPointer | Some x \<Rightarrow> Inr x)"

lemma deref_simps [simp]: "deref None = Inl NullPointer" "deref (Some x) = Inr x"
  by (simp_all add: deref_def)

text \<open>Copying \<open>src\<close> over the first bytes of an object, and reading a C string from one.\<close>

definition memcpy :: "'a list \<Rightarrow> 'a list \<Rightarrow> 'a list outcome" where
  "memcpy dst src = (if length src \<le> length dst then Inr (src @ drop (length src) dst) else Inl OutOfBounds)"

definition NUL :: char where "NUL = CHR 0x00"

definition c_str :: "char list \<Rightarrow> string outcome" where
  "c_str mem = (if NUL \<in> set mem then Inr (takeWhile (\<lambda>c. c \<noteq> NUL) mem) else Inl OutOfBounds)"

lemma c_str_append [simp]: "NUL \<notin> set s \<Longrightarrow> c_str (s @ NUL # mem) = Inr s"
  by (simp add: c_str_def takeWhile_append)

lemma memcpy_eq_Inr_iff: "memcpy dst src = Inr m \<longleftrightarrow> length src \<le> length dst \<and> m = src @ drop (length src) dst"
  by (auto simp: memcpy_def)

section \<open>Handlers: a new state and the calls made, or a fault\<close>

text \<open>
  A handler of an event takes the state of its module and returns the new state with the sequence
  of calls it makes to other modules.
\<close>

type_synonym ('s, 'o) act = "'s \<Rightarrow> ('s \<times> 'o list) outcome"

definition emit :: "'o list \<Rightarrow> ('s, 'o) act" where
  "emit outs s = Inr (s, outs)"

definition modify :: "('s \<Rightarrow> 's) \<Rightarrow> ('s, 'o) act" where
  "modify f s = Inr (f s, [])"

definition andThen :: "('s, 'o) act \<Rightarrow> ('s, 'o) act \<Rightarrow> ('s, 'o) act" where
  "andThen f g s = obind (f s) (\<lambda>(s1, o1). obind (g s1) (\<lambda>(s2, o2). Inr (s2, o1 @ o2)))"

named_theorems act_simps \<open>computation rules of handlers\<close>

lemma emit_simp [act_simps]: "emit outs s = Inr (s, outs)"
  by (simp add: emit_def)

lemma modify_simp [act_simps]: "modify f s = Inr (f s, [])"
  by (simp add: modify_def)

lemma andThen_simps [act_simps]:
  "andThen (emit outs) g s = obind (g s) (\<lambda>(s2, o2). Inr (s2, outs @ o2))"
  "andThen (modify f) g s = obind (g (f s)) (\<lambda>(s2, o2). Inr (s2, o2))"
  by (simp_all add: andThen_def emit_def modify_def)

lemma andThen_eq_Inr_iff:
  "andThen f g s = Inr (s', os) \<longleftrightarrow>
     (\<exists>s1 o1 o2. f s = Inr (s1, o1) \<and> g s1 = Inr (s', o2) \<and> os = o1 @ o2)"
  by (auto simp: andThen_def obind_eq_Inr_iff)

section \<open>Sequences of events, and refinement of a specification\<close>

text \<open>A module that handles a sequence of events, and a specification that answers them.\<close>

fun run_acts :: "('l \<Rightarrow> ('s, 'o) act) \<Rightarrow> 'l list \<Rightarrow> ('s, 'o) act" where
  "run_acts step [] s = Inr (s, [])"
| "run_acts step (l # ls) s = andThen (step l) (run_acts step ls) s"

fun run_spec :: "('l \<Rightarrow> 'a \<Rightarrow> 'a \<times> 'o list) \<Rightarrow> 'l list \<Rightarrow> 'a \<Rightarrow> 'a \<times> 'o list" where
  "run_spec spec [] a = (a, [])"
| "run_spec spec (l # ls) a =
     (case spec l a of (a1, o1) \<Rightarrow> case run_spec spec ls a1 of (a2, o2) \<Rightarrow> (a2, o1 @ o2))"

lemma run_acts_append:
  "run_acts step (ks @ ls) s = andThen (run_acts step ks) (run_acts step ls) s"
proof (induction ks arbitrary: s)
  case Nil
  then show ?case by (cases "run_acts step ls s") (auto simp: andThen_def)
next
  case (Cons k ks)
  then show ?case
    by (cases "step k s") (auto simp: andThen_def obind_def split: sum.splits)
qed

text \<open>
  The contract between a module and its specification: in states that satisfy the invariant a
  handler does not fault, makes the calls the specification prescribes, and moves to a state that
  represents the one of the specification. It extends to sequences of events.
\<close>

locale refinement =
  fixes ok :: "'l \<Rightarrow> bool"
    and inv :: "'s \<Rightarrow> bool"
    and abs :: "'s \<Rightarrow> 'a"
    and step :: "'l \<Rightarrow> 's \<Rightarrow> ('s \<times> 'o list) outcome"
    and spec :: "'l \<Rightarrow> 'a \<Rightarrow> 'a \<times> 'o list"
  assumes refines:
    "inv s \<Longrightarrow> ok l \<Longrightarrow>
       \<exists>s'. step l s = Inr (s', snd (spec l (abs s))) \<and> abs s' = fst (spec l (abs s)) \<and> inv s'"
begin

lemma run_refines:
  assumes "inv s" "list_all ok ls"
  shows "\<exists>s'. run_acts step ls s = Inr (s', snd (run_spec spec ls (abs s)))
    \<and> abs s' = fst (run_spec spec ls (abs s)) \<and> inv s'"
  using assms
proof (induction ls arbitrary: s)
  case (Cons l ls)
  then obtain s1 where s1: "step l s = Inr (s1, snd (spec l (abs s)))" "abs s1 = fst (spec l (abs s))" "inv s1"
    using refines [of s l] by auto
  from Cons.IH [OF s1(3)] Cons.prems(2) s1(2) obtain s2 where
    "run_acts step ls s1 = Inr (s2, snd (run_spec spec ls (fst (spec l (abs s)))))"
    "abs s2 = fst (run_spec spec ls (fst (spec l (abs s))))" "inv s2"
    by auto
  with s1 show ?case
    by (auto simp: andThen_def split: prod.splits)
qed auto

end

section \<open>Lists\<close>

lemma find_Some_in: "find P xs = Some x \<Longrightarrow> x \<in> set xs \<and> P x"
  by (auto simp: find_Some_iff)

lemma distinct_map_find:
  "distinct (map f xs) \<Longrightarrow> x \<in> set xs \<Longrightarrow> find (\<lambda>y. f y = f x) xs = Some x"
  by (induction xs) (auto simp: image_iff)

lemma map_eq_replicate: "(\<And>x. x \<in> set xs \<Longrightarrow> f x = c) \<Longrightarrow> map f xs = replicate (length xs) c"
  by (induction xs) auto

section \<open>Words\<close>

lemma unat_drop_bit_div: "unat (drop_bit k v) = unat v div 2 ^ k"
  by (simp add: unat_drop_bit_eq drop_bit_eq_div [where ?'a = nat])

lemma unat_u8: "unat (b::u8) < 256"
  using unsigned_less [of b, where ?'a = nat] by simp

lemma unat_add_le: "unat (a + b :: 'a::len word) \<le> unat a + unat b"
  by (simp add: unat_word_ariths)

end
