(* ===== verification/NcPacket.thy ===== *)
theory NcPacket
  imports Prelude
begin

text \<open>
  Variable length unsigned integers of \<^verbatim>\<open>src/core/nc_packet.c\<close>: the two top bits of the first
  byte say whether 1, 2, 4 or 8 bytes carry the value.
\<close>

section \<open>Definitions\<close>

text \<open>
  \<open>var_uint_read mem bufSize\<close>: \<open>mem\<close> is the memory block from the pointer on; the result is the
  returned flag and the out parameters \<open>val\<close> and \<open>len\<close>. The first byte is read before the
  length is looked at.
\<close>

definition var_uint_read :: "u8 list \<Rightarrow> u16 \<Rightarrow> (bool \<times> u64 \<times> u8) outcome" where
  "var_uint_read buf bufSize =
     obind (rd buf 0) (\<lambda>first.
       let b7 = first AND 0x3F; lengthBits = drop_bit 6 first in
       if unat bufSize < 2 ^ unat lengthBits then Inr (False, 0, 0)
       else if lengthBits = 0 then Inr (True, ucast b7, 1)
       else if lengthBits = 1 then
         obind (rd buf 1) (\<lambda>b6.
           Inr (True, push_bit 8 (ucast b7) + ucast b6, 2))
       else if lengthBits = 2 then
         obind (rd buf 1) (\<lambda>b6. obind (rd buf 2) (\<lambda>b5. obind (rd buf 3) (\<lambda>b4.
           Inr (True, push_bit 24 (ucast b7) + push_bit 16 (ucast b6)
                      + push_bit 8 (ucast b5) + ucast b4, 4))))
       else
         obind (rd buf 1) (\<lambda>b6. obind (rd buf 2) (\<lambda>b5. obind (rd buf 3) (\<lambda>b4.
         obind (rd buf 4) (\<lambda>b3. obind (rd buf 5) (\<lambda>b2. obind (rd buf 6) (\<lambda>b1.
         obind (rd buf 7) (\<lambda>b0.
           Inr (True, push_bit 56 (ucast b7) + push_bit 48 (ucast b6) + push_bit 40 (ucast b5)
                      + push_bit 32 (ucast b4) + push_bit 24 (ucast b3) + push_bit 16 (ucast b2)
                      + push_bit 8 (ucast b1) + ucast b0, 8)))))))))"

text \<open>\<open>var_uint_write_forward\<close>: the bytes written; the returned pointer is advanced by their number.\<close>

definition var_uint_write_forward :: "u64 \<Rightarrow> u8 list" where
  "var_uint_write_forward val =
     (let b7 = (ucast val :: u8); b6 = ucast (drop_bit 8 val); b5 = ucast (drop_bit 16 val);
          b4 = ucast (drop_bit 24 val); b3 = ucast (drop_bit 32 val); b2 = ucast (drop_bit 40 val);
          b1 = ucast (drop_bit 48 val); b0 = ucast (drop_bit 56 val) in
      if val < push_bit 6 1 then [b7]
      else if val < push_bit 14 1 then [b6 OR push_bit 6 1, b7]
      else if val < push_bit 30 1 then [b4 OR push_bit 6 2, b5, b6, b7]
      else [b0 OR push_bit 6 3, b1, b2, b3, b4, b5, b6, b7])"

section \<open>Byte arithmetic\<close>

lemma unat_byte: "unat (ucast (drop_bit k v) :: u8) = unat (v::u64) div 2 ^ k mod 256"
  by (simp add: unsigned_ucast_eq unat_drop_bit_div take_bit_eq_mod [where ?'a = nat])

lemma unat_byte0: "unat (ucast v :: u8) = unat (v::u64) mod 256"
  using unat_byte [of 0 v] by simp

lemma unat_byte64: "unat (ucast (b::u8) :: u64) = unat b"
  using unat_u8 [of b] by (simp add: unsigned_ucast_eq take_bit_eq_mod [where ?'a = nat])

lemma low6_mask: "(0x3F :: u8) = mask 6" by (simp add: mask_eq_exp_minus_1)

lemma tag_low: "(b OR push_bit 6 t) AND 0x3F = (b AND 0x3F :: u8)"
  unfolding low6_mask
  by (rule bit_eqI) (auto simp: bit_simps)

lemma unat_low6: "unat (b AND 0x3F :: u8) = unat b mod 64"
  unfolding low6_mask by (simp flip: take_bit_eq_mask add: unsigned_take_bit_eq take_bit_eq_mod [where ?'a = nat])

lemma high_small: "unat b < 64 \<Longrightarrow> drop_bit 6 (b::u8) = 0"
  by (simp add: word_unat_eq_iff unat_drop_bit_div)
lemma tag_high: "unat b < 64 \<Longrightarrow> drop_bit 6 ((b :: u8) OR push_bit 6 t) = take_bit 2 t"
proof -
  have "drop_bit 6 (push_bit 6 t :: u8) = take_bit 2 t" 
   by (rule bit_eqI) (auto simp: bit_simps)
  then show "unat b < 64 \<Longrightarrow> ?thesis" by (simp add: high_small)
qed

lemma three_mask: "(3::u8) = mask 2" by (simp add: mask_eq_exp_minus_1)
lemma tag_high3: "drop_bit 6 ((b :: u8) OR push_bit 6 3) = 3"
  unfolding three_mask by  (rule bit_eqI) (auto simp: bit_simps dest: bit_imp_le_length)


lemma split_byte: "j = k + 8 \<Longrightarrow> (n::nat) mod 2 ^ j = n div 2 ^ k mod 256 * 2 ^ k + n mod 2 ^ k"
  using mod_mult2_eq [of n "2 ^ k" 256] by (simp add: power_add)

lemma split_top: "j = k + 6 \<Longrightarrow> (n::nat) mod 2 ^ j = n div 2 ^ k mod 256 mod 64 * 2 ^ k + n mod 2 ^ k"
  using mod_mult2_eq [of n "2 ^ k" 64] mod_mod_cancel [of 64 256 "n div 2 ^ k"] by (simp add: power_add)

lemma bytes_sum2: "(n::nat) mod 2 ^ 14 = n div 2 ^ 8 mod 256 mod 64 * 2 ^ 8 + n mod 256"
  using split_top [of 14 8 n] by simp

lemma bytes_sum4:
  "(n::nat) mod 2 ^ 30 = n div 2 ^ 24 mod 256 mod 64 * 2 ^ 24 + n div 2 ^ 16 mod 256 * 2 ^ 16
    + n div 2 ^ 8 mod 256 * 2 ^ 8 + n mod 256"
proof -
  have "n mod 2 ^ 30 = n div 2 ^ 24 mod 256 mod 64 * 2 ^ 24 + n mod 2 ^ 24" by (rule split_top) simp
  moreover have "n mod 2 ^ 24 = n div 2 ^ 16 mod 256 * 2 ^ 16 + n mod 2 ^ 16" by (rule split_byte) simp
  moreover have "n mod 2 ^ 16 = n div 2 ^ 8 mod 256 * 2 ^ 8 + n mod 256"
    using split_byte [of 16 8 n] by simp
  ultimately show ?thesis by (simp only: add.assoc)
qed

lemma bytes_sum8:
  "(n::nat) mod 2 ^ 62 = n div 2 ^ 56 mod 256 mod 64 * 2 ^ 56 + n div 2 ^ 48 mod 256 * 2 ^ 48
    + n div 2 ^ 40 mod 256 * 2 ^ 40 + n div 2 ^ 32 mod 256 * 2 ^ 32 + n div 2 ^ 24 mod 256 * 2 ^ 24
    + n div 2 ^ 16 mod 256 * 2 ^ 16 + n div 2 ^ 8 mod 256 * 2 ^ 8 + n mod 256"
proof -
  have "n mod 2 ^ 62 = n div 2 ^ 56 mod 256 mod 64 * 2 ^ 56 + n mod 2 ^ 56" by (rule split_top) simp
  moreover have "n mod 2 ^ 56 = n div 2 ^ 48 mod 256 * 2 ^ 48 + n mod 2 ^ 48" by (rule split_byte) simp
  moreover have "n mod 2 ^ 48 = n div 2 ^ 40 mod 256 * 2 ^ 40 + n mod 2 ^ 40" by (rule split_byte) simp
  moreover have "n mod 2 ^ 40 = n div 2 ^ 32 mod 256 * 2 ^ 32 + n mod 2 ^ 32" by (rule split_byte) simp
  moreover have "n mod 2 ^ 32 = n div 2 ^ 24 mod 256 * 2 ^ 24 + n mod 2 ^ 24" by (rule split_byte) simp
  moreover have "n mod 2 ^ 24 = n div 2 ^ 16 mod 256 * 2 ^ 16 + n mod 2 ^ 16" by (rule split_byte) simp
  moreover have "n mod 2 ^ 16 = n div 2 ^ 8 mod 256 * 2 ^ 8 + n mod 256"
    using split_byte [of 16 8 n] by simp
  ultimately show ?thesis by (simp only: add.assoc)
qed

lemma cast_byte: "ucast (b::u8) = (of_nat (unat b) :: u64)"
  by (simp add: word_unat_eq_iff unat_byte64)

lemma take_bit_of_nat_unat: "take_bit k (v::u64) = of_nat (unat v mod 2 ^ k)"
proof -
  have "of_nat (unat v mod 2 ^ k) = (of_nat (take_bit k (unat v)) :: u64)" 
    by (simp add: take_bit_eq_mod [where ?'a = nat])
  also have "\<dots> = take_bit k (of_nat (unat v))" by (simp only: take_bit_of_nat)
  finally show ?thesis by simp
qed

lemmas byte_arith = cast_byte unat_low6 unat_byte unat_byte0 unat_drop_bit_div

lemma read2: fixes v :: u64
  shows "push_bit 8 (ucast ((ucast (drop_bit 8 v) :: u8) AND 0x3F)) + ucast (ucast v :: u8) = take_bit 14 v"
  unfolding take_bit_of_nat_unat bytes_sum2
  by (simp add: byte_arith push_bit_eq_mult)

lemma read4: fixes v :: u64
  shows "push_bit 24 (ucast ((ucast (drop_bit 24 v) :: u8) AND 0x3F))
     + push_bit 16 (ucast (ucast (drop_bit 16 v) :: u8)) + push_bit 8 (ucast (ucast (drop_bit 8 v) :: u8)) + ucast (ucast v :: u8) = take_bit 30 v"
  unfolding take_bit_of_nat_unat bytes_sum4
  by (simp add: byte_arith push_bit_eq_mult)

lemma read8: fixes v :: u64
  shows "push_bit 56 (ucast ((ucast (drop_bit 56 v) :: u8) AND 0x3F))
     + push_bit 48 (ucast (ucast (drop_bit 48 v) :: u8)) + push_bit 40 (ucast (ucast (drop_bit 40 v) :: u8)) 
     + push_bit 32 (ucast (ucast (drop_bit 32 v) :: u8)) + push_bit 24 (ucast (ucast (drop_bit 24 v) :: u8)) 
     + push_bit 16 (ucast (ucast (drop_bit 16 v) :: u8)) + push_bit 8 (ucast (ucast (drop_bit 8 v) :: u8)) + ucast (ucast v :: u8) = take_bit 62 v"
  unfolding take_bit_of_nat_unat bytes_sum8
  by (simp add: byte_arith push_bit_eq_mult)

lemma small_take_bit: "unat (v::u64) < 2 ^ k \<Longrightarrow> take_bit k v = v"
  unfolding take_bit_of_nat_unat by simp

lemmas tag_simps = tag_low [of _ 1, simplified] tag_low [of _ 2, simplified] tag_low [of _ 3, simplified]
  tag_high [of _ 1, simplified] tag_high [of _ 2, simplified] tag_high3 [simplified]

lemma low6_small: "unat b < 64 \<Longrightarrow> (b::u8) AND 0x3F = b"
  by (simp add: unat_low6 word_unat_eq_iff)

lemma var_uint_write_forward_eq:
  "var_uint_write_forward v =
     (if unat v < 2 ^ 6 then [ucast v]
      else if unat v < 2 ^ 14 then [ucast (drop_bit 8 v) OR 0x40, ucast v]
      else if unat v < 2 ^ 30 then [ucast (drop_bit 24 v) OR 0x80, ucast (drop_bit 16 v),
        ucast (drop_bit 8 v), ucast v]
      else [ucast (drop_bit 56 v) OR 0xC0, ucast (drop_bit 48 v), ucast (drop_bit 40 v),
        ucast (drop_bit 32 v), ucast (drop_bit 24 v), ucast (drop_bit 16 v), ucast (drop_bit 8 v),
        ucast v])"
  by (simp add: var_uint_write_forward_def Let_def word_less_nat_alt)

lemma read1: "unat v < 64 \<Longrightarrow> (ucast (ucast (v::u64) :: u8) :: u64) = v"
  by (simp add: word_unat_eq_iff unat_byte64 unat_byte0)

lemma var_uint_write_length:
  "length (var_uint_write_forward v) =
     (if unat v < 2 ^ 6 then 1 else if unat v < 2 ^ 14 then 2 else if unat v < 2 ^ 30 then 4 else 8)"
  by (simp add: var_uint_write_forward_eq)

text \<open>
  C40. Writing a value and reading it back gives the value, its length and the success flag, whatever
  follows it in the buffer: exactly for values below \<open>2 ^ 62\<close>, and for larger ones (which the
  eight byte form cannot carry) modulo \<open>2 ^ 62\<close>.
\<close>

theorem var_uint_roundtrip:
  assumes "length (var_uint_write_forward v) \<le> unat n"
  shows "var_uint_read (var_uint_write_forward v @ rest) n
           = Inr (True, take_bit 62 v, of_nat (length (var_uint_write_forward v)))"
proof -
  have b1: "unat v < 2 ^ 6 \<Longrightarrow> unat (ucast v :: u8) < 64" by (simp add: unat_byte0)
  have b2: "unat v < 2 ^ 14 \<Longrightarrow> unat (ucast (drop_bit 8 v) :: u8) < 64"
    by (simp add: unat_byte less_mult_imp_div_less)
  have b4: "unat v < 2 ^ 30 \<Longrightarrow> unat (ucast (drop_bit 24 v) :: u8) < 64"
    by (simp add: unat_byte less_mult_imp_div_less)
  consider "unat v < 2 ^ 6" | "\<not> unat v < 2 ^ 6" "unat v < 2 ^ 14" 
     | "\<not> unat v < 2 ^ 14" "unat v < 2 ^ 30"  | "\<not> unat v < 2 ^ 30" by linarith
  then show ?thesis
  proof cases
    case 1
    then show ?thesis using assms b1
      by (simp add: var_uint_write_forward_eq var_uint_read_def high_small low6_small read1 small_take_bit)
  next
    case 2
    then show ?thesis using assms b2 
      by (simp add: var_uint_write_forward_eq var_uint_read_def tag_simps read2 small_take_bit)
  next
    case 3
    then show ?thesis using assms b4
      by (simp add: var_uint_write_forward_eq var_uint_read_def tag_simps read4 small_take_bit)
  next
    case 4
    then show ?thesis using assms
      by (simp add: var_uint_write_forward_eq var_uint_read_def tag_simps read8)
  qed
qed

theorem var_uint_roundtrip_witness:
  "var_uint_read (var_uint_write_forward 300 @ [9]) 3 = Inr (True, 300, 2)"
  using var_uint_roundtrip [of 300 3 "[9]"] by (simp add: var_uint_write_length)

lemma unat_push_le: "unat (push_bit k (ucast (b::u8)) :: u64) \<le> unat b * 2 ^ k"
  by (simp add: unsigned_push_bit_eq unat_byte64 push_bit_eq_mult [where ?'a = nat] take_bit_eq_mod [where ?'a = nat])

lemma acc_top: "unat (push_bit k (ucast ((b::u8) AND 0x3F)) :: u64) \<le> 63 * 2 ^ k"
proof -
  have "unat (b AND 0x3F) \<le> 63" by (simp add: unat_low6)
  then show ?thesis using unat_push_le [of k "b AND 0x3F"] by (meson le_trans mult_le_mono1)
qed

lemma acc_step: "unat a \<le> x \<Longrightarrow> unat (a + push_bit k (ucast (b::u8)) :: u64) \<le> x + 255 * 2 ^ k"
proof -
  assume "unat a \<le> x"
  moreover have "unat b \<le> 255" using unat_u8 [of b] by simp
  then have "unat b * 2 ^ k \<le> 255 * 2 ^ k" by simp
  ultimately show ?thesis
    using unat_add_le [of a "push_bit k (ucast b)"] unat_push_le [of k b] by linarith
qed

lemma acc_last: "unat a \<le> x \<Longrightarrow> unat (a + ucast (b::u8) :: u64) \<le> x + 255"
  using acc_step [of a x 0 b] by simp

lemmas acc2 = acc_last [OF acc_top]
lemmas acc4 = acc_last [OF acc_step [OF acc_step [OF acc_top]]]
lemmas acc8 = acc_last [OF acc_step [OF acc_step [OF acc_step [OF acc_step [OF acc_step
  [OF acc_step [OF acc_top]]]]]]]

lemma read_bounds:
  "unat (ucast ((b7::u8) AND 0x3F) :: u64) < 2 ^ 6"
  "unat (push_bit 8 (ucast (b7 AND 0x3F)) + ucast (b6::u8) :: u64) < 2 ^ 14"
  "unat (push_bit 24 (ucast (b7 AND 0x3F)) + push_bit 16 (ucast b6) + push_bit 8 (ucast (b5::u8))
     + ucast (b4::u8) :: u64) < 2 ^ 30"
  "unat (push_bit 56 (ucast (b7 AND 0x3F)) + push_bit 48 (ucast b6) + push_bit 40 (ucast b5)
     + push_bit 32 (ucast b4) + push_bit 24 (ucast (b3::u8)) + push_bit 16 (ucast (b2::u8))
     + push_bit 8 (ucast (b1::u8)) + ucast (b0::u8) :: u64) < 2 ^ 62"
  subgoal by (simp add: unat_byte64 unat_low6)
  subgoal by (rule le_less_trans [OF acc2]) simp
  subgoal by (rule le_less_trans [OF acc4]) simp
  subgoal by (rule le_less_trans [OF acc8]) simp
  done

lemma length_bits_cases: "drop_bit 6 (b::u8) \<in> {0, 1, 2, 3}"
proof -
  have "unat (drop_bit 6 b) < 4" using unat_u8 [of b] by (simp add: unat_drop_bit_div)
  then have "unat (drop_bit 6 b) \<in> {0, 1, 2, 3}" by auto
  then show ?thesis by (auto simp: word_unat_eq_iff)
qed

lemma rd_ok: "j < unat n \<Longrightarrow> unat n \<le> length buf \<Longrightarrow> rd buf j = Inr (buf ! j)"
  by simp

text \<open>
  A read of a nonempty buffer never leaves it. It fails exactly when the announced length does
  not fit in the buffer; otherwise it consumes the announced 1, 2, 4 or 8 bytes and gives a value
  below \<open>2 ^ 6\<close>, \<open>2 ^ 14\<close>, \<open>2 ^ 30\<close> or \<open>2 ^ 62\<close>.
\<close>

lemma var_uint_read_total:
  fixes buf :: "u8 list"
  assumes "0 < unat n" "unat n \<le> length buf"
  shows "let k = 2 ^ unat (drop_bit 6 (buf ! 0)) in
         if unat n < k then var_uint_read buf n = Inr (False, 0, 0)
         else \<exists>v. var_uint_read buf n = Inr (True, v, of_nat k) \<and> unat v < 2 ^ (8 * k - 2)"
proof -
  note rd = rd_ok [OF _ assms(2)]
  consider "drop_bit 6 (buf ! 0) = 0" | "drop_bit 6 (buf ! 0) = 1" | "drop_bit 6 (buf ! 0) = 2"
    | "drop_bit 6 (buf ! 0) = 3" using length_bits_cases [of "buf ! 0"] by auto
  then show ?thesis
    by cases (use assms(1) read_bounds in \<open>auto simp: var_uint_read_def rd not_less\<close>)
qed

end
