(* ===== verification/NpPlatform.thy ===== *)
theory NpPlatform
  imports Prelude
begin

text \<open>
  The platform utilities of \<^verbatim>\<open>src/platform\<close>: error codes (\<^verbatim>\<open>np_error_code.h\<close>), hexadecimal
  conversion (\<^verbatim>\<open>np_util.c\<close>), IP addresses (\<^verbatim>\<open>np_ip_address.c\<close>) and wrapping timestamps
  (\<^verbatim>\<open>np_timestamp_wrapper.c\<close>).
\<close>

section \<open>Error codes\<close>

datatype np_error_code =
    NABTO_EC_OK | NABTO_EC_UNKNOWN | NABTO_EC_NOT_SUPPORTED | NABTO_EC_UDP_SOCKET_CREATION_ERROR
  | NABTO_EC_UDP_SOCKET_ERROR | NABTO_EC_INVALID_SOCKET | NABTO_EC_EOF
  | NABTO_EC_FAILED_TO_SEND_PACKET | NABTO_EC_MALFORMED_PACKET | NABTO_EC_OUT_OF_CHANNELS
  | NABTO_EC_OUT_OF_CONNECTIONS | NABTO_EC_INVALID_CHANNEL | NABTO_EC_INVALID_CONNECTION_ID
  | NABTO_EC_INSUFFICIENT_BUFFER_ALLOCATION | NABTO_EC_ALPN_FAILED
  | NABTO_EC_INVALID_PEER_FINGERPRINT | NABTO_EC_CONNECTION_CLOSING | NABTO_EC_KEEP_ALIVE_TIMEOUT
  | NABTO_EC_SEND_IN_PROGRESS | NABTO_EC_FUTURE_NOT_RESOLVED | NABTO_EC_NO_VALID_ENDPOINTS
  | NABTO_EC_OPERATION_IN_PROGRESS | NABTO_EC_ABORTED | NABTO_EC_STOPPED | NABTO_EC_CLOSED
  | NABTO_EC_RESOURCE_EXISTS | NABTO_EC_NOT_FOUND | NABTO_EC_OUT_OF_MEMORY
  | NABTO_EC_NOT_IMPLEMENTED | NABTO_EC_ACCESS_DENIED | NABTO_EC_STRING_TOO_LONG
  | NABTO_EC_NOT_A_STRING | NABTO_EC_NOT_A_NUMBER | NABTO_EC_INVALID_CONNECTION
  | NABTO_EC_INVALID_ARGUMENT | NABTO_EC_IN_USE | NABTO_EC_INVALID_STATE | NABTO_EC_NO_DATA
  | NABTO_EC_OPERATION_STARTED | NABTO_EC_NO_OPERATION | NABTO_EC_AGAIN

section \<open>Hexadecimal conversion\<close>

text \<open>The value of one hexadecimal digit, the \<open>if\<close> chain of the conversion loop.\<close>

definition hex_value :: "char \<Rightarrow> u8 option" where
  "hex_value c =
     (let n = of_char c :: nat in
      if 48 \<le> n \<and> n \<le> 57 then Some (of_nat (n - 48))
      else if 65 \<le> n \<and> n \<le> 70 then Some (of_nat (10 + (n - 65)))
      else if 97 \<le> n \<and> n \<le> 102 then Some (of_nat (10 + (n - 97)))
      else None)"

fun hex_loop :: "string \<Rightarrow> nat \<Rightarrow> u8 list \<Rightarrow> (bool \<times> u8 list) outcome" where
  "hex_loop [] index data = Inr (True, data)"
| "hex_loop (c # cs) index data =
     (case hex_value c of
        None \<Rightarrow> Inr (False, data)
      | Some value \<Rightarrow>
          if index div 2 < length data
          then hex_loop cs (index + 1)
                 (data[index div 2 := data ! (index div 2) + push_bit (((index + 1) mod 2) * 4) value])
          else Inl OutOfBounds)"

text \<open>
  \<open>data\<close> is the caller's buffer, its length the argument \<open>dataLength\<close>; the returned buffer is the
  one left behind, also when the conversion fails. An object has less than \<open>2 ^ 63\<close> bytes, so the
  \<open>size_t\<close> products do not wrap.
\<close>

definition np_hex_to_data_length :: "string \<Rightarrow> u8 list \<Rightarrow> (bool \<times> u8 list) outcome" where
  "np_hex_to_data_length hex data =
     (let hexLength = length hex; dataLength = length data in
      if \<not> (hexLength = dataLength * 2 \<or> hexLength = dataLength * 2 - 1) then Inr (False, data)
      else hex_loop hex (if hexLength mod 2 = 1 then 1 else 0) (replicate dataLength 0))"

definition np_hex_to_data :: "string \<Rightarrow> u8 list \<Rightarrow> (bool \<times> u8 list) outcome" where
  "np_hex_to_data hex data = np_hex_to_data_length hex data"

definition encodeChar :: "u8 \<Rightarrow> char" where
  "encodeChar val = (if val \<le> 9 then char_of (48 + unat val) else char_of (97 + (unat val - 10)))"

primrec np_data_to_hex :: "u8 list \<Rightarrow> string" where
  "np_data_to_hex [] = []"
| "np_data_to_hex (byte # data) =
     encodeChar (drop_bit 4 byte AND 0xF) # encodeChar (byte AND 0xF) # np_data_to_hex data"

section \<open>IP addresses\<close>

datatype np_ip_address_type = NABTO_IPV4 | NABTO_IPV6

text \<open>The union of the two address arrays is its 16 bytes; \<open>v4\<close> is the first four of them.\<close>

record np_ip_address =
  ip_type :: np_ip_address_type
  ip_bytes :: "u8 list"

record np_udp_endpoint =
  ep_ip :: np_ip_address
  ep_port :: u16

datatype np_dtls_cli_event =
    NP_DTLS_CLI_EVENT_CLOSED
  | NP_DTLS_CLI_EVENT_HANDSHAKE_COMPLETE
  | NP_DTLS_CLI_EVENT_ACCESS_DENIED

definition ip_zero :: np_ip_address where
  "ip_zero = \<lparr>ip_type = NABTO_IPV4, ip_bytes = replicate 16 0\<rparr>"

definition np_ip_wf :: "np_ip_address \<Rightarrow> bool" where
  "np_ip_wf ip = (length (ip_bytes ip) = 16)"

definition ip_v4 :: "np_ip_address \<Rightarrow> u8 list" where
  "ip_v4 ip = take 4 (ip_bytes ip)"

definition np_ip_is_v4 :: "np_ip_address \<Rightarrow> bool" where
  "np_ip_is_v4 ip = (ip_type ip = NABTO_IPV4)"

definition np_ip_is_v6 :: "np_ip_address \<Rightarrow> bool" where
  "np_ip_is_v6 ip = (ip_type ip = NABTO_IPV6)"

text \<open>\<open>printf\<close> with \<open>%u\<close>: the decimal digits of a number.\<close>

fun print_dec :: "nat \<Rightarrow> string" where
  "print_dec n = (if n < 10 then [char_of (48 + n)] else print_dec (n div 10) @ [char_of (48 + n mod 10)])"

definition print_hex02 :: "u8 \<Rightarrow> string" where
  "print_hex02 b = [encodeChar (drop_bit 4 b AND 0xF), encodeChar (b AND 0xF)]"

fun print_v6 :: "u8 list \<Rightarrow> string" where
  "print_v6 [a, b] = print_hex02 a @ print_hex02 b"
| "print_v6 (a # b # rest) = print_hex02 a @ print_hex02 b @ '':'' @ print_v6 rest"
| "print_v6 bs = []"

definition np_ip_address_to_string :: "np_ip_address \<Rightarrow> string" where
  "np_ip_address_to_string address =
     (case ip_type address of
        NABTO_IPV4 \<Rightarrow>
          print_dec (unat (ip_bytes address ! 0)) @ ''.'' @ print_dec (unat (ip_bytes address ! 1)) @ ''.''
          @ print_dec (unat (ip_bytes address ! 2)) @ ''.'' @ print_dec (unat (ip_bytes address ! 3))
      | NABTO_IPV6 \<Rightarrow> print_v6 (ip_bytes address))"

definition write_v4 :: "u8 list \<Rightarrow> np_ip_address \<Rightarrow> np_ip_address" where
  "write_v4 bs ip = ip\<lparr>ip_type := NABTO_IPV4, ip_bytes := bs @ drop 4 (ip_bytes ip)\<rparr>"

definition np_ip_address_assign_v4 :: "np_ip_address \<Rightarrow> u32 \<Rightarrow> np_ip_address" where
  "np_ip_address_assign_v4 ip address =
     write_v4 [ucast (drop_bit 24 address), ucast (drop_bit 16 address), ucast (drop_bit 8 address),
               ucast address] ip"

definition ipv4MappedIpv6Prefix :: "u8 list" where
  "ipv4MappedIpv6Prefix = [0, 0, 0, 0, 0, 0, 0, 0, 0, 0, 0xFF, 0xFF]"

definition np_ip_is_v4_mapped :: "np_ip_address \<Rightarrow> bool" where
  "np_ip_is_v4_mapped ip = (np_ip_is_v6 ip \<and> take 12 (ip_bytes ip) = ipv4MappedIpv6Prefix)"

text \<open>The target object \<open>v6\<close> (\<open>v4\<close> below) is distinct from the source, as at every call.\<close>

definition np_ip_convert_v4_to_v4_mapped :: "np_ip_address \<Rightarrow> np_ip_address \<Rightarrow> np_ip_address" where
  "np_ip_convert_v4_to_v4_mapped v4 v6 =
     v6\<lparr>ip_type := NABTO_IPV6, ip_bytes := ipv4MappedIpv6Prefix @ ip_v4 v4\<rparr>"

definition np_ip_convert_v4_mapped_to_v4 :: "np_ip_address \<Rightarrow> np_ip_address \<Rightarrow> np_ip_address" where
  "np_ip_convert_v4_mapped_to_v4 v6 v4 = write_v4 (take 4 (drop 12 (ip_bytes v6))) v4"

definition is_digit :: "char \<Rightarrow> bool" where
  "is_digit c = (let n = of_char c :: nat in 48 \<le> n \<and> n \<le> 57)"

text \<open>\<open>read_number\<close> with the accumulator \<open>n\<close>; a pointer into a C string is the suffix it points to.\<close>

fun read_number :: "string \<Rightarrow> u32 \<Rightarrow> u32 \<times> string" where
  "read_number [] n = (n, [])"
| "read_number (c # cs) n =
     (if is_digit c then read_number cs (n * 10 + of_nat (of_char c - 48)) else (n, c # cs))"

definition np_ip_address_read_v4 :: "string \<Rightarrow> np_ip_address \<Rightarrow> bool \<times> np_ip_address" where
  "np_ip_address_read_v4 str ip =
     (case read_number str 0 of (a, p1) \<Rightarrow>
      if p1 = [] \<or> hd p1 \<noteq> CHR ''.'' then (False, ip) else
      case read_number (tl p1) 0 of (b, p2) \<Rightarrow>
      if p2 = [] \<or> hd p2 \<noteq> CHR ''.'' then (False, ip) else
      case read_number (tl p2) 0 of (c, p3) \<Rightarrow>
      if p3 = [] \<or> hd p3 \<noteq> CHR ''.'' then (False, ip) else
      case read_number (tl p3) 0 of (d, p4) \<Rightarrow>
      (True, write_v4 [ucast a, ucast b, ucast c, ucast d] ip))"

section \<open>Timestamps\<close>

text \<open>The C difference of two \<open>int32_t\<close> values; an overflow is undefined.\<close>

definition int32_sub :: "u32 \<Rightarrow> u32 \<Rightarrow> int outcome" where
  "int32_sub a b =
     (let d = sint a - sint b in if - (2 ^ 31) \<le> d \<and> d < 2 ^ 31 then Inr d else Inl SignedOverflow)"

definition np_timestamp_less_or_equal :: "u32 \<Rightarrow> u32 \<Rightarrow> bool outcome" where
  "np_timestamp_less_or_equal t1 t2 = obind (int32_sub t1 t2) (\<lambda>d. Inr (d \<le> 0))"

definition np_timestamp_passed_or_now :: "u32 \<Rightarrow> u32 \<Rightarrow> bool outcome" where
  "np_timestamp_passed_or_now now stamp = np_timestamp_less_or_equal stamp now"

definition np_timestamp_future :: "u32 \<Rightarrow> u32 \<Rightarrow> u32" where
  "np_timestamp_future now ms = now + ms"

definition np_timestamp_difference :: "u32 \<Rightarrow> u32 \<Rightarrow> int outcome" where
  "np_timestamp_difference t1 t2 = int32_sub t1 t2"

section \<open>Hexadecimal conversion and addresses: proofs\<close>

declare print_dec.simps [simp del]

lemma u8_nibble_cases: "v < (16::u8) \<Longrightarrow> v \<in> set (map of_nat [0..<16])"
proof -
  assume "v < 16"
  then have "unat v < 16" by (simp add: word_less_nat_alt)
  then have "unat v \<in> set [0..<16]" by simp
  then have "of_nat (unat v) \<in> (of_nat :: nat \<Rightarrow> u8) ` set [0..<16]" by (rule imageI)
  then show ?thesis by simp
qed

lemma hex_value_encodeChar: "v < 16 \<Longrightarrow> hex_value (encodeChar v) = Some v"
  by (drule u8_nibble_cases) (auto simp: upt_conv_Cons hex_value_def encodeChar_def)

lemma nibble_lt: "(b::u8) AND 0xF < 16"
  using word_and_le1 [of b "0xF"] by (rule le_less_trans) simp

lemma nibbles_join: "push_bit 4 (drop_bit 4 (b::u8) AND 0xF) + (b AND 0xF) = b"
proof -
  have m: "(0xF::u8) = mask 4" by (simp add: mask_eq_exp_minus_1)
  have "push_bit 4 (drop_bit 4 b AND 0xF) AND (b AND 0xF) = 0"
    unfolding m by (rule bit_eqI) (auto simp: bit_simps)
  then have "push_bit 4 (drop_bit 4 b AND 0xF) + (b AND 0xF) = push_bit 4 (drop_bit 4 b AND 0xF) OR (b AND 0xF)"
    by (simp add: disjunctive_add_eq_or)
  also have "\<dots> = b"
    unfolding m by (rule bit_eqI) (auto simp: bit_simps)
  finally show ?thesis .
qed

lemma hex_loop_data_to_hex:
  "hex_loop (np_data_to_hex d) (2 * length pre) (pre @ replicate (length d) 0) = Inr (True, pre @ d)"
proof (induction d arbitrary: pre)
  case (Cons b d)
  have "(Suc (2 * length pre)) div 2 = length pre" by simp
  then show ?case
    using Cons.IH [of "pre @ [b]"]
    by (simp add: hex_value_encodeChar nibble_lt nibbles_join [simplified] list_update_append)
qed simp

lemma length_np_data_to_hex [simp]: "length (np_data_to_hex d) = 2 * length d"
  by (induction d) auto

text \<open>
  The hexadecimal text of a byte string is converted back to that byte string, into any buffer
  of its size.
\<close>

lemma np_hex_roundtrip:
  "length data = length d \<Longrightarrow> np_hex_to_data (np_data_to_hex d) data = Inr (True, d)"
  using hex_loop_data_to_hex [of d "[]"]
  by (simp add: np_hex_to_data_def np_hex_to_data_length_def)

lemma hex_loop_total:
  "length cs + index \<le> 2 * length data \<Longrightarrow>
     \<exists>d. hex_loop cs index data = Inr (list_all (\<lambda>c. hex_value c \<noteq> None) cs, d) \<and> length d = length data"
proof (induction cs arbitrary: index data)
  case (Cons c cs)
  then have i: "index div 2 < length data" by simp
  show ?case
  proof (cases "hex_value c")
    case (Some v)
    let ?data = "data[index div 2 := data ! (index div 2) + push_bit (((index + 1) mod 2) * 4) v]"
    have "length cs + (index + 1) \<le> 2 * length ?data" using Cons.prems by simp
    from Cons.IH [OF this] i Some show ?thesis by simp
  qed simp
qed simp

text \<open>
  The conversion never writes outside the data buffer; it succeeds exactly when the text has
  twice the buffer's length, or one digit less, and consists of hexadecimal digits.
\<close>

lemma np_hex_to_data_total:
  "\<exists>d. np_hex_to_data hex data
     = Inr ((length hex = 2 * length data \<or> length hex = 2 * length data - 1)
            \<and> list_all (\<lambda>c. hex_value c \<noteq> None) hex, d) \<and> length d = length data"
proof (cases "length hex = 2 * length data \<or> length hex = 2 * length data - 1")
  case True
  moreover have "length hex + (if length hex mod 2 = 1 then 1 else 0) \<le> 2 * length data"
    using True by (cases "length data") auto
  ultimately show ?thesis
    using hex_loop_total [of hex "if length hex mod 2 = 1 then 1 else 0" "replicate (length data) 0"]
    by (auto simp: np_hex_to_data_def np_hex_to_data_length_def mult.commute)
next
  case False
  then show ?thesis by (auto simp: np_hex_to_data_def np_hex_to_data_length_def mult.commute)
qed

lemma digit_char: "n < 10 \<Longrightarrow> of_char (char_of (48 + n) :: char) = (48 + n :: nat)"
  by simp

lemma read_number_print_dec:
  "read_number (print_dec n @ rest) 0 = read_number rest (of_nat n)"
proof (induction n arbitrary: rest rule: print_dec.induct)
  case (1 n)
  show ?case
  proof (cases "n < 10")
    case True
    then show ?thesis by (simp add: print_dec.simps [of n] is_digit_def)
  next
    case False
    have "of_nat (n div 10) * 10 + of_nat (n mod 10) = (of_nat n :: u32)"
      by (metis div_mult_mod_eq of_nat_add of_nat_mult of_nat_numeral)
    moreover have "read_number (print_dec n @ rest) 0 = read_number (char_of (48 + n mod 10) # rest) (of_nat (n div 10))"
      using 1 [OF False, of "char_of (48 + n mod 10) # rest"] False by (simp add: print_dec.simps [of n])
    moreover have "n mod 10 < 10" "of_char (char_of (48 + n mod 10) :: char) = 48 + n mod 10" by simp_all
    ultimately show ?thesis by (simp add: is_digit_def)
  qed
qed

lemma read_number_stop: "rest = [] \<or> \<not> is_digit (hd rest) \<Longrightarrow> read_number rest n = (n, rest)"
  by (cases rest) auto

lemma byte_of_number: "ucast (of_nat (unat (b::u8)) :: u32) = b"
  by (rule bit_eqI) (simp add: bit_simps)

text \<open>
  An IPv4 address printed in dotted decimal is read back as the same address.
\<close>

lemma np_ip_v4_print_read:
  assumes "np_ip_wf a" "np_ip_is_v4 a"
  shows "\<exists>r. np_ip_address_read_v4 (np_ip_address_to_string a) ip = (True, r) \<and> np_ip_is_v4 r \<and> ip_v4 r = ip_v4 a"
proof -
  obtain b0 b1 b2 b3 bs where bs: "ip_bytes a = b0 # b1 # b2 # b3 # bs"
    using assms(1) by (auto simp: np_ip_wf_def eval_nat_numeral length_Suc_conv)
  have dot: "\<not> is_digit CHR ''.''" by (simp add: is_digit_def)
  have stop: "read_number (CHR ''.'' # xs) n = (n, CHR ''.'' # xs)" for xs n
    by (simp add: dot)
  have "np_ip_address_read_v4 (np_ip_address_to_string a) ip
     = (True, write_v4 [b0, b1, b2, b3] ip)"
    using assms(2) read_number_print_dec [of "unat b3" "[]"]
    by (simp add: np_ip_address_to_string_def np_ip_is_v4_def bs np_ip_address_read_v4_def
        read_number_print_dec dot byte_of_number del: of_nat_unat)
  then show ?thesis by (simp add: write_v4_def np_ip_is_v4_def ip_v4_def bs)
qed

text \<open>
  The conversion of an IPv4 address to its IPv4-mapped IPv6 form is recognised as mapped and
  converts back to the same IPv4 address.
\<close>

lemma np_ip_v4_mapped:
  assumes "np_ip_wf a"
  shows "let m = np_ip_convert_v4_to_v4_mapped a x in np_ip_is_v4_mapped m \<and> np_ip_wf m \<and>
     (let b = np_ip_convert_v4_mapped_to_v4 m y in np_ip_is_v4 b \<and> ip_v4 b = ip_v4 a)"
  using assms by (simp add: np_ip_convert_v4_to_v4_mapped_def np_ip_is_v4_mapped_def np_ip_is_v6_def np_ip_wf_def
    ip_v4_def ipv4MappedIpv6Prefix_def np_ip_convert_v4_mapped_to_v4_def write_v4_def np_ip_is_v4_def)

section \<open>Timestamps: arithmetic\<close>

lemma sint_u32: "sint (t::u32) = (uint t + 2147483648) mod 4294967296 - 2147483648"
  by (simp add: sint_uint signed_take_bit_eq_take_bit_shift take_bit_eq_mod)

lemma uint_u32: "0 \<le> uint (t::u32)" "uint (t::u32) < 4294967296"
  using uint_lt2p [of t] by simp_all

lemma uint_add_u32: "uint (t + d :: u32) = (uint t + uint d) mod 4294967296"
  by (simp add: uint_word_ariths)

lemma mod_once: "0 \<le> x \<Longrightarrow> x < 2 * m \<Longrightarrow> (x::int) mod m = (if x < m then x else x - m)"
proof (cases "x < m")
  case False
  assume a: "0 \<le> x" "x < 2 * m"
  have "x mod m = (x - m) mod m" by (rule minus_mod_self2 [symmetric])
  also have "\<dots> = x - m" using False a by (intro mod_pos_pos_trivial) auto
  finally show ?thesis using False by simp
qed (simp add: mod_pos_pos_trivial)

lemma sint_u32_cases: "sint (t::u32) = (if uint t < 2147483648 then uint t else uint t - 4294967296)"
  unfolding sint_u32 using uint_u32 [of t] by (subst mod_once) auto

lemma uint_add_u32_cases: "uint (t + d :: u32)
   = (if uint t + uint d < 4294967296 then uint t + uint d else uint t + uint d - 4294967296)"
  unfolding uint_add_u32 using uint_u32 [of t] uint_u32 [of d] by (subst mod_once) auto

text \<open>
  A timestamp less than \<open>2 ^ 31\<close> milliseconds in the future is ordered after the present one,
  except when the two straddle the point where the signed reading of the clock wraps: there the
  comparison itself overflows.
\<close>

lemma np_timestamp_order:
  assumes "d < 2 ^ 31"
  shows "np_timestamp_less_or_equal t (np_timestamp_future t d)
           = (if sint t \<le> sint (t + d) then Inr True else Inl SignedOverflow)"
proof -
  have d: "0 \<le> uint d" "uint d < 2147483648" using assms uint_u32 [of d] by (simp_all add: word_less_def)
  let ?s = "sint (t + d)"
  have "?s = sint t + uint d \<or> ?s = sint t + uint d - 4294967296"
    unfolding sint_u32_cases uint_add_u32_cases using uint_u32 [of t] d by arith
  moreover have "- 2147483648 \<le> sint t" "sint t < 2147483648"
    unfolding sint_u32_cases using uint_u32 [of t] by arith+
  ultimately show ?thesis using d
    by (auto simp: np_timestamp_less_or_equal_def np_timestamp_future_def int32_sub_def)
qed

end
