(* ===== verification/NnLib.thy ===== *)
theory NnLib
  imports Prelude
begin

text \<open>
  The containers of the external library \<^verbatim>\<open>nabto-common\<close> (\<open>nn_llist\<close>, \<open>nn_string_set\<close>, \<open>nn_string_map\<close>, \<open>nn_vector\<close>), whose sources are not part
  of the repository. They are parameters: a record of the operations the sources call, and a
  predicate with the documented behaviour of these operations that the theorems assume.
\<close>

section \<open>Linked lists with the nodes in the elements\<close>

text \<open>
  \<open>ll_items\<close> is the sequence an iteration from \<open>nn_llist_begin\<close> to the end meets; an iterator is the
  position in it.
\<close>

record ('l, 'e) nn_llist =
  ll_init :: 'l
  ll_items :: "'l \<Rightarrow> 'e list"
  ll_append :: "'l \<Rightarrow> 'e \<Rightarrow> 'l"
  ll_insert_before :: "'l \<Rightarrow> nat \<Rightarrow> 'e \<Rightarrow> 'l"
  ll_erase :: "'l \<Rightarrow> nat \<Rightarrow> 'l"
  ll_erase_node :: "'l \<Rightarrow> 'e \<Rightarrow> 'l"

definition nn_llist_laws :: "('l, 'e) nn_llist \<Rightarrow> bool" where
  "nn_llist_laws L \<longleftrightarrow>
     ll_items L (ll_init L) = [] \<and>
     (\<forall>l e. ll_items L (ll_append L l e) = ll_items L l @ [e]) \<and>
     (\<forall>l i e. i < length (ll_items L l) \<longrightarrow>
        ll_items L (ll_insert_before L l i e) = take i (ll_items L l) @ e # drop i (ll_items L l)) \<and>
     (\<forall>l i. i < length (ll_items L l) \<longrightarrow>
        ll_items L (ll_erase L l i) = take i (ll_items L l) @ drop (Suc i) (ll_items L l)) \<and>
     (\<forall>l e. distinct (ll_items L l) \<longrightarrow> ll_items L (ll_erase_node L l e) = remove1 e (ll_items L l))"

text \<open>A list of elements satisfies the laws; the witnesses use it.\<close>

definition llist_by_list :: "('e list, 'e) nn_llist" where
  "llist_by_list =
     \<lparr>ll_init = [], ll_items = (\<lambda>l. l), ll_append = (\<lambda>l e. l @ [e]),
      ll_insert_before = (\<lambda>l i e. take i l @ e # drop i l),
      ll_erase = (\<lambda>l i. take i l @ drop (Suc i) l), ll_erase_node = (\<lambda>l e. remove1 e l)\<rparr>"

lemma nn_llist_laws_by_list [simp]: "nn_llist_laws llist_by_list"
  by (simp add: nn_llist_laws_def llist_by_list_def)

named_theorems nn_laws \<open>the laws of the external containers as conditional rewrite rules\<close>

lemma ll_items_init [nn_laws]: "nn_llist_laws L \<Longrightarrow> ll_items L (ll_init L) = []"
  by (simp add: nn_llist_laws_def)

lemma ll_items_append [nn_laws]:
  "nn_llist_laws L \<Longrightarrow> ll_items L (ll_append L l e) = ll_items L l @ [e]"
  by (simp add: nn_llist_laws_def)

lemma ll_items_insert_before [nn_laws]:
  "nn_llist_laws L \<Longrightarrow> i < length (ll_items L l) \<Longrightarrow>
     ll_items L (ll_insert_before L l i e) = take i (ll_items L l) @ e # drop i (ll_items L l)"
  by (simp add: nn_llist_laws_def)

lemma ll_items_erase [nn_laws]:
  "nn_llist_laws L \<Longrightarrow> i < length (ll_items L l) \<Longrightarrow>
     ll_items L (ll_erase L l i) = take i (ll_items L l) @ drop (Suc i) (ll_items L l)"
  by (simp add: nn_llist_laws_def)

lemma ll_items_erase_node [nn_laws]:
  "nn_llist_laws L \<Longrightarrow> distinct (ll_items L l) \<Longrightarrow>
     ll_items L (ll_erase_node L l e) = remove1 e (ll_items L l)"
  by (simp add: nn_llist_laws_def)

section \<open>String sets, string maps and vectors\<close>

text \<open>
  The contents of these containers are lists in the order an iteration meets them; the operations
  on them are parameters. \<open>ss_insert\<close> and \<open>sm_insert\<close> return whether they succeeded, and
  \<open>vec_push_ok\<close> says whether a push on a vector of the given size succeeds (an allocation may
  fail); a successful push appends.
\<close>

record nn_lib =
  ss_contains :: "string list \<Rightarrow> string \<Rightarrow> bool"
  ss_insert :: "string list \<Rightarrow> string \<Rightarrow> bool \<times> string list"
  ss_erase :: "string list \<Rightarrow> string \<Rightarrow> string list"
  sm_get :: "(string \<times> string) list \<Rightarrow> string \<Rightarrow> string option"
  sm_getn :: "(string \<times> string) list \<Rightarrow> string \<Rightarrow> nat \<Rightarrow> string option"
  sm_insert :: "(string \<times> string) list \<Rightarrow> string \<Rightarrow> string \<Rightarrow> bool \<times> (string \<times> string) list"
  vec_push_ok :: "nat \<Rightarrow> bool"

definition nn_vector_push_back :: "('z nn_lib_scheme) \<Rightarrow> 'a list \<Rightarrow> 'a \<Rightarrow> bool \<times> 'a list" where
  "nn_vector_push_back nn xs x = (if vec_push_ok nn (length xs) then (True, xs @ [x]) else (False, xs))"

definition nn_string_set_laws :: "'z nn_lib_scheme \<Rightarrow> bool" where
  "nn_string_set_laws nn \<longleftrightarrow>
     (\<forall>s x. ss_contains nn s x \<longleftrightarrow> x \<in> set s) \<and>
     (\<forall>s x b s'. distinct s \<longrightarrow> ss_insert nn s x = (b, s') \<longrightarrow>
        distinct s' \<and> (if b then set s' = insert x (set s) else s' = s)) \<and>
     (\<forall>s x. distinct s \<longrightarrow> distinct (ss_erase nn s x) \<and> set (ss_erase nn s x) = set s - {x})"

definition nn_string_map_laws :: "'z nn_lib_scheme \<Rightarrow> bool" where
  "nn_string_map_laws nn \<longleftrightarrow>
     (\<forall>m k. distinct (map fst m) \<longrightarrow> sm_get nn m k = map_of m k) \<and>
     (\<forall>m k n. sm_getn nn m k n = sm_get nn m (take n k)) \<and>
     (\<forall>m k v b m'. distinct (map fst m) \<longrightarrow> sm_insert nn m k v = (b, m') \<longrightarrow>
        distinct (map fst m') \<and> (if b then map_of m' = (map_of m)(k \<mapsto> v) else m' = m))"

text \<open>No operation fails for lack of memory.\<close>

definition nn_memory_available :: "'z nn_lib_scheme \<Rightarrow> bool" where
  "nn_memory_available nn \<longleftrightarrow> (\<forall>s x. fst (ss_insert nn s x)) \<and> (\<forall>n. vec_push_ok nn n)"

text \<open>Lists implement the operations; the witnesses use these.\<close>

definition nn_by_lists :: nn_lib where
  "nn_by_lists =
     \<lparr>ss_contains = List.member,
      ss_insert = (\<lambda>s x. (True, if List.member s x then s else s @ [x])),
      ss_erase = (\<lambda>s x. remove1 x s),
      sm_get = map_of, sm_getn = (\<lambda>m k n. map_of m (take n k)),
      sm_insert = (\<lambda>m k v. (True, (k, v) # filter (\<lambda>p. fst p \<noteq> k) m)),
      vec_push_ok = (\<lambda>n. True)\<rparr>"

lemma nn_string_set_laws_by_lists [simp]: "nn_string_set_laws nn_by_lists"
  by (auto simp: nn_string_set_laws_def nn_by_lists_def split: if_splits)

lemma map_of_filter_neq: "map_of (filter (\<lambda>p. fst p \<noteq> k) m) x = (if x = k then None else map_of m x)"
  by (induction m) auto

lemma nn_string_map_laws_by_lists [simp]: "nn_string_map_laws nn_by_lists"
  by (auto simp: nn_string_map_laws_def nn_by_lists_def map_of_filter_neq distinct_map_filter)

lemma ss_contains_iff [nn_laws]: "nn_string_set_laws nn \<Longrightarrow> ss_contains nn s x \<longleftrightarrow> x \<in> set s"
  by (simp add: nn_string_set_laws_def)

lemma ss_insert_True:
  "nn_string_set_laws nn \<Longrightarrow> distinct s \<Longrightarrow> ss_insert nn s x = (True, s') \<Longrightarrow>
     distinct s' \<and> set s' = insert x (set s)"
  unfolding nn_string_set_laws_def by (metis (full_types))

lemma sm_get_eq [nn_laws]:
  "nn_string_map_laws nn \<Longrightarrow> distinct (map fst m) \<Longrightarrow> sm_get nn m k = map_of m k"
  by (simp add: nn_string_map_laws_def)

lemma sm_getn_eq [nn_laws]: "nn_string_map_laws nn \<Longrightarrow> sm_getn nn m k n = sm_get nn m (take n k)"
  by (simp add: nn_string_map_laws_def)

lemma sm_insert_True:
  "nn_string_map_laws nn \<Longrightarrow> distinct (map fst m) \<Longrightarrow> sm_insert nn m k v = (True, m') \<Longrightarrow>
     distinct (map fst m') \<and> map_of m' = (map_of m)(k \<mapsto> v)"
  unfolding nn_string_map_laws_def by (metis (full_types))

lemma push_available [simp]:
  "nn_memory_available nn \<Longrightarrow> nn_vector_push_back nn xs x = (True, xs @ [x])"
  by (simp add: nn_vector_push_back_def nn_memory_available_def)

lemma ss_insert_available:
  assumes "nn_memory_available nn" "nn_string_set_laws nn" "distinct s"
  obtains s' where "ss_insert nn s x = (True, s')" "distinct s'" "set s' = insert x (set s)"
proof -
  have "fst (ss_insert nn s x)" using assms(1) by (simp add: nn_memory_available_def)
  then have "ss_insert nn s x = (True, snd (ss_insert nn s x))" by (metis (full_types) prod.collapse)
  with ss_insert_True [OF assms(2,3)] that show thesis by blast
qed

lemma nn_memory_available_by_lists [simp]: "nn_memory_available nn_by_lists"
  by (simp add: nn_memory_available_def nn_by_lists_def)

end
