(* ===== verification/NmEventQueue.thy ===== *)
theory NmEventQueue
  imports NnLib NpPlatform
begin

text \<open>
  The event queue (\<^verbatim>\<open>modules/event_queue/nm_event_queue.c\<close>), the thread that executes it
  (\<^verbatim>\<open>thread_event_queue.c\<close>) and completion events (\<^verbatim>\<open>platform/np_completion_event.c\<close>). Events are
  addresses of a store, since a posted event is shared between the queue and its owner.
\<close>

section \<open>Definitions\<close>

record nm_event_queue_event =
  ev_cb :: nat
  ev_data :: nat
  expireTimestamp :: u32

record 'l nm_event_queue =
  events :: 'l
  timedEvents :: 'l
  store :: "nat \<Rightarrow> nm_event_queue_event"

definition nm_event_queue_init :: "('l, nat) nn_llist \<Rightarrow> 'l nm_event_queue \<Rightarrow> 'l nm_event_queue" where
  "nm_event_queue_init L q = q\<lparr>events := ll_init L, timedEvents := ll_init L\<rparr>"

text \<open>The event's node is initialised as not being in a list; the caller's event is not posted.\<close>

definition nm_event_queue_event_init :: "'l nm_event_queue \<Rightarrow> nat \<Rightarrow> nat \<Rightarrow> nat \<Rightarrow> 'l nm_event_queue" where
  "nm_event_queue_event_init q event cb d =
     q\<lparr>store := (store q)(event := (store q event)\<lparr>ev_cb := cb, ev_data := d\<rparr>)\<rparr>"

definition node_in_list :: "('l, nat) nn_llist \<Rightarrow> 'l nm_event_queue \<Rightarrow> nat \<Rightarrow> bool" where
  "node_in_list L q event =
     (List.member (ll_items L (events q)) event \<or> List.member (ll_items L (timedEvents q)) event)"

definition nm_event_queue_post_event :: "('l, nat) nn_llist \<Rightarrow> 'l nm_event_queue \<Rightarrow> nat \<Rightarrow> 'l nm_event_queue" where
  "nm_event_queue_post_event L q event =
     (if node_in_list L q event then q else q\<lparr>events := ll_append L (events q) event\<rparr>)"

definition nm_event_queue_post_event_maybe_double ::
    "('l, nat) nn_llist \<Rightarrow> 'l nm_event_queue \<Rightarrow> nat \<Rightarrow> 'l nm_event_queue" where
  "nm_event_queue_post_event_maybe_double L q event =
     (if node_in_list L q event then q else q\<lparr>events := ll_append L (events q) event\<rparr>)"

definition nm_event_queue_cancel_event :: "('l, nat) nn_llist \<Rightarrow> 'l nm_event_queue \<Rightarrow> nat \<Rightarrow> 'l nm_event_queue" where
  "nm_event_queue_cancel_event L q event =
     (if node_in_list L q event
      then q\<lparr>events := ll_erase_node L (events q) event,
             timedEvents := ll_erase_node L (timedEvents q) event\<rparr>
      else q)"

definition nm_event_queue_event_deinit :: "('l, nat) nn_llist \<Rightarrow> 'l nm_event_queue \<Rightarrow> nat \<Rightarrow> 'l nm_event_queue" where
  "nm_event_queue_event_deinit L q event = nm_event_queue_cancel_event L q event"

text \<open>The position of the first timed event that is not earlier than \<open>timestamp\<close>.\<close>

fun timed_pos :: "(nat \<Rightarrow> u32) \<Rightarrow> u32 \<Rightarrow> nat list \<Rightarrow> nat option outcome" where
  "timed_pos expire timestamp [] = Inr None"
| "timed_pos expire timestamp (e # es) =
     obind (np_timestamp_less_or_equal timestamp (expire e)) (\<lambda>le.
       if le then Inr (Some 0)
       else obind (timed_pos expire timestamp es) (\<lambda>p. Inr (map_option Suc p)))"

definition nm_event_queue_post_timed_event ::
    "('l, nat) nn_llist \<Rightarrow> 'l nm_event_queue \<Rightarrow> nat \<Rightarrow> u32 \<Rightarrow> 'l nm_event_queue outcome" where
  "nm_event_queue_post_timed_event L q event timestamp =
     (let q1 = q\<lparr>store := (store q)(event := (store q event)\<lparr>expireTimestamp := timestamp\<rparr>)\<rparr>;
          q2 = (if node_in_list L q1 event
                then q1\<lparr>events := ll_erase_node L (events q1) event,
                        timedEvents := ll_erase_node L (timedEvents q1) event\<rparr>
                else q1) in
      obind (timed_pos (\<lambda>e. expireTimestamp (store q2 e)) timestamp (ll_items L (timedEvents q2)))
        (\<lambda>pos. case pos of
            Some i \<Rightarrow> Inr (q2\<lparr>timedEvents := ll_insert_before L (timedEvents q2) i event\<rparr>)
          | None \<Rightarrow> Inr (q2\<lparr>timedEvents := ll_append L (timedEvents q2) event\<rparr>)))"

definition nm_event_queue_take_event ::
    "('l, nat) nn_llist \<Rightarrow> 'l nm_event_queue \<Rightarrow> nat option \<times> 'l nm_event_queue" where
  "nm_event_queue_take_event L q =
     (case ll_items L (events q) of
        [] \<Rightarrow> (None, q)
      | event # _ \<Rightarrow> (Some event, q\<lparr>events := ll_erase L (events q) 0\<rparr>))"

definition nm_event_queue_take_timed_event ::
    "('l, nat) nn_llist \<Rightarrow> 'l nm_event_queue \<Rightarrow> u32 \<Rightarrow> (nat option \<times> 'l nm_event_queue) outcome" where
  "nm_event_queue_take_timed_event L q now =
     (case ll_items L (timedEvents q) of
        [] \<Rightarrow> Inr (None, q)
      | ev # _ \<Rightarrow>
          obind (np_timestamp_less_or_equal (expireTimestamp (store q ev)) now) (\<lambda>le.
            if le then Inr (Some ev, q\<lparr>timedEvents := ll_erase L (timedEvents q) 0\<rparr>)
            else Inr (None, q)))"

definition nm_event_queue_next_timed_event :: "('l, nat) nn_llist \<Rightarrow> 'l nm_event_queue \<Rightarrow> u32 option" where
  "nm_event_queue_next_timed_event L q =
     (case ll_items L (timedEvents q) of [] \<Rightarrow> None | event # _ \<Rightarrow> Some (expireTimestamp (store q event)))"

subsection \<open>The queue thread\<close>

record 'l thread_event_queue =
  eventQueue :: "'l nm_event_queue"
  stopped :: bool
  signals :: nat

definition thread_event_queue_init :: "('l, nat) nn_llist \<Rightarrow> 'l thread_event_queue \<Rightarrow> 'l thread_event_queue" where
  "thread_event_queue_init L t =
     t\<lparr>eventQueue := nm_event_queue_init L (eventQueue t), stopped := False\<rparr>"

text \<open>\<open>signals\<close> counts the signals of the condition the thread waits for.\<close>

definition cond_signal :: "'l thread_event_queue \<Rightarrow> 'l thread_event_queue" where
  "cond_signal t = t\<lparr>signals := signals t + 1\<rparr>"

definition thread_event_queue_stop_blocking :: "'l thread_event_queue \<Rightarrow> 'l thread_event_queue" where
  "thread_event_queue_stop_blocking t = cond_signal (t\<lparr>stopped := True\<rparr>)"

definition create_event ::
    "'l thread_event_queue \<Rightarrow> nat option \<Rightarrow> nat \<Rightarrow> nat \<Rightarrow> np_error_code \<times> 'l thread_event_queue" where
  "create_event t ev cb cbData =
     (case ev of
        None \<Rightarrow> (NABTO_EC_OUT_OF_MEMORY, t)
      | Some e \<Rightarrow> (NABTO_EC_OK,
           t\<lparr>eventQueue := nm_event_queue_event_init (eventQueue t) e cb cbData\<rparr>))"

definition destroy_event :: "('l, nat) nn_llist \<Rightarrow> 'l thread_event_queue \<Rightarrow> nat \<Rightarrow> 'l thread_event_queue" where
  "destroy_event L t event = t\<lparr>eventQueue := nm_event_queue_event_deinit L (eventQueue t) event\<rparr>"

definition post_event :: "('l, nat) nn_llist \<Rightarrow> 'l thread_event_queue \<Rightarrow> nat \<Rightarrow> 'l thread_event_queue" where
  "post_event L t event =
     cond_signal (t\<lparr>eventQueue := nm_event_queue_post_event L (eventQueue t) event\<rparr>)"

definition post_event_maybe_double :: "('l, nat) nn_llist \<Rightarrow> 'l thread_event_queue \<Rightarrow> nat \<Rightarrow> 'l thread_event_queue" where
  "post_event_maybe_double L t event =
     cond_signal (t\<lparr>eventQueue := nm_event_queue_post_event_maybe_double L (eventQueue t) event\<rparr>)"

definition cancel_event :: "('l, nat) nn_llist \<Rightarrow> 'l thread_event_queue \<Rightarrow> nat \<Rightarrow> 'l thread_event_queue" where
  "cancel_event L t event = t\<lparr>eventQueue := nm_event_queue_cancel_event L (eventQueue t) event\<rparr>"

definition post_timed_event ::
    "('l, nat) nn_llist \<Rightarrow> u32 \<Rightarrow> 'l thread_event_queue \<Rightarrow> nat \<Rightarrow> u32 \<Rightarrow> 'l thread_event_queue outcome" where
  "post_timed_event L now t event milliseconds =
     (let timestamp = now + milliseconds in
      obind (nm_event_queue_post_timed_event L (eventQueue t) event timestamp) (\<lambda>q.
        Inr (cond_signal (t\<lparr>eventQueue := q\<rparr>))))"

text \<open>One iteration of the loop of \<open>queue_thread\<close>: what the thread does, and the queue it leaves.\<close>

datatype queue_thread_action =
    Execute nat  \<comment> \<open>call the callback of the event under the core mutex\<close>
  | TimedWait int
  | Return
  | Wait

definition queue_thread ::
    "('l, nat) nn_llist \<Rightarrow> 'l thread_event_queue \<Rightarrow> u32 \<Rightarrow> (queue_thread_action \<times> 'l thread_event_queue) outcome" where
  "queue_thread L t now =
     (case nm_event_queue_take_event L (eventQueue t) of
        (Some event, q) \<Rightarrow> Inr (Execute event, t\<lparr>eventQueue := q\<rparr>)
      | (None, q) \<Rightarrow>
          obind (nm_event_queue_take_timed_event L q now) (\<lambda>(ev, q').
            case ev of
              Some event \<Rightarrow> Inr (Execute event, t\<lparr>eventQueue := q'\<rparr>)
            | None \<Rightarrow>
                (case nm_event_queue_next_timed_event L q' of
                   Some nextEvent \<Rightarrow>
                     obind (np_timestamp_difference nextEvent now) (\<lambda>diff. Inr (TimedWait diff, t))
                 | None \<Rightarrow> if stopped t then Inr (Return, t) else Inr (Wait, t))))"

subsection \<open>Completion events\<close>

record np_completion_event =
  ce_cb :: nat
  ce_userData :: nat
  ce_ec :: np_error_code
  ce_event :: nat

definition np_completion_event_init ::
    "nat option \<Rightarrow> nat \<Rightarrow> nat \<Rightarrow> nat \<Rightarrow> nat \<Rightarrow> 'l thread_event_queue
       \<Rightarrow> np_error_code \<times> np_completion_event \<times> 'l thread_event_queue" where
  "np_completion_event_init ev self resolve_cb cb userData t =
     (let ce = \<lparr>ce_cb = cb, ce_userData = userData, ce_ec = NABTO_EC_OK, ce_event = 0\<rparr> in
      case create_event t ev resolve_cb self of
        (ec, t') \<Rightarrow> (ec, (case ev of None \<Rightarrow> ce | Some e \<Rightarrow> ce\<lparr>ce_event := e\<rparr>), t'))"

definition np_completion_event_deinit ::
    "('l, nat) nn_llist \<Rightarrow> np_completion_event \<Rightarrow> 'l thread_event_queue \<Rightarrow> 'l thread_event_queue" where
  "np_completion_event_deinit L ce t = destroy_event L t (ce_event ce)"

definition np_completion_event_reinit :: "np_completion_event \<Rightarrow> nat \<Rightarrow> nat \<Rightarrow> np_completion_event" where
  "np_completion_event_reinit ce cb userData = ce\<lparr>ce_cb := cb, ce_userData := userData\<rparr>"

definition np_completion_event_resolve ::
    "('l, nat) nn_llist \<Rightarrow> np_completion_event \<Rightarrow> np_error_code \<Rightarrow> 'l thread_event_queue
       \<Rightarrow> np_completion_event \<times> 'l thread_event_queue" where
  "np_completion_event_resolve L ce ec t = (ce\<lparr>ce_ec := ec\<rparr>, post_event L t (ce_event ce))"

text \<open>The callback call that executing the event makes: callback, error code and user data.\<close>

definition resolve_event_callback :: "np_completion_event \<Rightarrow> nat \<times> np_error_code \<times> nat" where
  "resolve_event_callback ce = (ce_cb ce, ce_ec ce, ce_userData ce)"

section \<open>Specification\<close>

definition eq_inv :: "('l, nat) nn_llist \<Rightarrow> 'l nm_event_queue \<Rightarrow> bool" where
  "eq_inv L q = distinct (ll_items L (events q) @ ll_items L (timedEvents q))"

definition same_window :: "u32 list \<Rightarrow> bool" where
  "same_window ts = (\<forall>a\<in>set ts. \<forall>b\<in>set ts. sint a - sint b < 2 ^ 31)"

definition timed_sorted :: "('l, nat) nn_llist \<Rightarrow> 'l nm_event_queue \<Rightarrow> bool" where
  "timed_sorted L q =
     sorted (map (\<lambda>e. sint (expireTimestamp (store q e))) (ll_items L (timedEvents q)))"

datatype eq_cmd = Post nat | PostTimed nat u32 | Cancel nat

fun run_cmds :: "('s \<Rightarrow> nat \<Rightarrow> 's) \<Rightarrow> ('s \<Rightarrow> nat \<Rightarrow> 's) \<Rightarrow> ('s \<Rightarrow> nat \<Rightarrow> u32 \<Rightarrow> 's outcome)
    \<Rightarrow> eq_cmd list \<Rightarrow> 's \<Rightarrow> 's outcome" where
  "run_cmds post cancel timed [] s = Inr s"
| "run_cmds post cancel timed (Post e # cs) s = run_cmds post cancel timed cs (post s e)"
| "run_cmds post cancel timed (Cancel e # cs) s = run_cmds post cancel timed cs (cancel s e)"
| "run_cmds post cancel timed (PostTimed e t # cs) s =
     obind (timed s e t) (run_cmds post cancel timed cs)"

fun pending_after :: "nat \<Rightarrow> eq_cmd list \<Rightarrow> bool \<Rightarrow> bool" where
  "pending_after e [] b = b"
| "pending_after e (Post x # cs) b = pending_after e cs (b \<or> x = e)"
| "pending_after e (Cancel x # cs) b = pending_after e cs (b \<and> x \<noteq> e)"
| "pending_after e (PostTimed x t # cs) b = pending_after e cs (b \<or> x = e)"

fun insort_timed :: "(nat \<Rightarrow> u32) \<Rightarrow> u32 \<Rightarrow> nat \<Rightarrow> nat list \<Rightarrow> nat list outcome" where
  "insort_timed ex t e [] = Inr [e]"
| "insort_timed ex t e (x # xs) =
     obind (np_timestamp_less_or_equal t (ex x)) (\<lambda>le.
       if le then Inr (e # x # xs) else obind (insort_timed ex t e xs) (\<lambda>ys. Inr (x # ys)))"

abbreviation expire :: "'l nm_event_queue \<Rightarrow> nat \<Rightarrow> u32" where
  "expire q e \<equiv> expireTimestamp (store q e)"

definition eq_ok :: "('l, nat) nn_llist \<Rightarrow> 'l nm_event_queue \<Rightarrow> bool" where
  "eq_ok L q = (nn_llist_laws L \<and> eq_inv L q)"

definition demo_queue :: "nat list nm_event_queue" where
  "demo_queue = \<lparr>events = [], timedEvents = [], store = (\<lambda>_. \<lparr>ev_cb = 0, ev_data = 0, expireTimestamp = 0\<rparr>)\<rparr>"

fun thread_run :: "('l, nat) nn_llist \<Rightarrow> u32 list \<Rightarrow> 'l thread_event_queue
    \<Rightarrow> (queue_thread_action list \<times> 'l thread_event_queue) outcome" where
  "thread_run L [] t = Inr ([], t)"
| "thread_run L (now # nows) t =
     obind (queue_thread L t now) (\<lambda>(a, t').
       obind (thread_run L nows t') (\<lambda>(as, t''). Inr (a # as, t'')))"

section \<open>The invariant, and the operations on the two sequences\<close>

locale event_queue_contract =
  fixes ok :: "'p \<Rightarrow> 's \<Rightarrow> bool"
    and pending :: "'p \<Rightarrow> 's \<Rightarrow> nat \<Rightarrow> bool"
    and post :: "'p \<Rightarrow> 's \<Rightarrow> nat \<Rightarrow> 's"
    and cancel :: "'p \<Rightarrow> 's \<Rightarrow> nat \<Rightarrow> 's"
    and timed :: "'p \<Rightarrow> 's \<Rightarrow> nat \<Rightarrow> u32 \<Rightarrow> 's outcome"
  assumes post_ok: "ok p s \<Longrightarrow> ok p (post p s e)"
    and cancel_ok: "ok p s \<Longrightarrow> ok p (cancel p s e)"
    and timed_ok: "ok p s \<Longrightarrow> timed p s e t = Inr s' \<Longrightarrow> ok p s'"
    and post_pending: "ok p s \<Longrightarrow> pending p (post p s e) x \<longleftrightarrow> pending p s x \<or> e = x"
    and cancel_pending: "ok p s \<Longrightarrow> pending p (cancel p s e) x \<longleftrightarrow> pending p s x \<and> e \<noteq> x"
    and timed_pending: "ok p s \<Longrightarrow> timed p s e t = Inr s' \<Longrightarrow> pending p s' x \<longleftrightarrow> pending p s x \<or> e = x"

begin

lemma run_pending:
  "ok p s \<Longrightarrow> run_cmds (post p) (cancel p) (timed p) cs s = Inr s' \<Longrightarrow>
     ok p s' \<and> (pending p s' x \<longleftrightarrow> pending_after x cs (pending p s x))"
proof (induction cs arbitrary: s)
  case (Cons c cs)
  show ?case
  proof (cases c)
    case (Post e)
    then show ?thesis using Cons.IH [of "post p s e"] Cons.prems by (simp add: post_ok post_pending)
  next
    case (Cancel e)
    then show ?thesis using Cons.IH [of "cancel p s e"] Cons.prems by (simp add: cancel_ok cancel_pending)
  next
    case (PostTimed e t)
    then obtain s1 where s1: "timed p s e t = Inr s1"
      and run: "run_cmds (post p) (cancel p) (timed p) cs s1 = Inr s'"
      using Cons.prems(2) by (auto simp: obind_eq_Inr_iff)
    show ?thesis
      using Cons.IH [OF timed_ok [OF Cons.prems(1) s1] run] timed_pending [OF Cons.prems(1) s1] PostTimed
      by simp
  qed
qed simp

end

lemma node_in_list_iff:
  "node_in_list L q e \<longleftrightarrow> e \<in> set (ll_items L (events q)) \<or> e \<in> set (ll_items L (timedEvents q))"
  by (simp add: node_in_list_def)

lemma post_items:
  "nn_llist_laws L \<Longrightarrow> ll_items L (events (nm_event_queue_post_event L q e)) =
     (if node_in_list L q e then ll_items L (events q) else ll_items L (events q) @ [e])"
  "ll_items L (timedEvents (nm_event_queue_post_event L q e)) = ll_items L (timedEvents q)"
  by (simp_all add: nm_event_queue_post_event_def nn_laws)

lemma cancel_items:
  assumes "nn_llist_laws L" "eq_inv L q"
  shows "ll_items L (events (nm_event_queue_cancel_event L q e)) = remove1 e (ll_items L (events q))"
    "ll_items L (timedEvents (nm_event_queue_cancel_event L q e)) = remove1 e (ll_items L (timedEvents q))"
  using assms by (auto simp: nm_event_queue_cancel_event_def nn_laws eq_inv_def node_in_list_iff remove1_idem)

lemma timed_pos_bound: "timed_pos f t es = Inr (Some i) \<Longrightarrow> i < length es"
  by (induction es arbitrary: i) (auto simp: obind_eq_Inr_iff split: if_splits)

lemma cancel_eq:
  "nm_event_queue_post_timed_event L q e t =
     (let q2 = (nm_event_queue_cancel_event L q e)\<lparr>store := (store q)(e := (store q e)\<lparr>expireTimestamp := t\<rparr>)\<rparr> in
      obind (timed_pos (\<lambda>x. expireTimestamp (store q2 x)) t (ll_items L (timedEvents q2)))
        (\<lambda>pos. case pos of
            Some i \<Rightarrow> Inr (q2\<lparr>timedEvents := ll_insert_before L (timedEvents q2) i e\<rparr>)
          | None \<Rightarrow> Inr (q2\<lparr>timedEvents := ll_append L (timedEvents q2) e\<rparr>)))"
  by (cases q) (simp add: nm_event_queue_post_timed_event_def nm_event_queue_cancel_event_def node_in_list_def Let_def)

lemma insort_timed_pos:
  "insort_timed ex t e es =
     obind (timed_pos ex t es) (\<lambda>pos.
       Inr (case pos of None \<Rightarrow> es @ [e] | Some i \<Rightarrow> take i es @ e # drop i es))"
  by (induction es) (auto simp: obind_def split: sum.splits option.splits)

lemma post_timed_refines:
  assumes laws: "nn_llist_laws L" and inv: "eq_inv L q"
  shows "map_sum id (\<lambda>q'. (ll_items L (events q'), ll_items L (timedEvents q'), store q'))
           (nm_event_queue_post_timed_event L q e t)
       = (let st = (store q)(e := (store q e)\<lparr>expireTimestamp := t\<rparr>) in
          obind (insort_timed (\<lambda>x. expireTimestamp (st x)) t e (remove1 e (ll_items L (timedEvents q))))
            (\<lambda>ts. Inr (remove1 e (ll_items L (events q)), ts, st)))"
proof -
  let ?q = "nm_event_queue_cancel_event L q e"
  let ?st = "(store q)(e := (store q e)\<lparr>expireTimestamp := t\<rparr>)"
  show ?thesis
    unfolding cancel_eq insort_timed_pos Let_def
    using timed_pos_bound [of "\<lambda>x. expireTimestamp (?st x)" t "ll_items L (timedEvents ?q)"]
    by (simp add: obind_def cancel_items [OF laws inv, of e] nn_laws laws split: sum.splits option.splits)
qed

lemma post_timed_cases:
  assumes "nn_llist_laws L" "eq_inv L q" "nm_event_queue_post_timed_event L q e t = Inr q'"
  shows "ll_items L (events q') = remove1 e (ll_items L (events q))"
    "insort_timed (expire q') t e (remove1 e (ll_items L (timedEvents q))) = Inr (ll_items L (timedEvents q'))"
    "store q' = (store q)(e := (store q e)\<lparr>expireTimestamp := t\<rparr>)"
  using post_timed_refines [OF assms(1,2), of e t] assms(3)
  by (simp_all add: Let_def obind_def split: sum.splits)

lemma insort_timed_set:
  "insort_timed ex t e xs = Inr ys \<Longrightarrow> set ys = insert e (set xs) \<and> (distinct ys \<longleftrightarrow> distinct (e # xs))"
  by (induction xs arbitrary: ys) (auto simp: obind_eq_Inr_iff split: if_splits)

lemma le_window:
  "same_window ts \<Longrightarrow> a \<in> set ts \<Longrightarrow> b \<in> set ts \<Longrightarrow> np_timestamp_less_or_equal a b = Inr (sint a \<le> sint b)"
proof -
  assume "same_window ts" "a \<in> set ts" "b \<in> set ts"
  then have "sint a - sint b < 2 ^ 31" "sint b - sint a < 2 ^ 31" by (auto simp: same_window_def)
  then show ?thesis by (simp add: np_timestamp_less_or_equal_def int32_sub_def)
qed

lemma insort_timed_sorted:
  "same_window (t # map ex xs) \<Longrightarrow> sorted (map (\<lambda>x. sint (ex x)) xs) \<Longrightarrow> ex e = t \<Longrightarrow>
     \<exists>ys. insort_timed ex t e xs = Inr ys \<and> sorted (map (\<lambda>x. sint (ex x)) ys)"
proof (induction xs)
  case (Cons x xs)
  have le: "np_timestamp_less_or_equal t (ex x) = Inr (sint t \<le> sint (ex x))"
    using Cons.prems(1) by (intro le_window) auto
  have "same_window (t # map ex xs)" using Cons.prems(1) by (auto simp: same_window_def)
  then obtain ys where ys: "insort_timed ex t e xs = Inr ys" "sorted (map (\<lambda>x. sint (ex x)) ys)"
    using Cons.IH Cons.prems(2,3) by auto
  show ?case
  proof (cases "sint t \<le> sint (ex x)")
    case True
    then show ?thesis using Cons.prems(2,3) le by (auto intro: order_trans)
  next
    case False
    then show ?thesis using insort_timed_set [OF ys(1)] Cons.prems(2,3) ys le by auto
  qed
qed simp

lemma post_event_ok: "eq_ok L q \<Longrightarrow> eq_ok L (nm_event_queue_post_event L q e)"
  by (auto simp: eq_ok_def eq_inv_def post_items node_in_list_iff)

lemma post_event_pending:
  "eq_ok L q \<Longrightarrow> node_in_list L (nm_event_queue_post_event L q e) x \<longleftrightarrow> node_in_list L q x \<or> e = x"
  by (auto simp: eq_ok_def node_in_list_iff post_items)

lemma cancel_event_ok: "eq_ok L q \<Longrightarrow> eq_ok L (nm_event_queue_cancel_event L q e)"
  by (auto simp: eq_ok_def eq_inv_def [of L "nm_event_queue_cancel_event L q e"] cancel_items)
   (auto simp: eq_inv_def)

lemma cancel_event_pending:
  "eq_ok L q \<Longrightarrow> node_in_list L (nm_event_queue_cancel_event L q e) x \<longleftrightarrow> node_in_list L q x \<and> e \<noteq> x"
  by (auto simp: eq_ok_def node_in_list_iff cancel_items eq_inv_def)

lemma post_timed_event_ok:
  "eq_ok L q \<Longrightarrow> nm_event_queue_post_timed_event L q e t = Inr q' \<Longrightarrow> eq_ok L q'"
  using post_timed_cases [of L q e t q'] insort_timed_set [of _ t e]
  by (auto simp: eq_ok_def eq_inv_def)

lemma post_timed_event_pending:
  "eq_ok L q \<Longrightarrow> nm_event_queue_post_timed_event L q e t = Inr q' \<Longrightarrow>
     node_in_list L q' x \<longleftrightarrow> node_in_list L q x \<or> e = x"
  using post_timed_cases [of L q e t q'] insort_timed_set [of _ t e]
  by (auto simp: eq_ok_def eq_inv_def node_in_list_iff)

interpretation nmq: event_queue_contract eq_ok node_in_list nm_event_queue_post_event
  nm_event_queue_cancel_event nm_event_queue_post_timed_event
  by unfold_locales
    (auto simp: post_event_ok post_event_pending cancel_event_ok cancel_event_pending
      intro: post_timed_event_ok dest: post_timed_event_pending)

text \<open>
  C39. Over any sequence of posts, timed posts and cancellations, an event is in the queue exactly
  when the sequence (and the state it started from) says so: double posts do not add a second copy,
  and a cancelled event is gone. The structural invariant is kept.
\<close>

theorem nm_event_queue_run:
  assumes "eq_ok L q"
    and "run_cmds (nm_event_queue_post_event L) (nm_event_queue_cancel_event L)
           (nm_event_queue_post_timed_event L) cs q = Inr q'"
  shows "eq_ok L q' \<and> (node_in_list L q' x \<longleftrightarrow> pending_after x cs (node_in_list L q x))"
  using assms by (rule nmq.run_pending)

lemma demo_queue_ok [simp]: "eq_ok llist_by_list demo_queue"
  by (simp add: eq_ok_def eq_inv_def demo_queue_def llist_by_list_def nn_llist_laws_by_list [unfolded llist_by_list_def])

lemmas demo_eval = demo_queue_def llist_by_list_def nm_event_queue_post_event_def node_in_list_def
  nm_event_queue_cancel_event_def nm_event_queue_post_timed_event_def np_timestamp_less_or_equal_def int32_sub_def Let_def

theorem nm_event_queue_run_witness:
  "\<exists>q'. run_cmds (nm_event_queue_post_event llist_by_list) (nm_event_queue_cancel_event llist_by_list)
       (nm_event_queue_post_timed_event llist_by_list) [Post 1, PostTimed 2 50, PostTimed 1 20, Cancel 2] demo_queue = Inr q'
     \<and> node_in_list llist_by_list q' 1 \<and> \<not> node_in_list llist_by_list q' 2"
proof -
  obtain q' where q': "run_cmds (nm_event_queue_post_event llist_by_list) (nm_event_queue_cancel_event llist_by_list)
       (nm_event_queue_post_timed_event llist_by_list) [Post 1, PostTimed 2 50, PostTimed 1 20, Cancel 2] demo_queue = Inr q'"
    by (simp add: demo_eval)
  from nm_event_queue_run [OF demo_queue_ok q', of 1] nm_event_queue_run [OF demo_queue_ok q', of 2] q'
  show ?thesis by simp
qed

text \<open>
  With all expiry times in one half of the clock's range, posting a timed event succeeds and
  keeps the timed queue sorted by expiry, whether the event was pending before or not.
\<close>

lemma nm_event_queue_post_timed_sorted:
  assumes "eq_ok L q" "timed_sorted L q"
    "same_window (t # map (expire q) (ll_items L (timedEvents q)))"
  shows "\<exists>q'. nm_event_queue_post_timed_event L q e t = Inr q' \<and> eq_ok L q' \<and> timed_sorted L q'
     \<and> set (ll_items L (timedEvents q')) = insert e (set (ll_items L (timedEvents q)))
     \<and> expire q' e = t"
proof -
  let ?ex = "\<lambda>x. expireTimestamp (((store q)(e := (store q e)\<lparr>expireTimestamp := t\<rparr>)) x)"
  let ?es = "remove1 e (ll_items L (timedEvents q))"
  have laws: "nn_llist_laws L" "eq_inv L q" using assms(1) by (auto simp: eq_ok_def)
  then have d: "distinct (ll_items L (timedEvents q))" by (simp add: eq_inv_def)
  have ex: "map (\<lambda>x. sint (?ex x)) ?es = map (\<lambda>x. sint (expire q x)) ?es" "map ?ex ?es = map (expire q) ?es"
    using d by auto
  have "sorted (map (\<lambda>x. sint (?ex x)) ?es)"
    unfolding ex using assms(2) by (simp add: timed_sorted_def sorted_map_remove1)
  moreover have "same_window (t # map ?ex ?es)"
    unfolding ex using assms(3) set_remove1_subset [of e "ll_items L (timedEvents q)"]
    by (auto simp: same_window_def)
  ultimately obtain ys where ys: "insort_timed ?ex t e ?es = Inr ys" "sorted (map (\<lambda>x. sint (?ex x)) ys)"
    using insort_timed_sorted [of t ?ex ?es e] by auto
  then obtain q' where q': "nm_event_queue_post_timed_event L q e t = Inr q'"
      "ll_items L (timedEvents q') = ys" "store q' = (store q)(e := (store q e)\<lparr>expireTimestamp := t\<rparr>)"
    using post_timed_refines [OF laws, of e t]
    by (cases "nm_event_queue_post_timed_event L q e t") (auto simp: Let_def)
  show ?thesis
    using q' ys d insort_timed_set [OF ys(1)] post_timed_event_ok [OF assms(1) q'(1)]
    by (auto simp: timed_sorted_def)
qed

text \<open>
  Taking a timed event gives the earliest of them if that one has expired, removed from the
  queue, and nothing when none has expired.
\<close>

lemma nm_event_queue_take_timed_earliest:
  assumes "eq_ok L q" "timed_sorted L q"
    "same_window (now # map (expire q) (ll_items L (timedEvents q)))"
  shows "\<exists>ev q'. nm_event_queue_take_timed_event L q now = Inr (ev, q') \<and> eq_ok L q' \<and> timed_sorted L q' \<and>
     (case ev of
        None \<Rightarrow> q' = q \<and> (\<forall>x\<in>set (ll_items L (timedEvents q)). sint now < sint (expire q x))
      | Some e \<Rightarrow> ll_items L (timedEvents q) = e # ll_items L (timedEvents q') \<and> events q' = events q \<and>
          sint (expire q e) \<le> sint now \<and>
          (\<forall>x\<in>set (ll_items L (timedEvents q)). sint (expire q e) \<le> sint (expire q x)))"
proof (cases "ll_items L (timedEvents q)")
  case Nil
  then show ?thesis using assms by (auto simp: nm_event_queue_take_timed_event_def)
next
  case (Cons e es)
  have laws: "nn_llist_laws L" "eq_inv L q" using assms(1) by (auto simp: eq_ok_def)
  have le: "np_timestamp_less_or_equal (expire q e) now = Inr (sint (expire q e) \<le> sint now)"
    using assms(3) by (rule le_window) (simp_all add: Cons)
  have srt: "\<forall>x\<in>set es. sint (expire q e) \<le> sint (expire q x)"
    using assms(2) by (simp add: timed_sorted_def Cons)
  have items: "ll_items L (ll_erase L (timedEvents q) 0) = es"
    using laws by (simp add: nn_laws Cons)
  show ?thesis
  proof (cases "sint (expire q e) \<le> sint now")
    case True
    then show ?thesis
      using assms(2) laws le srt
      by (simp add: nm_event_queue_take_timed_event_def Cons items eq_ok_def eq_inv_def timed_sorted_def)
  next
    case False
    then show ?thesis
      using assms laws le srt
      by (auto simp: nm_event_queue_take_timed_event_def Cons)
  qed
qed

lemma thread_run_fifo:
  "nn_llist_laws L \<Longrightarrow> ll_items L (events (eventQueue t)) = es \<Longrightarrow> length nows = length es \<Longrightarrow>
    \<exists>t'. thread_run L nows t = Inr (map Execute es, t') \<and> ll_items L (events (eventQueue t')) = []
      \<and> timedEvents (eventQueue t') = timedEvents (eventQueue t) \<and> stopped t' = stopped t"
proof (induction es arbitrary: t nows)
  case (Cons e es)
  obtain now nows' where nows: "nows = now # nows'" using Cons.prems(3) by (cases nows) auto
  let ?t = "t\<lparr>eventQueue := (eventQueue t)\<lparr>events := ll_erase L (events (eventQueue t)) 0\<rparr>\<rparr>"
  have "queue_thread L t now = Inr (Execute e, ?t)"
    using Cons.prems(2) by (simp add: queue_thread_def nm_event_queue_take_event_def)
  moreover have "ll_items L (events (eventQueue ?t)) = es"
    using Cons.prems(1,2) by (simp add: nn_laws)
  ultimately show ?case
    using Cons.IH [OF Cons.prems(1), of ?t nows'] Cons.prems(3) nows by auto
qed auto

text \<open>
  The queue thread executes the posted events in the order they were posted and before any timed
  event; it returns only when it is stopped and no event of either kind is left.
\<close>

lemma queue_thread_fifo:
  assumes "nn_llist_laws L" "length nows = length (ll_items L (events (eventQueue t)))"
  shows "\<exists>t'. thread_run L nows t = Inr (map Execute (ll_items L (events (eventQueue t))), t')
     \<and> ll_items L (events (eventQueue t')) = []
     \<and> timedEvents (eventQueue t') = timedEvents (eventQueue t)
     \<and> (\<forall>now. (\<exists>t''. queue_thread L t' now = Inr (Return, t''))
               \<longleftrightarrow> stopped t \<and> ll_items L (timedEvents (eventQueue t)) = [])"
proof -
  obtain t' where t': "thread_run L nows t = Inr (map Execute (ll_items L (events (eventQueue t))), t')"
      "ll_items L (events (eventQueue t')) = []" "timedEvents (eventQueue t') = timedEvents (eventQueue t)"
      "stopped t' = stopped t"
    using thread_run_fifo [OF assms(1) refl assms(2)] by blast
  moreover have "(\<exists>t''. queue_thread L t' now = Inr (Return, t''))
      \<longleftrightarrow> stopped t \<and> ll_items L (timedEvents (eventQueue t)) = []" for now
    using t'(2,3,4)
    by (auto simp: queue_thread_def nm_event_queue_take_event_def nm_event_queue_take_timed_event_def
        nm_event_queue_next_timed_event_def obind_eq_Inr_iff split: list.splits option.splits if_splits prod.splits)
  ultimately show ?thesis by blast
qed

end
