(* ===== verification/NcKeepAlive.thy ===== *)
theory NcKeepAlive
  imports NcPacket NpPlatform
begin

text \<open>
  The keep alive logic shared by the attacher and the client connections
  (\<^verbatim>\<open>src/core/nc_keep_alive.c\<close>). Calls to the event queue are outputs of the operations.
\<close>

section \<open>Definitions\<close>

definition AT_KEEP_ALIVE :: u8 where "AT_KEEP_ALIVE = 0x04"
definition AT_STREAM :: u8 where "AT_STREAM = 0x05"
definition AT_COAP_START :: u8 where "AT_COAP_START = 0x40"
definition AT_COAP_END :: u8 where "AT_COAP_END = 0x7f"
definition CT_KEEP_ALIVE_REQUEST :: u8 where "CT_KEEP_ALIVE_REQUEST = 0x03"
definition CT_KEEP_ALIVE_RESPONSE :: u8 where "CT_KEEP_ALIVE_RESPONSE = 0x04"

definition NC_KEEP_ALIVE_DEFAULT_INTERVAL :: u32 where "NC_KEEP_ALIVE_DEFAULT_INTERVAL = 30000"
definition NC_KEEP_ALIVE_DEFAULT_RETRY_INTERVAL :: u32 where "NC_KEEP_ALIVE_DEFAULT_RETRY_INTERVAL = 2000"
definition NC_KEEP_ALIVE_DEFAULT_MAX_RETRIES :: u32 where "NC_KEEP_ALIVE_DEFAULT_MAX_RETRIES = 15"

record nc_keep_alive_context =
  kaInterval :: u32
  kaRetryInterval :: u32
  kaMaxRetries :: u32
  lastRecvCount :: u32
  lastSentCount :: u32
  lostKeepAlives :: u32
  ka_n :: u32
  isSending :: bool
  sendBuffer :: "u8 list"

definition ka_zero :: nc_keep_alive_context where
  "ka_zero = \<lparr>kaInterval = 0, kaRetryInterval = 0, kaMaxRetries = 0, lastRecvCount = 0, lastSentCount = 0,
     lostKeepAlives = 0, ka_n = 0, isSending = False, sendBuffer = replicate 18 0\<rparr>"

datatype nc_keep_alive_action = DO_NOTHING | SEND_KA | KA_TIMEOUT

datatype ka_event_call = KaCancelEvent | KaPostTimedEvent u32

definition ka_defaults :: "nc_keep_alive_context \<Rightarrow> nc_keep_alive_context" where
  "ka_defaults ctx =
     ctx\<lparr>kaInterval := NC_KEEP_ALIVE_DEFAULT_INTERVAL,
         kaRetryInterval := NC_KEEP_ALIVE_DEFAULT_RETRY_INTERVAL,
         kaMaxRetries := NC_KEEP_ALIVE_DEFAULT_MAX_RETRIES,
         lastRecvCount := 0, lastSentCount := 0, lostKeepAlives := 0\<rparr>"

text \<open>The returned code is that of creating the keep alive event, \<open>create_ec\<close>.\<close>

definition nc_keep_alive_init ::
    "np_error_code \<Rightarrow> nc_keep_alive_context \<Rightarrow> np_error_code \<times> nc_keep_alive_context" where
  "nc_keep_alive_init create_ec ctx =
     (let c = ka_defaults ctx in (create_ec, c\<lparr>ka_n := kaInterval c div kaRetryInterval c\<rparr>))"

definition nc_keep_alive_stop :: "nc_keep_alive_context \<Rightarrow> nc_keep_alive_context \<times> ka_event_call list" where
  "nc_keep_alive_stop ctx = (ctx, [KaCancelEvent])"

definition nc_keep_alive_reset :: "nc_keep_alive_context \<Rightarrow> nc_keep_alive_context \<times> ka_event_call list" where
  "nc_keep_alive_reset ctx = (ka_defaults ctx, [KaCancelEvent])"

definition nc_keep_alive_set_settings ::
    "nc_keep_alive_context \<Rightarrow> u32 \<Rightarrow> u32 \<Rightarrow> u32 \<Rightarrow> nc_keep_alive_context outcome" where
  "nc_keep_alive_set_settings ctx interval retryInterval maxRetries =
     (let c = ctx\<lparr>kaInterval := interval, kaRetryInterval := retryInterval, kaMaxRetries := maxRetries\<rparr> in
      if kaRetryInterval c = 0 then Inl DivByZero
      else Inr (c\<lparr>ka_n := kaInterval c div kaRetryInterval c\<rparr>))"

definition nc_keep_alive_should_send ::
    "nc_keep_alive_context \<Rightarrow> u32 \<Rightarrow> u32 \<Rightarrow> nc_keep_alive_action \<times> nc_keep_alive_context" where
  "nc_keep_alive_should_send ctx recvCount sentCount =
     (if recvCount > lastRecvCount ctx \<and> sentCount > lastSentCount ctx then
        (DO_NOTHING, ctx\<lparr>lostKeepAlives := 0, lastRecvCount := recvCount, lastSentCount := sentCount\<rparr>)
      else if lostKeepAlives ctx > kaMaxRetries ctx + ka_n ctx then (KA_TIMEOUT, ctx)
      else
        let c = ctx\<lparr>lostKeepAlives := lostKeepAlives ctx + 1\<rparr> in
        if \<not> isSending c \<and> lostKeepAlives c > ka_n c then (SEND_KA, c) else (DO_NOTHING, c))"

definition nc_keep_alive_wait :: "nc_keep_alive_context \<Rightarrow> nc_keep_alive_context \<times> ka_event_call list" where
  "nc_keep_alive_wait ctx = (ctx, [KaPostTimedEvent (kaRetryInterval ctx)])"

text \<open>The buffer handed out is the context's \<open>sendBuffer\<close>; it is the second component.\<close>

definition nc_keep_alive_create_request ::
    "nc_keep_alive_context \<Rightarrow> nc_keep_alive_context \<times> u8 list" where
  "nc_keep_alive_create_request ctx =
     (let buf = [AT_KEEP_ALIVE, CT_KEEP_ALIVE_REQUEST] @ replicate 16 0 in
      (ctx\<lparr>sendBuffer := buf, isSending := True\<rparr>, buf))"

definition nc_keep_alive_handle_request ::
    "nc_keep_alive_context \<Rightarrow> u8 list \<Rightarrow> nc_keep_alive_context \<times> u8 list option" where
  "nc_keep_alive_handle_request ctx reqBuffer =
     (if length reqBuffer < 18 \<or> isSending ctx then (ctx, None)
      else
        let buf = [AT_KEEP_ALIVE, CT_KEEP_ALIVE_RESPONSE] @ take 16 (drop 2 reqBuffer) in
        (ctx\<lparr>sendBuffer := buf, isSending := True\<rparr>, Some buf))"

definition nc_keep_alive_packet_sent :: "nc_keep_alive_context \<Rightarrow> nc_keep_alive_context" where
  "nc_keep_alive_packet_sent ctx = ctx\<lparr>isSending := False\<rparr>"

section \<open>Specification\<close>

text \<open>
  The use the attacher and the client connections make of a context: on a timer tick they ask
  whether to send and create a request when told so, they answer requests of the peer, and the
  completion of a send reports back.
\<close>

datatype ka_label = KaTick u32 u32 | KaPeerRequest "u8 list" | KaSent

fun ka_step :: "nc_keep_alive_context \<Rightarrow> ka_label \<Rightarrow> nc_keep_alive_context \<times> u8 list option" where
  "ka_step ctx (KaTick recvCount sentCount) =
     (case nc_keep_alive_should_send ctx recvCount sentCount of
        (SEND_KA, c) \<Rightarrow> (case nc_keep_alive_create_request c of (c', buf) \<Rightarrow> (c', Some buf))
      | (_, c) \<Rightarrow> (c, None))"
| "ka_step ctx (KaPeerRequest req) = nc_keep_alive_handle_request ctx req"
| "ka_step ctx KaSent = (nc_keep_alive_packet_sent ctx, None)"

text \<open>Consecutive timer ticks, the sends of one tick being completed before the next.\<close>

fun ka_ticks :: "nc_keep_alive_context \<Rightarrow> (u32 \<times> u32) list \<Rightarrow> nc_keep_alive_action list" where
  "ka_ticks ctx [] = []"
| "ka_ticks ctx ((r, s) # cs) =
     (case nc_keep_alive_should_send ctx r s of (a, c) \<Rightarrow> a # ka_ticks c cs)"

definition ka_no_progress :: "nc_keep_alive_context \<Rightarrow> u32 \<times> u32 \<Rightarrow> bool" where
  "ka_no_progress ctx = (\<lambda>(r, s). r \<le> lastRecvCount ctx \<or> s \<le> lastSentCount ctx)"

definition ka_verdict :: "nat \<Rightarrow> nat \<Rightarrow> nat \<Rightarrow> nc_keep_alive_action" where
  "ka_verdict maxRetries n lost =
     (if lost > maxRetries + n then KA_TIMEOUT else if lost \<ge> n then SEND_KA else DO_NOTHING)"

definition ka_demo :: nc_keep_alive_context where
  "ka_demo = \<lparr>kaInterval = 4000, kaRetryInterval = 2000, kaMaxRetries = 1, lastRecvCount = 7,
     lastSentCount = 7, lostKeepAlives = 0, ka_n = 2, isSending = False, sendBuffer = replicate 18 0\<rparr>"

section \<open>Detection of a dead peer\<close>

lemma should_send_no_progress:
  assumes "ka_no_progress ctx (r, s)" "unat (kaMaxRetries ctx) + unat (ka_n ctx) < 2 ^ 32 - 1"
    and "\<not> isSending ctx"
  shows "nc_keep_alive_should_send ctx r s =
     (if unat (lostKeepAlives ctx) > unat (kaMaxRetries ctx) + unat (ka_n ctx) then (KA_TIMEOUT, ctx)
      else (if unat (lostKeepAlives ctx) \<ge> unat (ka_n ctx) then SEND_KA else DO_NOTHING,
            ctx\<lparr>lostKeepAlives := lostKeepAlives ctx + 1\<rparr>))"
proof -
  have sum: "unat (kaMaxRetries ctx + ka_n ctx) = unat (kaMaxRetries ctx) + unat (ka_n ctx)"
    using assms(2) by (simp add: unat_word_ariths)
  moreover have "\<not> (r > lastRecvCount ctx \<and> s > lastSentCount ctx)"
    using assms(1) by (auto simp: ka_no_progress_def)
  moreover have "unat (lostKeepAlives ctx + 1) = unat (lostKeepAlives ctx) + 1"
    if "unat (lostKeepAlives ctx) \<le> unat (kaMaxRetries ctx) + unat (ka_n ctx)"
    using that assms(2) by (simp add: unat_word_ariths)
  ultimately show ?thesis
    using assms(3) by (auto simp: nc_keep_alive_should_send_def word_less_nat_alt Let_def)
qed

lemma ka_ticks_verdicts:
  assumes "\<forall>c\<in>set cs. ka_no_progress ctx c" "unat (kaMaxRetries ctx) + unat (ka_n ctx) < 2 ^ 32 - 1"
    "\<not> isSending ctx"
  shows "ka_ticks ctx cs = map (ka_verdict (unat (kaMaxRetries ctx)) (unat (ka_n ctx)))
           [unat (lostKeepAlives ctx)..<unat (lostKeepAlives ctx) + length cs]"
  using assms
proof (induction cs arbitrary: ctx)
  case (Cons c cs)
  obtain r s where c: "c = (r, s)" by fastforce
  let ?k = "unat (lostKeepAlives ctx)"
  let ?ctx = "ctx\<lparr>lostKeepAlives := lostKeepAlives ctx + 1\<rparr>"
  note send = should_send_no_progress [of ctx r s, OF _ Cons.prems(2,3)]
  have np: "ka_no_progress ctx (r, s)" using Cons.prems(1) c by simp
  show ?case
  proof (cases "?k > unat (kaMaxRetries ctx) + unat (ka_n ctx)")
    case True
    have rep: "map (ka_verdict (unat (kaMaxRetries ctx)) (unat (ka_n ctx))) [?k..<?k + m] = replicate m KA_TIMEOUT" for m
      using True by (subst map_eq_replicate [of _ _ KA_TIMEOUT]) (auto simp: ka_verdict_def)
    have "ka_ticks ctx cs = replicate (length cs) KA_TIMEOUT"
      using Cons rep by simp
    then show ?thesis
      unfolding rep using True send [OF np] c by simp
  next
    case False
    then have "unat (lostKeepAlives ctx + 1) = ?k + 1" using Cons.prems(2) by (simp add: unat_word_ariths)
    moreover have "\<forall>c\<in>set cs. ka_no_progress ?ctx c" using Cons.prems(1) by (auto simp: ka_no_progress_def)
    ultimately show ?thesis
      using Cons.IH [of ?ctx] Cons.prems(2,3) False send [OF np] c
      by (simp add: upt_conv_Cons ka_verdict_def del: upt_Suc)
  qed
qed simp

text \<open>
  C34. A peer that stops making progress is declared dead at a fixed tick: from a fresh context the
  first \<open>n\<close> ticks only wait, the next \<open>maxRetries + 1\<close> ticks each send a keep alive request, and
  the tick after them is the timeout.
\<close>

theorem keep_alive_timeout:
  assumes "\<forall>c\<in>set cs. ka_no_progress ctx c" "unat (kaMaxRetries ctx) + unat (ka_n ctx) < 2 ^ 32 - 1"
    "\<not> isSending ctx" "lostKeepAlives ctx = 0"
    "length cs = unat (ka_n ctx) + unat (kaMaxRetries ctx) + 2"
  shows "ka_ticks ctx cs = replicate (unat (ka_n ctx)) DO_NOTHING
           @ replicate (unat (kaMaxRetries ctx) + 1) SEND_KA @ [KA_TIMEOUT]"
proof -
  let ?n = "unat (ka_n ctx)" and ?m = "unat (kaMaxRetries ctx)"
  have "[0..<?n + ?m + 2] = [0..<?n] @ [?n..<?n + (?m + 1)] @ [?n + ?m + 1]"
    by (simp flip: upt_add_eq_append [of 0] add: add.assoc)
  moreover have "map (ka_verdict ?m ?n) [0..<?n] = replicate ?n DO_NOTHING"
    by (subst map_eq_replicate [of _ _ DO_NOTHING]) (auto simp: ka_verdict_def)
  moreover have "map (ka_verdict ?m ?n) [?n..<?n + (?m + 1)] = replicate (?m + 1) SEND_KA"
    by (subst map_eq_replicate [of _ _ SEND_KA]) (auto simp: ka_verdict_def)
  moreover have "ka_verdict ?m ?n (?n + ?m + 1) = KA_TIMEOUT" by (simp add: ka_verdict_def)
  ultimately show ?thesis
    unfolding ka_ticks_verdicts [OF assms(1-3)] using assms(4,5) by (simp only: map_append) simp
qed

theorem keep_alive_timeout_witness:
  "ka_ticks ka_demo [(7, 9), (7, 9), (7, 9), (7, 9), (7, 9)]
     = [DO_NOTHING, DO_NOTHING, SEND_KA, SEND_KA, KA_TIMEOUT]"
  using keep_alive_timeout [of "[(7, 9), (7, 9), (7, 9), (7, 9), (7, 9)]" ka_demo]
  by (simp add: ka_demo_def ka_no_progress_def numeral_2_eq_2 [THEN arg_cong, of "\<lambda>k. replicate k DO_NOTHING"])

text \<open>
  While a keep alive packet is being sent its buffer is not written: neither a timer tick nor a
  request of the peer touches the buffer or hands it out again before the send has completed.
\<close>

lemma keep_alive_buffer_stable:
  assumes "isSending ctx" "l \<noteq> KaSent"
  shows "sendBuffer (fst (ka_step ctx l)) = sendBuffer ctx \<and> isSending (fst (ka_step ctx l))
     \<and> snd (ka_step ctx l) = None"
  using assms
  by (cases l) (auto simp: nc_keep_alive_should_send_def nc_keep_alive_handle_request_def Let_def
      split: nc_keep_alive_action.splits)

end
