(* ===== verification/NcDnsResolver.thy ===== *)
theory NcDnsResolver
  imports NpPlatform
begin

text \<open>
  The resolver of \<^verbatim>\<open>src/core/nc_dns_multi_resolver.c\<close>: it asks the platform for the IPv4 and the IPv6
  addresses of a host and merges the two answers, which arrive in either order, into one array.
\<close>

section \<open>Definitions\<close>

definition NC_DNS_MULTI_RESOLVER_MAX_IPS :: nat where "NC_DNS_MULTI_RESOLVER_MAX_IPS = 4"

record nc_dns_multi_resolver_context =
  v4Ips :: "np_ip_address list"
  v6Ips :: "np_ip_address list"
  v4IpsSize :: nat
  v6IpsSize :: nat
  v4Ec :: np_error_code
  v6Ec :: np_error_code
  ips :: "np_ip_address list"   \<comment> \<open>the array of the caller\<close>
  ipsSize :: nat
  ipsResolved :: nat

datatype dns_output =
    DnsResolveV4 string nat
  | DnsResolveV6 string nat
  | DnsCompletion np_error_code

definition nc_dns_multi_resolver_resolve ::
    "nc_dns_multi_resolver_context \<Rightarrow> string \<Rightarrow> np_ip_address list \<Rightarrow> nat
       \<Rightarrow> nc_dns_multi_resolver_context \<times> dns_output list" where
  "nc_dns_multi_resolver_resolve ctx host buf cap =
     (ctx\<lparr>ips := buf, ipsSize := cap, v4IpsSize := 0, v6IpsSize := 0,
          v4Ec := NABTO_EC_OPERATION_IN_PROGRESS, v6Ec := NABTO_EC_OPERATION_IN_PROGRESS\<rparr>,
      [DnsResolveV4 host NC_DNS_MULTI_RESOLVER_MAX_IPS, DnsResolveV6 host NC_DNS_MULTI_RESOLVER_MAX_IPS])"

text \<open>One of the two guarded copies of the loop body: address \<open>i\<close> of \<open>src\<close> to position \<open>n\<close> of \<open>dst\<close>.\<close>

definition copy_ip ::
    "nat \<Rightarrow> np_ip_address list \<Rightarrow> nat \<Rightarrow> nat \<Rightarrow> np_ip_address list \<times> nat \<Rightarrow> (np_ip_address list \<times> nat) outcome" where
  "copy_ip cap src srcSize i = (\<lambda>(dst, n).
     if n < cap \<and> i < srcSize
     then obind (rd src i) (\<lambda>a. if n < length dst then Inr (dst[n := a], n + 1) else Inl OutOfBounds)
     else Inr (dst, n))"

fun copy_ips ::
    "nc_dns_multi_resolver_context \<Rightarrow> nat list \<Rightarrow> np_ip_address list \<times> nat \<Rightarrow> (np_ip_address list \<times> nat) outcome" where
  "copy_ips ctx [] s = Inr s"
| "copy_ips ctx (i # is) s =
     obind (copy_ip (ipsSize ctx) (v4Ips ctx) (v4IpsSize ctx) i s) (\<lambda>s1.
     obind (copy_ip (ipsSize ctx) (v6Ips ctx) (v6IpsSize ctx) i s1) (\<lambda>s2.
       copy_ips ctx is s2))"

definition dns_resolved_ec ::
    "nc_dns_multi_resolver_context \<Rightarrow> (np_error_code \<times> nc_dns_multi_resolver_context) outcome" where
  "dns_resolved_ec ctx =
     (if v4Ec ctx \<noteq> NABTO_EC_OK \<and> v6Ec ctx \<noteq> NABTO_EC_OK then Inr (v4Ec ctx, ctx)
      else obind (copy_ips ctx [0..<v4IpsSize ctx + v6IpsSize ctx] (ips ctx, 0)) (\<lambda>(buf, n).
        Inr (NABTO_EC_OK, ctx\<lparr>ips := buf, ipsResolved := n\<rparr>)))"

definition dns_resolved ::
    "nc_dns_multi_resolver_context \<Rightarrow> (nc_dns_multi_resolver_context \<times> dns_output list) outcome" where
  "dns_resolved ctx =
     (if v4Ec ctx = NABTO_EC_OPERATION_IN_PROGRESS \<or> v6Ec ctx = NABTO_EC_OPERATION_IN_PROGRESS
      then Inr (ctx, [])
      else obind (dns_resolved_ec ctx) (\<lambda>(ec, c). Inr (c, [DnsCompletion ec])))"

definition dns_resolved_callback_v4 ::
    "np_error_code \<Rightarrow> nc_dns_multi_resolver_context \<Rightarrow> (nc_dns_multi_resolver_context \<times> dns_output list) outcome" where
  "dns_resolved_callback_v4 ec ctx = dns_resolved (ctx\<lparr>v4Ec := ec\<rparr>)"

definition dns_resolved_callback_v6 ::
    "np_error_code \<Rightarrow> nc_dns_multi_resolver_context \<Rightarrow> (nc_dns_multi_resolver_context \<times> dns_output list) outcome" where
  "dns_resolved_callback_v6 ec ctx = dns_resolved (ctx\<lparr>v6Ec := ec\<rparr>)"

section \<open>Specification\<close>

text \<open>
  An answer of the platform's resolver: it fills the array and the size it was given (at most
  \<open>NC_DNS_MULTI_RESOLVER_MAX_IPS\<close> addresses) and resolves the completion event.
\<close>

datatype dns_answer = AnswerV4 np_error_code "np_ip_address list" | AnswerV6 np_error_code "np_ip_address list"

fun dns_step ::
    "dns_answer \<Rightarrow> nc_dns_multi_resolver_context \<Rightarrow> (nc_dns_multi_resolver_context \<times> dns_output list) outcome" where
  "dns_step (AnswerV4 ec as) ctx = dns_resolved_callback_v4 ec (ctx\<lparr>v4Ips := as, v4IpsSize := length as\<rparr>)"
| "dns_step (AnswerV6 ec as) ctx = dns_resolved_callback_v6 ec (ctx\<lparr>v6Ips := as, v6IpsSize := length as\<rparr>)"

fun dns_run ::
    "dns_answer list \<Rightarrow> nc_dns_multi_resolver_context \<Rightarrow> (nc_dns_multi_resolver_context \<times> dns_output list) outcome" where
  "dns_run [] ctx = Inr (ctx, [])"
| "dns_run (a # as) ctx =
     obind (dns_step a ctx) (\<lambda>(c, o1). obind (dns_run as c) (\<lambda>(c', o2). Inr (c', o1 @ o2)))"

fun interleave :: "'a list \<Rightarrow> 'a list \<Rightarrow> 'a list" where
  "interleave [] ys = ys"
| "interleave xs [] = xs"
| "interleave (x # xs) (y # ys) = x # y # interleave xs ys"

definition demo_v4 :: np_ip_address where
  "demo_v4 = \<lparr>ip_type = NABTO_IPV4, ip_bytes = replicate 16 0\<rparr>"

definition demo_v6 :: np_ip_address where
  "demo_v6 = \<lparr>ip_type = NABTO_IPV6, ip_bytes = replicate 16 1\<rparr>"

definition demo_resolver :: nc_dns_multi_resolver_context where
  "demo_resolver = \<lparr>v4Ips = [], v6Ips = [], v4IpsSize = 0, v6IpsSize = 0, v4Ec = NABTO_EC_OK,
     v6Ec = NABTO_EC_OK, ips = [], ipsSize = 0, ipsResolved = 0\<rparr>"

section \<open>The merged addresses\<close>

definition opt_nth :: "'a list \<Rightarrow> nat \<Rightarrow> 'a list" where
  "opt_nth xs k = (if k < length xs then [xs ! k] else [])"

lemma opt_nth_simps [simp]:
  "opt_nth [] k = []" "opt_nth (x # xs) 0 = [x]" "opt_nth (x # xs) (Suc k) = opt_nth xs k"
  by (simp_all add: opt_nth_def)

lemma interleave_Nil [simp]: "interleave xs [] = xs"
  by (cases xs) auto

lemma take_opt_nth: "take (Suc k) xs = take k xs @ opt_nth xs k"
  by (simp add: opt_nth_def take_Suc_conv_app_nth)

lemma interleave_take_Suc:
  "interleave (take (Suc k) xs) (take (Suc k) ys)
     = interleave (take k xs) (take k ys) @ opt_nth xs k @ opt_nth ys k"
proof (induction k arbitrary: xs ys)
  case 0
  show ?case by (cases xs; cases ys) auto
next
  case (Suc k)
  show ?case
  proof (cases xs)
    case Nil
    then show ?thesis using take_opt_nth [of "Suc k" ys] by simp
  next
    case x: (Cons x xs')
    show ?thesis
    proof (cases ys)
      case Nil
      then show ?thesis using take_opt_nth [of "Suc k" xs] x by simp
    next
      case (Cons y ys')
      then show ?thesis using Suc.IH [of xs' ys'] x by simp
    qed
  qed
qed

lemma length_interleave [simp]: "length (interleave xs ys) = length xs + length ys"
  by (induction xs ys rule: interleave.induct) auto

text \<open>What the loop has written after the addresses \<open>xs\<close> were offered to it.\<close>

definition filled :: "nat \<Rightarrow> 'a list \<Rightarrow> 'a list \<Rightarrow> 'a list \<times> nat" where
  "filled cap buf xs = (take cap xs @ drop (min cap (length xs)) buf, min cap (length xs))"

lemma copy_ip_filled:
  assumes "cap \<le> length buf" "srcSize = length src"
  shows "copy_ip cap src srcSize i (filled cap buf xs) = Inr (filled cap buf (xs @ opt_nth src i))"
proof (cases "length xs < cap \<and> i < length src")
  case True
  then have "min cap (length xs) = length xs" "min cap (Suc (length xs)) = Suc (length xs)" by auto
  moreover have "length xs < length buf" "take (cap - length xs) [src ! i] = [src ! i]"
    using True assms(1) by (auto simp: Suc_leI take_all_iff)
  ultimately show ?thesis
    using True assms
    by (simp add: copy_ip_def filled_def opt_nth_def list_update_append flip: Cons_nth_drop_Suc)
qed (use assms in \<open>auto simp: copy_ip_def filled_def opt_nth_def\<close>)

lemma copy_ips_filled:
  assumes "ipsSize ctx \<le> length buf" "v4IpsSize ctx = length (v4Ips ctx)" "v6IpsSize ctx = length (v6Ips ctx)"
  shows "copy_ips ctx [k..<k + m] (filled (ipsSize ctx) buf (interleave (take k (v4Ips ctx)) (take k (v6Ips ctx))))
     = Inr (filled (ipsSize ctx) buf (interleave (take (k + m) (v4Ips ctx)) (take (k + m) (v6Ips ctx))))"
proof (induction m arbitrary: k)
  case (Suc m)
  have "[k..<k + Suc m] = k # [Suc k..<Suc k + m]" by (simp add: upt_conv_Cons)
  then show ?case
    using Suc.IH [of "Suc k"]
    by (simp add: copy_ip_filled assms interleave_take_Suc del: upt_Suc)
qed simp

lemma dns_resolved_ec_merges:
  assumes "ipsSize ctx \<le> length (ips ctx)" "v4IpsSize ctx = length (v4Ips ctx)" "v6IpsSize ctx = length (v6Ips ctx)"
    and "v4Ec ctx = NABTO_EC_OK \<or> v6Ec ctx = NABTO_EC_OK"
  shows "dns_resolved_ec ctx = Inr (NABTO_EC_OK,
     (let xs = interleave (v4Ips ctx) (v6Ips ctx) in
      ctx\<lparr>ips := take (ipsSize ctx) xs @ drop (min (ipsSize ctx) (length xs)) (ips ctx),
          ipsResolved := min (ipsSize ctx) (length xs)\<rparr>))"
  using copy_ips_filled [of ctx "ips ctx" 0 "v4IpsSize ctx + v6IpsSize ctx"] assms
  by (auto simp: dns_resolved_ec_def filled_def Let_def)

lemma take_min_interleave:
  "take (min cap (length xs + length ys)) (interleave xs ys) = take cap (interleave xs ys)"
  by (simp add: min_def)

text \<open>
  C33. Whatever the order of the two answers, the caller's completion event is resolved exactly once,
  after the second of them: with \<open>NABTO_EC_OK\<close> when one of the families was resolved, and then the
  caller's array holds the alternating IPv4 and IPv6 addresses, as many as fit, and otherwise with
  the IPv4 error.
\<close>

theorem nc_dns_multi_resolver_result:
  assumes "cap \<le> length buf" "ec4 \<noteq> NABTO_EC_OPERATION_IN_PROGRESS" "ec6 \<noteq> NABTO_EC_OPERATION_IN_PROGRESS"
    and "answers = [AnswerV4 ec4 as4, AnswerV6 ec6 as6] \<or> answers = [AnswerV6 ec6 as6, AnswerV4 ec4 as4]"
  shows "\<exists>c. dns_run answers (fst (nc_dns_multi_resolver_resolve ctx host buf cap)) =
       Inr (c, [DnsCompletion (if ec4 = NABTO_EC_OK \<or> ec6 = NABTO_EC_OK then NABTO_EC_OK else ec4)])
     \<and> (ec4 = NABTO_EC_OK \<or> ec6 = NABTO_EC_OK \<longrightarrow>
          ipsResolved c = min cap (length as4 + length as6) \<and>
          take (ipsResolved c) (ips c) = take cap (interleave as4 as6))"
proof (cases "ec4 = NABTO_EC_OK \<or> ec6 = NABTO_EC_OK")
  case True
  then show ?thesis
    using assms
    by (auto simp: nc_dns_multi_resolver_resolve_def dns_resolved_callback_v4_def dns_resolved_callback_v6_def
        dns_resolved_def dns_resolved_ec_merges Let_def take_min_interleave)
next
  case False
  then show ?thesis
    using assms
    by (auto simp: nc_dns_multi_resolver_resolve_def dns_resolved_callback_v4_def dns_resolved_callback_v6_def
        dns_resolved_def dns_resolved_ec_def)
qed

theorem nc_dns_multi_resolver_result_witness:
  "\<exists>c. dns_run [AnswerV6 NABTO_EC_OK [demo_v6], AnswerV4 NABTO_EC_OK [demo_v4, demo_v4]]
        (fst (nc_dns_multi_resolver_resolve demo_resolver ''h'' [demo_v4, demo_v4] 2))
      = Inr (c, [DnsCompletion NABTO_EC_OK]) \<and> ips c ! 0 = demo_v4 \<and> ips c ! 1 = demo_v6"
proof -
  have tk: "take (Suc (Suc 0)) xs = [a, b] \<Longrightarrow> xs ! 0 = a \<and> xs ! Suc 0 = b" for xs and a b :: np_ip_address
    by (metis nth_take One_nat_def lessI nth_Cons_0 nth_Cons_Suc zero_less_Suc)
  from nc_dns_multi_resolver_result [of 2 "[demo_v4, demo_v4]" NABTO_EC_OK NABTO_EC_OK
      "[AnswerV6 NABTO_EC_OK [demo_v6], AnswerV4 NABTO_EC_OK [demo_v4, demo_v4]]"
      "[demo_v4, demo_v4]" "[demo_v6]" demo_resolver "''h''"]
  show ?thesis by (auto simp del: dns_run.simps simp: numeral_2_eq_2 dest: tk)
qed

end
