(* ===== verification/CStd.thy ===== *)
theory CStd
  imports Prelude Complex_Main "HOL-Library.Log_Nat"
begin

text \<open>
  What the sources use of the C standard library and of the \<open>double\<close> type: \<open>strtod\<close> with the subject
  sequences of the C standard, rounding to the nearest double, the comparisons of doubles, and
  allocation, whose successes and failures an oracle decides.
\<close>

section \<open>Allocation\<close>

text \<open>The oracle: one entry per allocation to come; allocations beyond it succeed.\<close>

type_synonym heap = "bool list"

definition alloc :: "heap \<Rightarrow> bool \<times> heap" where
  "alloc h = (case h of [] \<Rightarrow> (True, []) | b # h' \<Rightarrow> (b, h'))"

definition strdup :: "string \<Rightarrow> heap \<Rightarrow> string option \<times> heap" where
  "strdup s h = (case alloc h of (b, h') \<Rightarrow> (if b then Some s else None, h'))"

lemma alloc_Nil [simp]: "alloc [] = (True, [])"
  by (simp add: alloc_def)

lemma strdup_Nil [simp]: "strdup s [] = (Some s, [])"
  by (simp add: strdup_def)

section \<open>Doubles\<close>

datatype double = NaN | Inf bool  \<comment> \<open>the sign, \<open>True\<close> for negative\<close> | Fin rat

text \<open>The comparisons of IEEE 754: \<open>NaN\<close> is unordered; both zeros are \<open>Fin 0\<close>.\<close>

fun double_eq :: "double \<Rightarrow> double \<Rightarrow> bool" where
  "double_eq (Fin x) (Fin y) = (x = y)"
| "double_eq (Inf s) (Inf t) = (s = t)"
| "double_eq _ _ = False"

fun double_less :: "double \<Rightarrow> double \<Rightarrow> bool" where
  "double_less (Fin x) (Fin y) = (x < y)"
| "double_less (Inf s) (Inf t) = (s \<and> \<not> t)"
| "double_less (Inf s) (Fin y) = s"
| "double_less (Fin x) (Inf t) = (\<not> t)"
| "double_less _ _ = False"

definition double_le :: "double \<Rightarrow> double \<Rightarrow> bool" where
  "double_le x y = (double_less x y \<or> double_eq x y)"

text \<open>Rounding to the nearest integer, to even in a tie.\<close>

definition round_even :: "rat \<Rightarrow> int" where
  "round_even q =
     (let f = \<lfloor>q\<rfloor>; r = q - of_int f in
      if r < 1 / 2 then f else if r > 1 / 2 then f + 1 else if even f then f else f + 1)"

text \<open>The binary logarithm, rounded down, of the positive rational \<open>p / d\<close>.\<close>

definition floor_log2 :: "int \<Rightarrow> int \<Rightarrow> int" where
  "floor_log2 p d =
     (let k = bitlen p - bitlen d in
      if (if k \<ge> 0 then p \<ge> d * 2 ^ nat k else p * 2 ^ nat (- k) \<ge> d) then k else k - 1)"

definition pow2 :: "int \<Rightarrow> rat" where
  "pow2 e = (if e \<ge> 0 then 2 ^ nat e else 1 / 2 ^ nat (- e))"

definition round_double :: "rat \<Rightarrow> double" where
  "round_double q =
     (if q = 0 then Fin 0
      else let (p, d) = quotient_of \<bar>q\<bar>;
               e = max (- 1074) (floor_log2 p d - 52);
               m = of_int (round_even (\<bar>q\<bar> / pow2 e)) * pow2 e in
           if m \<ge> pow2 1024 then Inf (q < 0) else Fin (if q < 0 then - m else m))"

section \<open>\<open>strtod\<close>\<close>

definition isspace :: "char \<Rightarrow> bool" where
  "isspace c = (let n = of_char c :: nat in n = 32 \<or> (9 \<le> n \<and> n \<le> 13))"

definition isdigit :: "char \<Rightarrow> bool" where
  "isdigit c = (let n = of_char c :: nat in 48 \<le> n \<and> n \<le> 57)"

definition xdigit_value :: "char \<Rightarrow> nat" where
  "xdigit_value c =
     (let n = of_char c in if n \<le> 57 then n - 48 else if n \<le> 70 then n - 55 else n - 87)"

definition isxdigit :: "char \<Rightarrow> bool" where
  "isxdigit c =
     (let n = of_char c :: nat in (48 \<le> n \<and> n \<le> 57) \<or> (65 \<le> n \<and> n \<le> 70) \<or> (97 \<le> n \<and> n \<le> 102))"

definition isnanchar :: "char \<Rightarrow> bool" where
  "isnanchar c =
     (let n = of_char c :: nat in (48 \<le> n \<and> n \<le> 57) \<or> (65 \<le> n \<and> n \<le> 90) \<or> (97 \<le> n \<and> n \<le> 122) \<or> n = 95)"

definition tolower :: "char \<Rightarrow> char" where
  "tolower c = (let n = of_char c :: nat in if 65 \<le> n \<and> n \<le> 90 then char_of (n + 32) else c)"

definition has_prefix_ci :: "string \<Rightarrow> string \<Rightarrow> bool" where
  "has_prefix_ci p s = (map tolower (take (length p) s) = p)"

definition number_of :: "nat \<Rightarrow> string \<Rightarrow> int" where
  "number_of base ds = foldl (\<lambda>n c. n * int base + int (xdigit_value c)) 0 ds"

text \<open>An exponent part after its letter: optional sign and at least one digit, or nothing.\<close>

definition parse_exp :: "string \<Rightarrow> (int \<times> string) option" where
  "parse_exp s =
     (let (neg, s1) = (case s of c # cs \<Rightarrow> if c = CHR ''-'' then (True, cs)
                                          else if c = CHR ''+'' then (False, cs) else (False, s)
                               | [] \<Rightarrow> (False, s));
          ds = takeWhile isdigit s1 in
      if ds = [] then None
      else Some ((if neg then - 1 else 1) * number_of 10 ds, dropWhile isdigit s1))"

text \<open>
  A mantissa in the given base with optional fraction: its digits, the number of fraction digits,
  and what follows; \<open>None\<close> without any digit.
\<close>

definition parse_mantissa :: "(char \<Rightarrow> bool) \<Rightarrow> string \<Rightarrow> (string \<times> nat \<times> string) option" where
  "parse_mantissa digit s =
     (let is = takeWhile digit s; r = dropWhile digit s in
      case r of
        c # cs \<Rightarrow>
          if c = CHR ''.'' then
            let fs = takeWhile digit cs in
            if is = [] \<and> fs = [] then None else Some (is @ fs, length fs, dropWhile digit cs)
          else if is = [] then None else Some (is, 0, r)
      | [] \<Rightarrow> if is = [] then None else Some (is, 0, r))"

definition scale :: "rat \<Rightarrow> int \<Rightarrow> rat" where
  "scale b e = (if e \<ge> 0 then b ^ nat e else 1 / b ^ nat (- e))"

definition parse_number :: "nat \<Rightarrow> (char \<Rightarrow> bool) \<Rightarrow> string \<Rightarrow> rat \<Rightarrow> string \<Rightarrow> (rat \<times> string) option" where
  "parse_number base digit expchars expbase s =
     (case parse_mantissa digit s of
        None \<Rightarrow> None
      | Some (ds, k, r) \<Rightarrow>
          let m = of_int (number_of base ds) / of_nat base ^ k in
          (case r of
             c # cs \<Rightarrow>
               if c \<in> set expchars then
                 (case parse_exp cs of Some (e, r') \<Rightarrow> Some (m * scale expbase e, r') | None \<Rightarrow> Some (m, r))
               else Some (m, r)
           | [] \<Rightarrow> Some (m, r)))"

text \<open>The subject sequence after white space and sign; \<open>neg\<close> is the sign.\<close>

definition strtod_unsigned :: "bool \<Rightarrow> string \<Rightarrow> (double \<times> string) option" where
  "strtod_unsigned neg s =
     (let signed = (\<lambda>q. if neg then - q else q) in
      if has_prefix_ci ''infinity'' s then Some (Inf neg, drop 8 s)
      else if has_prefix_ci ''inf'' s then Some (Inf neg, drop 3 s)
      else if has_prefix_ci ''nan'' s then
        (let r = drop 3 s in
         case r of
           c # cs \<Rightarrow>
             if c = CHR ''('' \<and> dropWhile isnanchar cs \<noteq> [] \<and> hd (dropWhile isnanchar cs) = CHR '')''
             then Some (NaN, tl (dropWhile isnanchar cs)) else Some (NaN, r)
         | [] \<Rightarrow> Some (NaN, r))
      else if has_prefix_ci ''0x'' s \<and> parse_mantissa isxdigit (drop 2 s) \<noteq> None then
        map_option (\<lambda>(q, r). (round_double (signed q), r)) (parse_number 16 isxdigit ''pP'' 2 (drop 2 s))
      else map_option (\<lambda>(q, r). (round_double (signed q), r)) (parse_number 10 isdigit ''eE'' 10 s))"

text \<open>The value, and the rest of the string from the end pointer on.\<close>

definition strtod :: "string \<Rightarrow> double \<times> string" where
  "strtod s =
     (let s1 = dropWhile isspace s;
          (neg, s2) = (case s1 of c # cs \<Rightarrow> if c = CHR ''-'' then (True, cs)
                                            else if c = CHR ''+'' then (False, cs) else (False, s1)
                                | [] \<Rightarrow> (False, s1)) in
      case strtod_unsigned neg s2 of Some r \<Rightarrow> r | None \<Rightarrow> (Fin 0, s))"

end
