(* ===== verification/NmPolicies.thy ===== *)
theory NmPolicies
  imports NnLib CStd
begin

text \<open>
  The policy language of \<^verbatim>\<open>src/modules/policies\<close>: conditions (\<^verbatim>\<open>nm_condition.c\<close>), statements
  (\<^verbatim>\<open>nm_statement.c\<close>) and policies (\<^verbatim>\<open>nm_policy.c\<close>). Attributes are a string map, and a condition's
  values and a statement's actions are string sets of the external library.
\<close>

section \<open>Conditions\<close>

datatype nm_condition_operator =
    NM_CONDITION_OPERATOR_STRING_EQUALS
  | NM_CONDITION_OPERATOR_STRING_NOT_EQUALS
  | NM_CONDITION_OPERATOR_NUMERIC_EQUALS
  | NM_CONDITION_OPERATOR_NUMERIC_NOT_EQUALS
  | NM_CONDITION_OPERATOR_NUMERIC_LESS_THAN
  | NM_CONDITION_OPERATOR_NUMERIC_LESS_THAN_EQUALS
  | NM_CONDITION_OPERATOR_NUMERIC_GREATER_THAN
  | NM_CONDITION_OPERATOR_NUMERIC_GREATER_THAN_EQUALS
  | NM_CONDITION_OPERATOR_BOOL

datatype nm_condition_result =
    NM_CONDITION_RESULT_MATCH
  | NM_CONDITION_RESULT_NO_MATCH
  | NM_CONDITION_RESULT_ERROR

text \<open>The key is a pointer that is null until it is set.\<close>

record nm_condition =
  cond_op :: nm_condition_operator
  cond_key :: "string option"
  cond_values :: "string list"

type_synonym attributes = "(string \<times> string) list"

definition nm_condition_new :: "nm_condition_operator \<Rightarrow> heap \<Rightarrow> nm_condition option \<times> heap" where
  "nm_condition_new op h =
     (case alloc h of (b, h') \<Rightarrow>
        (if b then Some \<lparr>cond_op = op, cond_key = None, cond_values = []\<rparr> else None, h'))"

definition nm_condition_parse_bool :: "string \<Rightarrow> bool option" where
  "nm_condition_parse_bool v =
     (if v = ''true'' then Some True else if v = ''false'' then Some False else None)"

definition nm_condition_parse_numeric :: "string \<Rightarrow> double option" where
  "nm_condition_parse_numeric v = (case strtod v of (d, err) \<Rightarrow> if err = [] then Some d else None)"

definition status :: "bool \<Rightarrow> nm_condition_result" where
  "status s = (if s then NM_CONDITION_RESULT_MATCH else NM_CONDITION_RESULT_NO_MATCH)"

definition nm_condition_numeric_operator ::
    "nm_condition_operator \<Rightarrow> string \<Rightarrow> string \<Rightarrow> nm_condition_result" where
  "nm_condition_numeric_operator op lhs rhs =
     (case nm_condition_parse_numeric lhs of
        None \<Rightarrow> NM_CONDITION_RESULT_ERROR
      | Some l \<Rightarrow>
        (case nm_condition_parse_numeric rhs of
           None \<Rightarrow> NM_CONDITION_RESULT_ERROR
         | Some r \<Rightarrow>
           (case op of
              NM_CONDITION_OPERATOR_NUMERIC_EQUALS \<Rightarrow> status (double_eq l r)
            | NM_CONDITION_OPERATOR_NUMERIC_NOT_EQUALS \<Rightarrow> status (\<not> double_eq l r)
            | NM_CONDITION_OPERATOR_NUMERIC_LESS_THAN \<Rightarrow> status (double_less l r)
            | NM_CONDITION_OPERATOR_NUMERIC_LESS_THAN_EQUALS \<Rightarrow> status (double_le l r)
            | NM_CONDITION_OPERATOR_NUMERIC_GREATER_THAN \<Rightarrow> status (double_less r l)
            | NM_CONDITION_OPERATOR_NUMERIC_GREATER_THAN_EQUALS \<Rightarrow> status (double_le r l)
            | _ \<Rightarrow> NM_CONDITION_RESULT_ERROR)))"

definition bool_equals :: "string \<Rightarrow> string \<Rightarrow> nm_condition_result" where
  "bool_equals lhs rhs =
     (case (nm_condition_parse_bool lhs, nm_condition_parse_bool rhs) of
        (Some l, Some r) \<Rightarrow> status (l = r)
      | _ \<Rightarrow> NM_CONDITION_RESULT_ERROR)"

definition string_equals :: "string \<Rightarrow> string \<Rightarrow> nm_condition_result" where
  "string_equals lhs rhs = status (lhs = rhs)"

definition string_not_equals :: "string \<Rightarrow> string \<Rightarrow> nm_condition_result" where
  "string_not_equals lhs rhs = status (lhs \<noteq> rhs)"

definition match :: "nm_condition_operator \<Rightarrow> string \<Rightarrow> string \<Rightarrow> nm_condition_result" where
  "match op lhs rhs =
     (case op of
        NM_CONDITION_OPERATOR_STRING_EQUALS \<Rightarrow> string_equals lhs rhs
      | NM_CONDITION_OPERATOR_STRING_NOT_EQUALS \<Rightarrow> string_not_equals lhs rhs
      | NM_CONDITION_OPERATOR_BOOL \<Rightarrow> bool_equals lhs rhs
      | _ \<Rightarrow> nm_condition_numeric_operator op lhs rhs)"

definition resolve_value :: "'z nn_lib_scheme \<Rightarrow> attributes \<Rightarrow> string \<Rightarrow> string option" where
  "resolve_value nn attributes v =
     (let valueLength = length v in
      if valueLength < 3 then Some v
      else if take 2 v = ''${'' \<and> take 1 (drop (valueLength - 1) v) = ''}'' then
        sm_getn nn attributes (drop 2 v) (valueLength - 3)
      else Some v)"

text \<open>The loop over the values of the condition.\<close>

fun match_values ::
    "'z nn_lib_scheme \<Rightarrow> nm_condition_operator \<Rightarrow> attributes \<Rightarrow> string \<Rightarrow> string list \<Rightarrow> nm_condition_result" where
  "match_values nn op attributes attributeValue [] = NM_CONDITION_RESULT_NO_MATCH"
| "match_values nn op attributes attributeValue (v # vs) =
     (case resolve_value nn attributes v of
        Some resolvedValue \<Rightarrow>
          (let r = match op attributeValue resolvedValue in
           if r = NM_CONDITION_RESULT_ERROR \<or> r = NM_CONDITION_RESULT_MATCH then r
           else match_values nn op attributes attributeValue vs)
      | None \<Rightarrow> match_values nn op attributes attributeValue vs)"

definition nm_condition_matches ::
    "'z nn_lib_scheme \<Rightarrow> nm_condition \<Rightarrow> attributes \<Rightarrow> nm_condition_result outcome" where
  "nm_condition_matches nn c attributes =
     (case cond_key c of
        None \<Rightarrow> Inl NullPointer
      | Some key \<Rightarrow>
          (case sm_get nn attributes key of
             None \<Rightarrow> Inr NM_CONDITION_RESULT_NO_MATCH
           | Some attributeValue \<Rightarrow>
               Inr (match_values nn (cond_op c) attributes attributeValue (cond_values c))))"

definition nm_condition_parse_operator :: "string \<Rightarrow> nm_condition_operator option" where
  "nm_condition_parse_operator operation =
     (if operation = ''StringEquals'' then Some NM_CONDITION_OPERATOR_STRING_EQUALS
      else if operation = ''StringNotEquals'' then Some NM_CONDITION_OPERATOR_STRING_NOT_EQUALS
      else if operation = ''NumericEquals'' then Some NM_CONDITION_OPERATOR_NUMERIC_EQUALS
      else if operation = ''NumericNotEquals'' then Some NM_CONDITION_OPERATOR_NUMERIC_NOT_EQUALS
      else if operation = ''NumericLessThan'' then Some NM_CONDITION_OPERATOR_NUMERIC_LESS_THAN
      else if operation = ''NumericLessThanEquals'' then Some NM_CONDITION_OPERATOR_NUMERIC_LESS_THAN_EQUALS
      else if operation = ''NumericGreaterThan'' then Some NM_CONDITION_OPERATOR_NUMERIC_GREATER_THAN
      else if operation = ''NumericGreaterThanEquals'' then Some NM_CONDITION_OPERATOR_NUMERIC_GREATER_THAN_EQUALS
      else if operation = ''Bool'' then Some NM_CONDITION_OPERATOR_BOOL
      else None)"

fun nm_condition_operator_to_string :: "nm_condition_operator \<Rightarrow> string" where
  "nm_condition_operator_to_string NM_CONDITION_OPERATOR_STRING_EQUALS = ''StringEquals''"
| "nm_condition_operator_to_string NM_CONDITION_OPERATOR_STRING_NOT_EQUALS = ''StringNotEquals''"
| "nm_condition_operator_to_string NM_CONDITION_OPERATOR_NUMERIC_EQUALS = ''NumericEquals''"
| "nm_condition_operator_to_string NM_CONDITION_OPERATOR_NUMERIC_NOT_EQUALS = ''NumericNotEquals''"
| "nm_condition_operator_to_string NM_CONDITION_OPERATOR_NUMERIC_LESS_THAN = ''NumericLessThan''"
| "nm_condition_operator_to_string NM_CONDITION_OPERATOR_NUMERIC_LESS_THAN_EQUALS = ''NumericLessThanEquals''"
| "nm_condition_operator_to_string NM_CONDITION_OPERATOR_NUMERIC_GREATER_THAN = ''NumericGreaterThan''"
| "nm_condition_operator_to_string NM_CONDITION_OPERATOR_NUMERIC_GREATER_THAN_EQUALS = ''NumericGreaterThanEquals''"
| "nm_condition_operator_to_string NM_CONDITION_OPERATOR_BOOL = ''Bool''"

section \<open>Statements\<close>

datatype nm_effect = NM_EFFECT_ALLOW | NM_EFFECT_DENY | NM_EFFECT_NO_MATCH | NM_EFFECT_ERROR

record nm_statement =
  st_effect :: nm_effect
  st_actions :: "string list"
  st_conditions :: "nm_condition list"

definition nm_statement_new :: "nm_effect \<Rightarrow> heap \<Rightarrow> nm_statement option \<times> heap" where
  "nm_statement_new e h =
     (case alloc h of (b, h') \<Rightarrow>
        (if b then Some \<lparr>st_effect = e, st_actions = [], st_conditions = []\<rparr> else None, h'))"

fun match_conditions ::
    "'z nn_lib_scheme \<Rightarrow> nm_condition list \<Rightarrow> attributes \<Rightarrow> nm_condition_result outcome" where
  "match_conditions nn [] attributes = Inr NM_CONDITION_RESULT_MATCH"
| "match_conditions nn (c # cs) attributes =
     obind (nm_condition_matches nn c attributes) (\<lambda>r.
       if r = NM_CONDITION_RESULT_NO_MATCH \<or> r = NM_CONDITION_RESULT_ERROR then Inr r
       else match_conditions nn cs attributes)"

definition nm_statement_eval ::
    "'z nn_lib_scheme \<Rightarrow> nm_statement \<Rightarrow> string \<Rightarrow> attributes \<Rightarrow> nm_effect outcome" where
  "nm_statement_eval nn statement action attributes =
     (if \<not> ss_contains nn (st_actions statement) action then Inr NM_EFFECT_NO_MATCH
      else obind (match_conditions nn (st_conditions statement) attributes) (\<lambda>r.
        if r = NM_CONDITION_RESULT_NO_MATCH then Inr NM_EFFECT_NO_MATCH
        else if r = NM_CONDITION_RESULT_ERROR then Inr NM_EFFECT_ERROR
        else Inr (st_effect statement)))"

definition nm_statement_add_action :: "'z nn_lib_scheme \<Rightarrow> nm_statement \<Rightarrow> string \<Rightarrow> bool \<times> nm_statement" where
  "nm_statement_add_action nn statement action =
     (case ss_insert nn (st_actions statement) action of (b, s) \<Rightarrow> (b, statement\<lparr>st_actions := s\<rparr>))"

section \<open>Policies\<close>

record nm_policy =
  policy_id :: string
  policy_statements :: "nm_statement list"

record nm_policy_eval_state =
  eval_effect :: nm_effect

definition nm_policy_new :: "string \<Rightarrow> heap \<Rightarrow> nm_policy option \<times> heap" where
  "nm_policy_new idIn h =
     (case strdup idIn h of (i, h1) \<Rightarrow>
      case alloc h1 of (b, h2) \<Rightarrow>
      (case i of
         Some s \<Rightarrow> if b then Some \<lparr>policy_id = s, policy_statements = []\<rparr> else None
       | None \<Rightarrow> None, h2))"

definition nm_policy_add_statement :: "'z nn_lib_scheme \<Rightarrow> nm_policy \<Rightarrow> nm_statement \<Rightarrow> bool \<times> nm_policy" where
  "nm_policy_add_statement nn policy stmt =
     (case nn_vector_push_back nn (policy_statements policy) stmt of
        (b, ss) \<Rightarrow> (b, policy\<lparr>policy_statements := ss\<rparr>))"

definition nm_policy_eval_init :: nm_policy_eval_state where
  "nm_policy_eval_init = \<lparr>eval_effect = NM_EFFECT_NO_MATCH\<rparr>"

definition nm_policy_eval_get_effect :: "nm_policy_eval_state \<Rightarrow> nm_effect" where
  "nm_policy_eval_get_effect s = eval_effect s"

definition nm_policy_statement_eval ::
    "'z nn_lib_scheme \<Rightarrow> nm_policy_eval_state \<Rightarrow> nm_statement \<Rightarrow> string \<Rightarrow> attributes \<Rightarrow> nm_policy_eval_state outcome" where
  "nm_policy_statement_eval nn s statement action attributes =
     (if eval_effect s = NM_EFFECT_DENY \<or> eval_effect s = NM_EFFECT_ERROR then Inr s
      else obind (nm_statement_eval nn statement action attributes) (\<lambda>e.
        if e = NM_EFFECT_ERROR \<or> e = NM_EFFECT_DENY \<or> e = NM_EFFECT_ALLOW
        then Inr (s\<lparr>eval_effect := e\<rparr>) else Inr s))"

fun eval_statements ::
    "'z nn_lib_scheme \<Rightarrow> nm_policy_eval_state \<Rightarrow> nm_statement list \<Rightarrow> string \<Rightarrow> attributes \<Rightarrow> nm_policy_eval_state outcome" where
  "eval_statements nn s [] action attributes = Inr s"
| "eval_statements nn s (st # sts) action attributes =
     obind (nm_policy_statement_eval nn s st action attributes) (\<lambda>s'.
       eval_statements nn s' sts action attributes)"

definition nm_policy_eval ::
    "'z nn_lib_scheme \<Rightarrow> nm_policy_eval_state \<Rightarrow> nm_policy \<Rightarrow> string \<Rightarrow> attributes \<Rightarrow> nm_policy_eval_state outcome" where
  "nm_policy_eval nn s policy action attributes =
     eval_statements nn s (policy_statements policy) action attributes"

definition nm_policy_eval_simple ::
    "'z nn_lib_scheme \<Rightarrow> nm_policy \<Rightarrow> string \<Rightarrow> attributes \<Rightarrow> nm_effect outcome" where
  "nm_policy_eval_simple nn policy action attributes =
     obind (nm_policy_eval nn nm_policy_eval_init policy action attributes) (\<lambda>s.
       Inr (nm_policy_eval_get_effect s))"

section \<open>Specification\<close>

definition condition_wf :: "nm_condition \<Rightarrow> bool" where
  "condition_wf c = (cond_key c \<noteq> None)"

definition policy_wf :: "nm_policy \<Rightarrow> bool" where
  "policy_wf p = (\<forall>st\<in>set (policy_statements p). \<forall>c\<in>set (st_conditions st). condition_wf c)"

text \<open>The decision over the effects of the statements: the first denial or error, else an allowance.\<close>

definition final_effect :: "nm_effect \<Rightarrow> bool" where
  "final_effect e = (e = NM_EFFECT_DENY \<or> e = NM_EFFECT_ERROR)"

definition decide :: "nm_effect \<Rightarrow> nm_effect list \<Rightarrow> nm_effect" where
  "decide e0 es =
     (case find final_effect (e0 # es) of
        Some e \<Rightarrow> e
      | None \<Rightarrow> if NM_EFFECT_ALLOW \<in> set (e0 # es) then NM_EFFECT_ALLOW else NM_EFFECT_NO_MATCH)"

section \<open>Operators\<close>

text \<open>
  The names of the operators are in one to one correspondence with the operators: a printed
  operator parses to itself, and only its own name parses to it.
\<close>

lemma nm_condition_operator_roundtrip:
  "nm_condition_parse_operator s = Some op \<longleftrightarrow> s = nm_condition_operator_to_string op"
  by (cases op) (auto simp: nm_condition_parse_operator_def)

section \<open>Conditions and statements never fail on well-formed policies\<close>

lemma nm_condition_matches_total:
  "condition_wf c \<Longrightarrow> \<exists>r. nm_condition_matches nn c attributes = Inr r"
  by (auto simp: nm_condition_matches_def condition_wf_def split: option.splits)

lemma match_conditions_total:
  "\<forall>c\<in>set cs. condition_wf c \<Longrightarrow> \<exists>r. match_conditions nn cs attributes = Inr r"
proof (induction cs)
  case (Cons c cs)
  then show ?case using nm_condition_matches_total [of c nn attributes] by auto
qed simp

lemma nm_statement_eval_total:
  "\<forall>c\<in>set (st_conditions st). condition_wf c \<Longrightarrow> \<exists>e. nm_statement_eval nn st action attributes = Inr e"
  using match_conditions_total [of "st_conditions st" nn attributes]
  by (auto simp: nm_statement_eval_def)

lemma match_conditions_match_iff:
  "match_conditions nn cs attributes = Inr NM_CONDITION_RESULT_MATCH \<longleftrightarrow>
     (\<forall>c\<in>set cs. nm_condition_matches nn c attributes = Inr NM_CONDITION_RESULT_MATCH)"
proof (induction cs)
  case (Cons c cs)
  show ?case
  proof (cases "nm_condition_matches nn c attributes")
    case (Inr r)
    then show ?thesis using Cons by (cases r) auto
  qed simp
qed simp

text \<open>
  C20. A statement takes effect exactly when the action is one of its actions and every one of its
  conditions matches.
\<close>

theorem nm_statement_effective_iff:
  assumes "nn_string_set_laws nn" "e = NM_EFFECT_ALLOW \<or> e = NM_EFFECT_DENY"
  shows "nm_statement_eval nn st action attributes = Inr e \<longleftrightarrow>
     st_effect st = e \<and> action \<in> set (st_actions st) \<and>
     (\<forall>c\<in>set (st_conditions st). nm_condition_matches nn c attributes = Inr NM_CONDITION_RESULT_MATCH)"
proof (cases "match_conditions nn (st_conditions st) attributes")
  case (Inl f)
  then show ?thesis
    using assms match_conditions_match_iff [of nn "st_conditions st" attributes]
    by (auto simp: nm_statement_eval_def nn_laws)
next
  case (Inr r)
  then show ?thesis
    using assms match_conditions_match_iff [of nn "st_conditions st" attributes]
    by (cases r) (auto simp: nm_statement_eval_def nn_laws)
qed

section \<open>The decision of a policy\<close>

lemma decide_final: "final_effect e0 \<Longrightarrow> decide e0 es = e0"
  by (simp add: decide_def)

lemma decide_Cons:
  "decide e0 (e # es) = decide (if final_effect e0 then e0 else if e = NM_EFFECT_NO_MATCH then e0 else e) es"
  by (cases e0; cases e) (auto simp: decide_def final_effect_def split: option.splits)

lemma decide_Nil [simp]: "decide e [] = e"
  by (cases e) (auto simp: decide_def final_effect_def)

lemma eval_statements_decide:
  assumes "list_all2 (\<lambda>st e. nm_statement_eval nn st action attributes = Inr e) sts es"
  shows "eval_statements nn s sts action attributes = Inr (s\<lparr>eval_effect := decide (eval_effect s) es\<rparr>)"
  using assms
proof (induction sts es arbitrary: s rule: list_all2_induct)
  case (Cons st sts e es)
  then show ?case
    by (cases "final_effect (eval_effect s)"; cases e)
      (auto simp: nm_policy_statement_eval_def decide_Cons final_effect_def decide_final)
qed simp

lemma decide_allow_iff:
  "decide e0 es = NM_EFFECT_ALLOW \<longleftrightarrow>
     NM_EFFECT_ALLOW \<in> set (e0 # es) \<and> NM_EFFECT_DENY \<notin> set (e0 # es) \<and> NM_EFFECT_ERROR \<notin> set (e0 # es)"
proof (induction es arbitrary: e0)
  case Nil
  show ?case by (cases e0) auto
next
  case (Cons e es)
  show ?case
    unfolding decide_Cons Cons.IH by (cases e0; cases e) (auto simp: final_effect_def)
qed

lemma statement_effects:
  assumes "\<forall>st\<in>set sts. \<forall>c\<in>set (st_conditions st). condition_wf c"
  obtains es where "list_all2 (\<lambda>st e. nm_statement_eval nn st action attributes = Inr e) sts es"
proof -
  have "\<forall>st\<in>set sts. \<exists>e. nm_statement_eval nn st action attributes = Inr e"
    using assms nm_statement_eval_total by blast
  then obtain f where "\<forall>st\<in>set sts. nm_statement_eval nn st action attributes = Inr (f st)" by metis
  then have "list_all2 (\<lambda>st e. nm_statement_eval nn st action attributes = Inr e) sts (map f sts)"
    by (simp add: list_all2_conv_all_nth)
  then show thesis by (rule that)
qed

text \<open>
  C3. Evaluating a well-formed policy always gives an effect, and access is allowed exactly when some
  statement allows it and no statement denies it or fails to evaluate, whatever the order of the
  statements.
\<close>

theorem nm_policy_eval_allow_iff:
  assumes "policy_wf p"
  shows "(\<exists>e. nm_policy_eval_simple nn p action attributes = Inr e) \<and>
    (nm_policy_eval_simple nn p action attributes = Inr NM_EFFECT_ALLOW \<longleftrightarrow>
       (\<exists>st\<in>set (policy_statements p). nm_statement_eval nn st action attributes = Inr NM_EFFECT_ALLOW) \<and>
       (\<forall>st\<in>set (policy_statements p). nm_statement_eval nn st action attributes
          \<notin> {Inr NM_EFFECT_DENY, Inr NM_EFFECT_ERROR}))"
proof -
  obtain es where es: "list_all2 (\<lambda>st e. nm_statement_eval nn st action attributes = Inr e) (policy_statements p) es"
    using assms statement_effects unfolding policy_wf_def by blast
  have eval: "nm_policy_eval_simple nn p action attributes = Inr (decide NM_EFFECT_NO_MATCH es)"
    by (simp add: nm_policy_eval_simple_def nm_policy_eval_def nm_policy_eval_init_def
        nm_policy_eval_get_effect_def eval_statements_decide [OF es])
  have mem: "e \<in> set es \<longleftrightarrow> (\<exists>st\<in>set (policy_statements p). nm_statement_eval nn st action attributes = Inr e)" for e
    using es by (force simp: list_all2_conv_all_nth in_set_conv_nth)
  show ?thesis unfolding eval by (auto simp: decide_allow_iff mem)
qed

section \<open>Variables and string conditions\<close>

lemma resolve_variable:
  "nn_string_map_laws nn \<Longrightarrow> distinct (map fst m) \<Longrightarrow>
     resolve_value nn m (''${'' @ x @ ''}'') = map_of m x"
  by (simp add: resolve_value_def nn_laws)

lemma variable_shape:
  assumes "3 \<le> length v" "take 2 v = ''${''" "take 1 (drop (length v - 1) v) = ''}''"
  shows "v = ''${'' @ take (length v - 3) (drop 2 v) @ ''}''"
proof -
  have "v = take 2 v @ take (length v - 3) (drop 2 v) @ drop (length v - 3) (drop 2 v)"
    by (simp only: append_take_drop_id)
  moreover have "drop (length v - 3) (drop 2 v) = drop (length v - 1) v"
    using assms(1) by (simp add: Suc_diff_Suc numeral_3_eq_3 numeral_2_eq_2 Suc_diff_le)
  moreover have "drop (length v - 1) v = ''}''"
    using assms(1,3) by (simp add: take_all)
  ultimately show ?thesis using assms(2) by metis
qed

lemma resolve_literal:
  assumes "\<nexists>x. v = ''${'' @ x @ ''}''"
  shows "resolve_value nn m v = Some v"
  using assms variable_shape [of v] by (auto simp: resolve_value_def Let_def)

lemma match_values_string_equals:
  "match_values nn NM_CONDITION_OPERATOR_STRING_EQUALS m av vs = NM_CONDITION_RESULT_MATCH \<longleftrightarrow>
     (\<exists>v\<in>set vs. resolve_value nn m v = Some av)"
  by (induction vs) (auto simp: match_def string_equals_def status_def split: option.splits)

text \<open>
  C22. A string equality condition matches exactly when the attribute of its key is present and equal
  to one of its values, a value \<open>${x}\<close> standing for the attribute \<open>x\<close>; a variable without an
  attribute never matches.
\<close>

theorem nm_condition_string_equals_iff:
  assumes "nn_string_map_laws nn" "distinct (map fst m)" "cond_key c = Some key"
    "cond_op c = NM_CONDITION_OPERATOR_STRING_EQUALS"
  shows "nm_condition_matches nn c m = Inr NM_CONDITION_RESULT_MATCH \<longleftrightarrow>
     (\<exists>av. map_of m key = Some av \<and>
        (\<exists>v\<in>set (cond_values c).
           (v = av \<and> (\<nexists>x. v = ''${'' @ x @ ''}'')) \<or> (\<exists>x. v = ''${'' @ x @ ''}'' \<and> map_of m x = Some av)))"
proof -
  have res: "resolve_value nn m v = Some av \<longleftrightarrow>
      (v = av \<and> (\<nexists>x. v = ''${'' @ x @ ''}'')) \<or> (\<exists>x. v = ''${'' @ x @ ''}'' \<and> map_of m x = Some av)" for v av
    by (cases "\<exists>x. v = ''${'' @ x @ ''}''")
      (use resolve_variable [OF assms(1,2)] resolve_literal [of v nn m] in auto)
  show ?thesis
    using assms unfolding res [symmetric]
    by (cases "map_of m key") (auto simp: nm_condition_matches_def nn_laws match_values_string_equals)
qed

theorem nm_condition_string_equals_iff_witness:
  "nm_condition_matches nn_by_lists
     \<lparr>cond_op = NM_CONDITION_OPERATOR_STRING_EQUALS, cond_key = Some ''k'', cond_values = [''a'', ''${u}'']\<rparr>
     [(''k'', ''alice''), (''u'', ''alice'')] = Inr NM_CONDITION_RESULT_MATCH"
  by (subst nm_condition_string_equals_iff [of _ _ _ "''k''"]) simp_all

theorem nm_statement_effective_iff_witness:
  "nm_statement_eval nn_by_lists \<lparr>st_effect = NM_EFFECT_DENY, st_actions = [''a'', ''b''], st_conditions = []\<rparr> ''b'' []
     = Inr NM_EFFECT_DENY"
  using nm_statement_effective_iff [of nn_by_lists NM_EFFECT_DENY
      "\<lparr>st_effect = NM_EFFECT_DENY, st_actions = [''a'', ''b''], st_conditions = []\<rparr>" "''b''" "[]"]
  by simp

theorem nm_policy_eval_allow_iff_witness:
  "nm_policy_eval_simple nn_by_lists
     \<lparr>policy_id = ''p'', policy_statements =
        [\<lparr>st_effect = NM_EFFECT_ALLOW, st_actions = [''a''], st_conditions = []\<rparr>,
         \<lparr>st_effect = NM_EFFECT_DENY, st_actions = [''b''], st_conditions = []\<rparr>]\<rparr> ''a'' [] = Inr NM_EFFECT_ALLOW"
  using nm_policy_eval_allow_iff [of "\<lparr>policy_id = ''p'', policy_statements =
        [\<lparr>st_effect = NM_EFFECT_ALLOW, st_actions = [''a''], st_conditions = []\<rparr>,
         \<lparr>st_effect = NM_EFFECT_DENY, st_actions = [''b''], st_conditions = []\<rparr>]\<rparr>" nn_by_lists "''a''" "[]"]
  by (simp add: policy_wf_def nm_statement_eval_def nn_by_lists_def)

end
