(* ===== verification/CJson.thy ===== *)
theory CJson
  imports CStd
begin

text \<open>
  The JSON trees of \<^verbatim>\<open>3rdparty/cjson/cjson/cJSON.c\<close>: accessors and constructors that the SDK's
  modules call. A pointer to a tree is an option, the sibling list of a node is a list.
\<close>

datatype cjson_type =
    cJSON_Invalid | cJSON_False | cJSON_True | cJSON_NULL | cJSON_Number | cJSON_String
  | cJSON_Array | cJSON_Object | cJSON_Raw

datatype cjson =
  CJson (cj_child: "cjson list") (cj_type: cjson_type) (cj_valuestring: "string option")
    (cj_valueint: int) (cj_valuedouble: double) (cj_string: "string option")

section \<open>Accessors\<close>

definition is_type :: "cjson_type \<Rightarrow> cjson option \<Rightarrow> bool" where
  "is_type t item = (case item of None \<Rightarrow> False | Some i \<Rightarrow> cj_type i = t)"

definition cJSON_IsString :: "cjson option \<Rightarrow> bool" where
  "cJSON_IsString = is_type cJSON_String"

definition cJSON_IsArray :: "cjson option \<Rightarrow> bool" where
  "cJSON_IsArray = is_type cJSON_Array"

definition cJSON_IsObject :: "cjson option \<Rightarrow> bool" where
  "cJSON_IsObject = is_type cJSON_Object"

definition cJSON_GetArraySize :: "cjson option \<Rightarrow> nat" where
  "cJSON_GetArraySize array = (case array of None \<Rightarrow> 0 | Some a \<Rightarrow> length (cj_child a))"

definition cJSON_GetArrayItem :: "cjson option \<Rightarrow> nat \<Rightarrow> cjson option" where
  "cJSON_GetArrayItem array index =
     (case array of
        None \<Rightarrow> None
      | Some a \<Rightarrow> if index < length (cj_child a) then Some (cj_child a ! index) else None)"

definition case_insensitive_equal :: "string \<Rightarrow> string option \<Rightarrow> bool" where
  "case_insensitive_equal s t = (case t of None \<Rightarrow> False | Some t' \<Rightarrow> map tolower s = map tolower t')"

definition cJSON_GetObjectItem :: "cjson option \<Rightarrow> string \<Rightarrow> cjson option" where
  "cJSON_GetObjectItem object name =
     (case object of None \<Rightarrow> None | Some ob \<Rightarrow> find (\<lambda>c. case_insensitive_equal name (cj_string c)) (cj_child ob))"

section \<open>Constructors\<close>

definition cJSON_New_Item :: "heap \<Rightarrow> cjson option \<times> heap" where
  "cJSON_New_Item h =
     (case alloc h of (b, h') \<Rightarrow> (if b then Some (CJson [] cJSON_Invalid None 0 (Fin 0) None) else None, h'))"

definition set_type :: "cjson_type \<Rightarrow> cjson \<Rightarrow> cjson" where
  "set_type t c = CJson (cj_child c) t (cj_valuestring c) (cj_valueint c) (cj_valuedouble c) (cj_string c)"

definition cJSON_CreateString :: "string \<Rightarrow> heap \<Rightarrow> cjson option \<times> heap" where
  "cJSON_CreateString s h =
     (case cJSON_New_Item h of
        (None, h1) \<Rightarrow> (None, h1)
      | (Some item, h1) \<Rightarrow>
          (case strdup s h1 of
             (None, h2) \<Rightarrow> (None, h2)
           | (Some v, h2) \<Rightarrow> (Some (CJson [] cJSON_String (Some v) (cj_valueint item) (cj_valuedouble item) None), h2)))"

definition cJSON_CreateArray :: "heap \<Rightarrow> cjson option \<times> heap" where
  "cJSON_CreateArray h = apfst (map_option (set_type cJSON_Array)) (cJSON_New_Item h)"

definition cJSON_CreateObject :: "heap \<Rightarrow> cjson option \<times> heap" where
  "cJSON_CreateObject h = apfst (map_option (set_type cJSON_Object)) (cJSON_New_Item h)"

text \<open>The array after the call; a null array or item leaves it as it was.\<close>

definition add_item_to_array :: "cjson option \<Rightarrow> cjson option \<Rightarrow> cjson option" where
  "add_item_to_array array item =
     (case (array, item) of
        (Some a, Some i) \<Rightarrow>
          Some (CJson (cj_child a @ [i]) (cj_type a) (cj_valuestring a) (cj_valueint a) (cj_valuedouble a) (cj_string a))
      | _ \<Rightarrow> array)"

definition cJSON_AddItemToArray :: "cjson option \<Rightarrow> cjson option \<Rightarrow> cjson option" where
  "cJSON_AddItemToArray array item = add_item_to_array array item"

definition add_item_to_object ::
    "cjson option \<Rightarrow> string option \<Rightarrow> cjson option \<Rightarrow> heap \<Rightarrow> cjson option \<times> heap" where
  "add_item_to_object object name item h =
     (case (object, name, item) of
        (Some ob, Some n, Some i) \<Rightarrow>
          (case strdup n h of
             (None, h1) \<Rightarrow> (object, h1)
           | (Some key, h1) \<Rightarrow>
               (add_item_to_array object (Some (CJson (cj_child i) (cj_type i) (cj_valuestring i)
                  (cj_valueint i) (cj_valuedouble i) (Some key))), h1))
      | _ \<Rightarrow> (object, h))"

definition cJSON_AddItemToObject ::
    "cjson option \<Rightarrow> string option \<Rightarrow> cjson option \<Rightarrow> heap \<Rightarrow> cjson option \<times> heap" where
  "cJSON_AddItemToObject object name item h = add_item_to_object object name item h"

section \<open>Without allocation failures\<close>

text \<open>The trees the constructors build when memory is available.\<close>

definition js_string :: "string \<Rightarrow> cjson" where
  "js_string s = CJson [] cJSON_String (Some s) 0 (Fin 0) None"

definition js_array :: "cjson list \<Rightarrow> cjson" where
  "js_array cs = CJson cs cJSON_Array None 0 (Fin 0) None"

definition js_object :: "cjson list \<Rightarrow> cjson" where
  "js_object cs = CJson cs cJSON_Object None 0 (Fin 0) None"

definition named :: "string \<Rightarrow> cjson \<Rightarrow> cjson" where
  "named n c = CJson (cj_child c) (cj_type c) (cj_valuestring c) (cj_valueint c) (cj_valuedouble c) (Some n)"

named_theorems cjson_simps \<open>trees built without allocation failures, and reading them back\<close>

lemma create_no_fail [cjson_simps]:
  "cJSON_CreateString s [] = (Some (js_string s), [])"
  "cJSON_CreateArray [] = (Some (js_array []), [])"
  "cJSON_CreateObject [] = (Some (js_object []), [])"
  by (simp_all add: cJSON_CreateString_def cJSON_CreateArray_def cJSON_CreateObject_def
      cJSON_New_Item_def set_type_def js_string_def js_array_def js_object_def)

lemma add_no_fail [cjson_simps]:
  "cJSON_AddItemToArray (Some (js_array cs)) (Some i) = Some (js_array (cs @ [i]))"
  "cJSON_AddItemToObject (Some (js_object cs)) (Some n) (Some i) [] = (Some (js_object (cs @ [named n i])), [])"
  by (simp_all add: cJSON_AddItemToArray_def cJSON_AddItemToObject_def add_item_to_object_def
      add_item_to_array_def js_array_def js_object_def named_def)

lemma is_type_js [cjson_simps]:
  "cJSON_IsString (Some (js_string s))" "cJSON_IsArray (Some (js_array cs))" "cJSON_IsObject (Some (js_object cs))"
  "cJSON_IsString (Some (named n c)) = cJSON_IsString (Some c)"
  "cJSON_IsArray (Some (named n c)) = cJSON_IsArray (Some c)"
  "cJSON_IsObject (Some (named n c)) = cJSON_IsObject (Some c)"
  "\<not> cJSON_IsArray None"
  by (simp_all add: cJSON_IsString_def cJSON_IsArray_def cJSON_IsObject_def is_type_def js_string_def
      js_array_def js_object_def named_def)

lemma fields_js [cjson_simps]:
  "cj_child (js_array cs) = cs" "cj_child (js_object cs) = cs" "cj_child (named n c) = cj_child c"
  "cj_valuestring (js_string s) = Some s" "cj_valuestring (named n c) = cj_valuestring c"
  "cj_string (named n c) = Some n"
  by (simp_all add: js_string_def js_array_def js_object_def named_def)

lemma get_object_item_js [cjson_simps]:
  "cJSON_GetObjectItem (Some (js_object [])) name = None"
  "cJSON_GetObjectItem (Some (js_object (named n c # cs))) name =
     (if map tolower name = map tolower n then Some (named n c) else cJSON_GetObjectItem (Some (js_object cs)) name)"
  by (simp_all add: cJSON_GetObjectItem_def js_object_def named_def case_insensitive_equal_def)

end
