(* ===== verification/NmPoliciesJson.thy ===== *)
theory NmPoliciesJson
  imports NmPolicies CJson
begin

text \<open>
  Reading policies from JSON trees (\<^verbatim>\<open>nm_policies_from_json.c\<close>) and writing them
  (\<^verbatim>\<open>nm_policies_to_json.c\<close>). Allocation may fail at every call that allocates; a null string that is
  read is a fault.
\<close>

section \<open>From JSON\<close>

text \<open>The loop over the values; the result of the insertion is not looked at.\<close>

fun condition_values_from_json ::
    "'z nn_lib_scheme \<Rightarrow> cjson list \<Rightarrow> nm_condition \<Rightarrow> (bool \<times> nm_condition) outcome" where
  "condition_values_from_json nn [] c = Inr (True, c)"
| "condition_values_from_json nn (v # vs) c =
     (if \<not> cJSON_IsString (Some v) then Inr (False, c)
      else obind (deref (cj_valuestring v)) (\<lambda>s.
        condition_values_from_json nn vs (c\<lparr>cond_values := snd (ss_insert nn (cond_values c) s)\<rparr>)))"

definition nm_condition_from_json_parse ::
    "'z nn_lib_scheme \<Rightarrow> cjson option \<Rightarrow> nm_condition \<Rightarrow> heap \<Rightarrow> ((bool \<times> nm_condition) \<times> heap) outcome" where
  "nm_condition_from_json_parse nn kv c h =
     (case kv of
        Some k \<Rightarrow>
          if \<not> cJSON_IsArray kv then Inr ((False, c), h)
          else obind (deref (cj_string k)) (\<lambda>name.
            case strdup name h of (key, h') \<Rightarrow>
              obind (condition_values_from_json nn (cj_child k) (c\<lparr>cond_key := key\<rparr>)) (\<lambda>r. Inr (r, h')))
      | None \<Rightarrow> Inr ((False, c), h))"

definition nm_condition_from_json ::
    "'z nn_lib_scheme \<Rightarrow> cjson option \<Rightarrow> heap \<Rightarrow> (nm_condition option \<times> heap) outcome" where
  "nm_condition_from_json nn json h =
     (if \<not> cJSON_IsObject json then Inr (None, h)
      else
        let operation = cJSON_GetArrayItem json 0 in
        (case operation of
           None \<Rightarrow> Inr (None, h)
         | Some opn \<Rightarrow>
             if \<not> cJSON_IsObject operation then Inr (None, h)
             else obind (deref (cj_string opn)) (\<lambda>name.
               case nm_condition_parse_operator name of
                 None \<Rightarrow> Inr (None, h)
               | Some op \<Rightarrow>
                   (case nm_condition_new op h of
                      (None, h1) \<Rightarrow> Inr (None, h1)
                    | (Some c, h1) \<Rightarrow>
                        obind (nm_condition_from_json_parse nn (cJSON_GetArrayItem operation 0) c h1)
                          (\<lambda>((ok, c'), h2). Inr (if ok then Some c' else None, h2))))))"

fun actions_from_json ::
    "'z nn_lib_scheme \<Rightarrow> cjson list \<Rightarrow> nm_statement \<Rightarrow> (bool \<times> nm_statement) outcome" where
  "actions_from_json nn [] s = Inr (True, s)"
| "actions_from_json nn (a # as) s =
     (if \<not> cJSON_IsString (Some a) then Inr (False, s)
      else obind (deref (cj_valuestring a)) (\<lambda>v.
        case nm_statement_add_action nn s v of
          (ok, s') \<Rightarrow> if ok then actions_from_json nn as s' else Inr (False, s')))"

fun conditions_from_json ::
    "'z nn_lib_scheme \<Rightarrow> cjson list \<Rightarrow> nm_statement \<Rightarrow> heap \<Rightarrow> ((bool \<times> nm_statement) \<times> heap) outcome" where
  "conditions_from_json nn [] s h = Inr ((True, s), h)"
| "conditions_from_json nn (c # cs) s h =
     obind (nm_condition_from_json nn (Some c) h) (\<lambda>(tmp, h1).
       case tmp of
         None \<Rightarrow> Inr ((False, s), h1)
       | Some cond \<Rightarrow>
           (case nn_vector_push_back nn (st_conditions s) cond of
              (ok, xs) \<Rightarrow>
                if ok then conditions_from_json nn cs (s\<lparr>st_conditions := xs\<rparr>) h1
                else Inr ((False, s), h1)))"

definition nm_statement_from_json_parse ::
    "'z nn_lib_scheme \<Rightarrow> cjson option \<Rightarrow> cjson option \<Rightarrow> nm_statement \<Rightarrow> heap
       \<Rightarrow> ((bool \<times> nm_statement) \<times> heap) outcome" where
  "nm_statement_from_json_parse nn actions conditions s h =
     obind (actions_from_json nn (case actions of None \<Rightarrow> [] | Some a \<Rightarrow> cj_child a) s) (\<lambda>(ok, s1).
       if \<not> ok then Inr ((False, s1), h)
       else if cJSON_IsArray conditions
       then conditions_from_json nn (case conditions of None \<Rightarrow> [] | Some c \<Rightarrow> cj_child c) s1 h
       else Inr ((True, s1), h))"

definition nm_statement_from_json ::
    "'z nn_lib_scheme \<Rightarrow> cjson option \<Rightarrow> heap \<Rightarrow> (nm_statement option \<times> heap) outcome" where
  "nm_statement_from_json nn json h =
     (if \<not> cJSON_IsObject json then Inr (None, h)
      else
        let effect = cJSON_GetObjectItem json ''Effect'';
            actions = cJSON_GetObjectItem json ''Actions'';
            conditions = cJSON_GetObjectItem json ''Conditions'' in
        if \<not> cJSON_IsString effect \<or> \<not> cJSON_IsArray actions then Inr (None, h)
        else obind (obind (deref effect) (\<lambda>e. deref (cj_valuestring e))) (\<lambda>effectString.
          case (if effectString = ''Allow'' then Some NM_EFFECT_ALLOW
                else if effectString = ''Deny'' then Some NM_EFFECT_DENY else None) of
            None \<Rightarrow> Inr (None, h)
          | Some e \<Rightarrow>
              (case nm_statement_new e h of
                 (None, h1) \<Rightarrow> Inr (None, h1)
               | (Some s, h1) \<Rightarrow>
                   obind (nm_statement_from_json_parse nn actions conditions s h1)
                     (\<lambda>((ok, s'), h2). Inr (if ok then Some s' else None, h2)))))"

text \<open>The result of pushing the statement is not looked at.\<close>

fun nm_policy_from_json_parse ::
    "'z nn_lib_scheme \<Rightarrow> cjson list \<Rightarrow> nm_policy \<Rightarrow> heap \<Rightarrow> ((bool \<times> nm_policy) \<times> heap) outcome" where
  "nm_policy_from_json_parse nn [] p h = Inr ((True, p), h)"
| "nm_policy_from_json_parse nn (st # sts) p h =
     obind (nm_statement_from_json nn (Some st) h) (\<lambda>(r, h1).
       case r of
         None \<Rightarrow> Inr ((False, p), h1)
       | Some s \<Rightarrow>
           nm_policy_from_json_parse nn sts
             (p\<lparr>policy_statements := snd (nn_vector_push_back nn (policy_statements p) s)\<rparr>) h1)"

definition nm_policy_from_json ::
    "'z nn_lib_scheme \<Rightarrow> cjson option \<Rightarrow> heap \<Rightarrow> (nm_policy option \<times> heap) outcome" where
  "nm_policy_from_json nn json h =
     (if \<not> cJSON_IsObject json then Inr (None, h)
      else
        let i = cJSON_GetObjectItem json ''Id''; statements = cJSON_GetObjectItem json ''Statements'' in
        if \<not> cJSON_IsString i \<or> \<not> cJSON_IsArray statements then Inr (None, h)
        else obind (obind (deref i) (\<lambda>x. deref (cj_valuestring x))) (\<lambda>idString.
          case nm_policy_new idString h of
            (None, h1) \<Rightarrow> Inr (None, h1)
          | (Some policy, h1) \<Rightarrow>
              obind (nm_policy_from_json_parse nn (case statements of None \<Rightarrow> [] | Some a \<Rightarrow> cj_child a) policy h1)
                (\<lambda>((ok, p), h2). Inr (if ok then Some p else None, h2))))"

section \<open>To JSON\<close>

fun add_strings :: "string list \<Rightarrow> cjson option \<Rightarrow> heap \<Rightarrow> cjson option \<times> heap" where
  "add_strings [] array h = (array, h)"
| "add_strings (s # ss) array h =
     (case cJSON_CreateString s h of (c, h1) \<Rightarrow> add_strings ss (cJSON_AddItemToArray array c) h1)"

definition nm_string_set_to_json :: "string list \<Rightarrow> heap \<Rightarrow> cjson option \<times> heap" where
  "nm_string_set_to_json ss h = (case cJSON_CreateArray h of (array, h1) \<Rightarrow> add_strings ss array h1)"

definition nm_condition_to_json :: "nm_condition \<Rightarrow> heap \<Rightarrow> cjson option \<times> heap" where
  "nm_condition_to_json c h =
     (case cJSON_CreateObject h of (kv, h1) \<Rightarrow>
      case nm_string_set_to_json (cond_values c) h1 of (vs, h2) \<Rightarrow>
      case cJSON_AddItemToObject kv (cond_key c) vs h2 of (kv', h3) \<Rightarrow>
      case cJSON_CreateObject h3 of (op, h4) \<Rightarrow>
      cJSON_AddItemToObject op (Some (nm_condition_operator_to_string (cond_op c))) kv' h4)"

fun add_conditions :: "nm_condition list \<Rightarrow> cjson option \<Rightarrow> heap \<Rightarrow> cjson option \<times> heap" where
  "add_conditions [] array h = (array, h)"
| "add_conditions (c # cs) array h =
     (case nm_condition_to_json c h of (j, h1) \<Rightarrow> add_conditions cs (cJSON_AddItemToArray array j) h1)"

definition nm_conditions_to_json :: "nm_condition list \<Rightarrow> heap \<Rightarrow> cjson option \<times> heap" where
  "nm_conditions_to_json cs h = (case cJSON_CreateArray h of (array, h1) \<Rightarrow> add_conditions cs array h1)"

definition nm_statement_to_json :: "nm_statement \<Rightarrow> heap \<Rightarrow> cjson option \<times> heap" where
  "nm_statement_to_json s h =
     (case cJSON_CreateObject h of (json, h1) \<Rightarrow>
      case (if st_effect s = NM_EFFECT_ALLOW then
              (case cJSON_CreateString ''Allow'' h1 of (c, h2) \<Rightarrow> cJSON_AddItemToObject json (Some ''Effect'') c h2)
            else if st_effect s = NM_EFFECT_DENY then
              (case cJSON_CreateString ''Deny'' h1 of (c, h2) \<Rightarrow> cJSON_AddItemToObject json (Some ''Effect'') c h2)
            else (json, h1)) of (json1, h3) \<Rightarrow>
      case nm_string_set_to_json (st_actions s) h3 of (as, h4) \<Rightarrow>
      case cJSON_AddItemToObject json1 (Some ''Actions'') as h4 of (json2, h5) \<Rightarrow>
      if st_conditions s \<noteq> [] then
        (case nm_conditions_to_json (st_conditions s) h5 of (cs, h6) \<Rightarrow>
         cJSON_AddItemToObject json2 (Some ''Conditions'') cs h6)
      else (json2, h5))"

fun add_statements :: "nm_statement list \<Rightarrow> cjson option \<Rightarrow> heap \<Rightarrow> cjson option \<times> heap" where
  "add_statements [] array h = (array, h)"
| "add_statements (s # ss) array h =
     (case nm_statement_to_json s h of (j, h1) \<Rightarrow> add_statements ss (cJSON_AddItemToArray array j) h1)"

definition nm_statements_to_json :: "nm_statement list \<Rightarrow> heap \<Rightarrow> cjson option \<times> heap" where
  "nm_statements_to_json ss h = (case cJSON_CreateArray h of (array, h1) \<Rightarrow> add_statements ss array h1)"

definition nm_policy_to_json :: "nm_policy \<Rightarrow> heap \<Rightarrow> cjson option \<times> heap" where
  "nm_policy_to_json p h =
     (case cJSON_CreateObject h of (json, h1) \<Rightarrow>
      case cJSON_CreateString (policy_id p) h1 of (i, h2) \<Rightarrow>
      case cJSON_AddItemToObject json (Some ''Id'') i h2 of (json1, h3) \<Rightarrow>
      case nm_statements_to_json (policy_statements p) h3 of (sts, h4) \<Rightarrow>
      cJSON_AddItemToObject json1 (Some ''Statements'') sts h4)"

section \<open>Specification\<close>

definition condition_equiv :: "nm_condition \<Rightarrow> nm_condition \<Rightarrow> bool" where
  "condition_equiv c d \<longleftrightarrow>
     cond_op d = cond_op c \<and> cond_key d = cond_key c \<and> set (cond_values d) = set (cond_values c)"

definition statement_equiv :: "nm_statement \<Rightarrow> nm_statement \<Rightarrow> bool" where
  "statement_equiv s t \<longleftrightarrow>
     st_effect t = st_effect s \<and> set (st_actions t) = set (st_actions s) \<and>
     list_all2 condition_equiv (st_conditions s) (st_conditions t)"

definition policy_equiv :: "nm_policy \<Rightarrow> nm_policy \<Rightarrow> bool" where
  "policy_equiv p q \<longleftrightarrow>
     policy_id q = policy_id p \<and> list_all2 statement_equiv (policy_statements p) (policy_statements q)"

definition policy_effects_ok :: "nm_policy \<Rightarrow> bool" where
  "policy_effects_ok p = (\<forall>s\<in>set (policy_statements p). st_effect s = NM_EFFECT_ALLOW \<or> st_effect s = NM_EFFECT_DENY)"

text \<open>The trees written for the parts of a policy.\<close>

definition strings_js :: "string list \<Rightarrow> cjson" where
  "strings_js ss = js_array (map js_string ss)"

definition condition_js :: "nm_condition \<Rightarrow> cjson" where
  "condition_js c =
     js_object [named (nm_condition_operator_to_string (cond_op c))
       (js_object [named (the (cond_key c)) (strings_js (cond_values c))])]"

definition effect_js :: "nm_effect \<Rightarrow> cjson" where
  "effect_js e = js_string (if e = NM_EFFECT_ALLOW then ''Allow'' else ''Deny'')"

definition statement_js :: "nm_statement \<Rightarrow> cjson" where
  "statement_js s =
     js_object ([named ''Effect'' (effect_js (st_effect s)), named ''Actions'' (strings_js (st_actions s))]
       @ (if st_conditions s = [] then [] else [named ''Conditions'' (js_array (map condition_js (st_conditions s)))]))"

definition policy_js :: "nm_policy \<Rightarrow> cjson" where
  "policy_js p =
     js_object [named ''Id'' (js_string (policy_id p)),
                named ''Statements'' (js_array (map statement_js (policy_statements p)))]"

definition demo_policy :: nm_policy where
  "demo_policy = \<lparr>policy_id = ''P'', policy_statements =
     [\<lparr>st_effect = NM_EFFECT_DENY, st_actions = [''A'', ''B''],
       st_conditions = [\<lparr>cond_op = NM_CONDITION_OPERATOR_BOOL, cond_key = Some ''k'', cond_values = [''true'']\<rparr>]\<rparr>]\<rparr>"

section \<open>The trees written\<close>

lemma add_strings_js:
  "add_strings ss (Some (js_array cs)) [] = (Some (js_array (cs @ map js_string ss)), [])"
  by (induction ss arbitrary: cs) (simp_all add: cjson_simps)

lemma nm_string_set_to_json_js: "nm_string_set_to_json ss [] = (Some (strings_js ss), [])"
  by (simp add: nm_string_set_to_json_def cjson_simps add_strings_js strings_js_def)

lemma nm_condition_to_json_js: "condition_wf c \<Longrightarrow> nm_condition_to_json c [] = (Some (condition_js c), [])"
  by (auto simp: nm_condition_to_json_def condition_wf_def cjson_simps nm_string_set_to_json_js condition_js_def)

lemma add_conditions_js:
  "\<forall>c\<in>set xs. condition_wf c \<Longrightarrow>
     add_conditions xs (Some (js_array cs)) [] = (Some (js_array (cs @ map condition_js xs)), [])"
  by (induction xs arbitrary: cs) (simp_all add: cjson_simps nm_condition_to_json_js)

lemma nm_statement_to_json_js:
  assumes "\<forall>c\<in>set (st_conditions s). condition_wf c"
    "st_effect s = NM_EFFECT_ALLOW \<or> st_effect s = NM_EFFECT_DENY"
  shows "nm_statement_to_json s [] = (Some (statement_js s), [])"
  using assms
  by (auto simp: nm_statement_to_json_def nm_conditions_to_json_def cjson_simps nm_string_set_to_json_js
      add_conditions_js statement_js_def effect_js_def)

lemma add_statements_js:
  "\<forall>s\<in>set xs. (\<forall>c\<in>set (st_conditions s). condition_wf c) \<and>
        (st_effect s = NM_EFFECT_ALLOW \<or> st_effect s = NM_EFFECT_DENY) \<Longrightarrow>
     add_statements xs (Some (js_array cs)) [] = (Some (js_array (cs @ map statement_js xs)), [])"
  by (induction xs arbitrary: cs) (simp_all add: cjson_simps nm_statement_to_json_js)

lemma nm_policy_to_json_js:
  "policy_wf p \<Longrightarrow> policy_effects_ok p \<Longrightarrow> nm_policy_to_json p [] = (Some (policy_js p), [])"
  by (simp add: nm_policy_to_json_def nm_statements_to_json_def cjson_simps policy_wf_def
      policy_effects_ok_def add_statements_js policy_js_def)

section \<open>Reading the trees\<close>

lemma condition_values_from_json_js:
  assumes "nn_memory_available nn" "nn_string_set_laws nn"
  shows "distinct (cond_values c) \<Longrightarrow>
     \<exists>vs'. condition_values_from_json nn (map js_string vs) c = Inr (True, c\<lparr>cond_values := vs'\<rparr>)
       \<and> set vs' = set (cond_values c) \<union> set vs"
proof (induction vs arbitrary: c)
  case Nil
  then show ?case by (auto intro!: exI [of _ "cond_values c"])
next
  case (Cons v vs)
  from Cons.prems obtain s where s: "ss_insert nn (cond_values c) v = (True, s)" "distinct s"
      "set s = insert v (set (cond_values c))"
    using ss_insert_available [OF assms] by metis
  with Cons.IH [of "c\<lparr>cond_values := s\<rparr>"] show ?case by (auto simp: cjson_simps)
qed

lemma nm_condition_from_json_js:
  assumes "nn_memory_available nn" "nn_string_set_laws nn" "condition_wf c"
  obtains d where "nm_condition_from_json nn (Some (condition_js c)) [] = Inr (Some d, [])" "condition_equiv c d"
proof -
  obtain key where key: "cond_key c = Some key" using assms(3) by (auto simp: condition_wf_def)
  let ?c = "\<lparr>cond_op = cond_op c, cond_key = Some key, cond_values = []\<rparr>"
  obtain vs' where vs': "condition_values_from_json nn (map js_string (cond_values c)) ?c
       = Inr (True, ?c\<lparr>cond_values := vs'\<rparr>)" "set vs' = set (cond_values c)"
    using condition_values_from_json_js [OF assms(1,2), of ?c "cond_values c"] by auto
  have op: "nm_condition_parse_operator (nm_condition_operator_to_string (cond_op c)) = Some (cond_op c)"
    by (cases "cond_op c") (simp_all add: nm_condition_parse_operator_def)
  show thesis
  proof (rule that [of "?c\<lparr>cond_values := vs'\<rparr>"])
    show "nm_condition_from_json nn (Some (condition_js c)) [] = Inr (Some (?c\<lparr>cond_values := vs'\<rparr>), [])"
      using vs'(1)
      by (simp add: nm_condition_from_json_def nm_condition_from_json_parse_def condition_js_def key
          strings_js_def cjson_simps cJSON_GetArrayItem_def nm_condition_new_def op)
    show "condition_equiv c (?c\<lparr>cond_values := vs'\<rparr>)"
      using vs'(2) by (simp add: condition_equiv_def key)
  qed
qed

lemma conditions_from_json_js:
  assumes "nn_memory_available nn" "nn_string_set_laws nn"
  shows "\<forall>c\<in>set cs. condition_wf c \<Longrightarrow>
     \<exists>ds. conditions_from_json nn (map condition_js cs) s [] = Inr ((True, s\<lparr>st_conditions := st_conditions s @ ds\<rparr>), [])
       \<and> list_all2 condition_equiv cs ds"
proof (induction cs arbitrary: s)
  case (Cons c cs)
  then obtain d where d: "nm_condition_from_json nn (Some (condition_js c)) [] = Inr (Some d, [])" "condition_equiv c d"
    using nm_condition_from_json_js [OF assms, of c] by auto
  with Cons.IH [of "s\<lparr>st_conditions := st_conditions s @ [d]\<rparr>"] Cons.prems assms(1)
  obtain ds where "conditions_from_json nn (map condition_js cs) (s\<lparr>st_conditions := st_conditions s @ [d]\<rparr>) []
      = Inr ((True, s\<lparr>st_conditions := st_conditions s @ d # ds\<rparr>), [])" "list_all2 condition_equiv cs ds"
    by auto
  then show ?case using d assms(1) by (intro exI [of _ "d # ds"]) simp
qed simp

lemma actions_from_json_js:
  assumes "nn_memory_available nn" "nn_string_set_laws nn"
  shows "distinct (st_actions s) \<Longrightarrow>
     \<exists>as'. actions_from_json nn (map js_string as) s = Inr (True, s\<lparr>st_actions := as'\<rparr>)
       \<and> set as' = set (st_actions s) \<union> set as"
proof (induction as arbitrary: s)
  case Nil
  then show ?case by (auto intro!: exI [of _ "st_actions s"])
next
  case (Cons a as)
  from Cons.prems obtain t where t: "ss_insert nn (st_actions s) a = (True, t)" "distinct t"
      "set t = insert a (set (st_actions s))"
    using ss_insert_available [OF assms] by metis
  with Cons.IH [of "s\<lparr>st_actions := t\<rparr>"] show ?case by (auto simp: cjson_simps nm_statement_add_action_def)
qed

lemma get_statement_items:
  "cJSON_GetObjectItem (Some (statement_js s)) ''Effect'' = Some (named ''Effect'' (effect_js (st_effect s)))"
  "cJSON_GetObjectItem (Some (statement_js s)) ''Actions'' = Some (named ''Actions'' (strings_js (st_actions s)))"
  "cJSON_GetObjectItem (Some (statement_js s)) ''Conditions'' =
     (if st_conditions s = [] then None else Some (named ''Conditions'' (js_array (map condition_js (st_conditions s)))))"
  by (simp_all add: statement_js_def cjson_simps tolower_def)

lemma nm_statement_from_json_js:
  assumes "nn_memory_available nn" "nn_string_set_laws nn" "\<forall>c\<in>set (st_conditions s). condition_wf c"
    "st_effect s = NM_EFFECT_ALLOW \<or> st_effect s = NM_EFFECT_DENY"
  obtains t where "nm_statement_from_json nn (Some (statement_js s)) [] = Inr (Some t, [])" "statement_equiv s t"
proof -
  let ?s = "\<lparr>st_effect = st_effect s, st_actions = [], st_conditions = []\<rparr>"
  obtain as where as: "actions_from_json nn (map js_string (st_actions s)) ?s = Inr (True, ?s\<lparr>st_actions := as\<rparr>)"
      "set as = set (st_actions s)"
    using actions_from_json_js [OF assms(1,2), of ?s "st_actions s"] by auto
  obtain ds where ds: "conditions_from_json nn (map condition_js (st_conditions s)) (?s\<lparr>st_actions := as\<rparr>) []
      = Inr ((True, ?s\<lparr>st_actions := as, st_conditions := ds\<rparr>), [])" "list_all2 condition_equiv (st_conditions s) ds"
    using conditions_from_json_js [OF assms(1,2,3), of "?s\<lparr>st_actions := as\<rparr>"] by auto
  have parse: "nm_statement_from_json_parse nn (Some (named ''Actions'' (strings_js (st_actions s))))
      (cJSON_GetObjectItem (Some (statement_js s)) ''Conditions'') ?s [] = Inr ((True, ?s\<lparr>st_actions := as, st_conditions := ds\<rparr>), [])"
    using as ds by (auto simp: nm_statement_from_json_parse_def strings_js_def cjson_simps get_statement_items)
  show thesis
  proof (rule that [of "?s\<lparr>st_actions := as, st_conditions := ds\<rparr>"])
    have "cJSON_IsObject (Some (statement_js s))" by (simp add: statement_js_def cjson_simps)
    then show "nm_statement_from_json nn (Some (statement_js s)) [] = Inr (Some (?s\<lparr>st_actions := as, st_conditions := ds\<rparr>), [])"
      using assms(4) parse
      by (auto simp: nm_statement_from_json_def get_statement_items(1,2) effect_js_def strings_js_def cjson_simps
          nm_statement_new_def)
    show "statement_equiv s (?s\<lparr>st_actions := as, st_conditions := ds\<rparr>)"
      using as(2) ds(2) by (simp add: statement_equiv_def)
  qed
qed

lemma nm_policy_from_json_parse_js:
  assumes "nn_memory_available nn" "nn_string_set_laws nn"
  shows "\<forall>s\<in>set sts. (\<forall>c\<in>set (st_conditions s). condition_wf c) \<and>
        (st_effect s = NM_EFFECT_ALLOW \<or> st_effect s = NM_EFFECT_DENY) \<Longrightarrow>
     \<exists>ts. nm_policy_from_json_parse nn (map statement_js sts) p []
         = Inr ((True, p\<lparr>policy_statements := policy_statements p @ ts\<rparr>), []) \<and> list_all2 statement_equiv sts ts"
proof (induction sts arbitrary: p)
  case (Cons s sts)
  then obtain t where t: "nm_statement_from_json nn (Some (statement_js s)) [] = Inr (Some t, [])" "statement_equiv s t"
    using nm_statement_from_json_js [OF assms, of s] by auto
  with Cons.IH [of "p\<lparr>policy_statements := policy_statements p @ [t]\<rparr>"] Cons.prems
  obtain ts where "nm_policy_from_json_parse nn (map statement_js sts) (p\<lparr>policy_statements := policy_statements p @ [t]\<rparr>) []
      = Inr ((True, p\<lparr>policy_statements := policy_statements p @ t # ts\<rparr>), [])" "list_all2 statement_equiv sts ts"
    by auto
  then show ?case using t assms(1) by (intro exI [of _ "t # ts"]) simp
qed simp

text \<open>
  C24. A policy written to JSON is read back as an equivalent policy: the same identifier, and the
  same statements in the same order with the same effect, the same set of actions and the same
  conditions.
\<close>

theorem nm_policy_json_roundtrip:
  assumes "nn_memory_available nn" "nn_string_set_laws nn" "policy_wf p" "policy_effects_ok p"
  shows "\<exists>q. nm_policy_from_json nn (fst (nm_policy_to_json p [])) [] = Inr (Some q, []) \<and> policy_equiv p q"
proof -
  let ?p = "\<lparr>policy_id = policy_id p, policy_statements = []\<rparr>"
  obtain ts where ts: "nm_policy_from_json_parse nn (map statement_js (policy_statements p)) ?p []
      = Inr ((True, ?p\<lparr>policy_statements := ts\<rparr>), [])" "list_all2 statement_equiv (policy_statements p) ts"
    using nm_policy_from_json_parse_js [OF assms(1,2), of "policy_statements p" ?p] assms(3,4)
    by (auto simp: policy_wf_def policy_effects_ok_def)
  have "cJSON_GetObjectItem (Some (policy_js p)) ''Id'' = Some (named ''Id'' (js_string (policy_id p)))"
    "cJSON_GetObjectItem (Some (policy_js p)) ''Statements''
       = Some (named ''Statements'' (js_array (map statement_js (policy_statements p))))"
    "cJSON_IsObject (Some (policy_js p))"
    by (simp_all add: policy_js_def cjson_simps tolower_def)
  then have "nm_policy_from_json nn (Some (policy_js p)) [] = Inr (Some (?p\<lparr>policy_statements := ts\<rparr>), [])"
    using ts(1) by (simp add: nm_policy_from_json_def cjson_simps nm_policy_new_def)
  then show ?thesis
    using ts(2) assms(3,4) by (simp add: nm_policy_to_json_js policy_equiv_def)
qed

theorem nm_policy_json_roundtrip_witness:
  "\<exists>q. nm_policy_from_json nn_by_lists (fst (nm_policy_to_json demo_policy [])) [] = Inr (Some q, [])
     \<and> policy_equiv demo_policy q"
proof (rule nm_policy_json_roundtrip)
  show "nn_memory_available nn_by_lists" by (simp add: nn_memory_available_def nn_by_lists_def)
qed (simp_all add: demo_policy_def policy_wf_def condition_wf_def policy_effects_ok_def)

end
