(* ===== verification/NmIam.thy ===== *)
theory NmIam
  imports NmPolicies NpPlatform
begin

text \<open>
  Identity and access management (\<^verbatim>\<open>src/modules/iam/nm_iam.c\<close>, \<^verbatim>\<open>nm_iam_user.c\<close>, \<^verbatim>\<open>nm_iam_role.c\<close>): users,
  roles and policies, the access check, pairing of new clients and the changes of users. Calls out
  of the module (the device, the change callback of the application) are outputs; what the device
  returns is an argument.
\<close>

section \<open>Users and roles\<close>

record nm_iam_user =
  user_id :: string
  user_roles :: "string list"
  user_fingerprint :: "string option"
  user_serverConnectToken :: "string option"
  user_attributes :: attributes

record nm_iam_role =
  role_id :: string
  role_policies :: "string list"

definition nm_iam_user_new :: "string \<Rightarrow> heap \<Rightarrow> nm_iam_user option \<times> heap" where
  "nm_iam_user_new idIn h =
     (case strdup idIn h of (i, h1) \<Rightarrow>
      case alloc h1 of (b, h2) \<Rightarrow>
      (case i of
         Some s \<Rightarrow>
           if b then Some \<lparr>user_id = s, user_roles = [], user_fingerprint = None,
                           user_serverConnectToken = None, user_attributes = []\<rparr> else None
       | None \<Rightarrow> None, h2))"

definition nm_iam_user_add_role :: "'z nn_lib_scheme \<Rightarrow> nm_iam_user \<Rightarrow> string \<Rightarrow> bool \<times> nm_iam_user" where
  "nm_iam_user_add_role nn user roleId =
     (case ss_insert nn (user_roles user) roleId of (b, s) \<Rightarrow> (b, user\<lparr>user_roles := s\<rparr>))"

definition nm_iam_user_remove_role :: "'z nn_lib_scheme \<Rightarrow> nm_iam_user \<Rightarrow> string \<Rightarrow> nm_iam_user" where
  "nm_iam_user_remove_role nn user roleId = user\<lparr>user_roles := ss_erase nn (user_roles user) roleId\<rparr>"

definition nm_iam_role_new :: "string \<Rightarrow> heap \<Rightarrow> nm_iam_role option \<times> heap" where
  "nm_iam_role_new idIn h =
     (case strdup idIn h of (i, h1) \<Rightarrow>
      case alloc h1 of (b, h2) \<Rightarrow>
      (case i of Some s \<Rightarrow> if b then Some \<lparr>role_id = s, role_policies = []\<rparr> else None | None \<Rightarrow> None, h2))"

definition nm_iam_role_add_policy :: "'z nn_lib_scheme \<Rightarrow> nm_iam_role \<Rightarrow> string \<Rightarrow> bool \<times> nm_iam_role" where
  "nm_iam_role_add_policy nn role policy =
     (case ss_insert nn (role_policies role) policy of (b, s) \<Rightarrow> (b, role\<lparr>role_policies := s\<rparr>))"

section \<open>The module\<close>

record nm_iam =
  users :: "nm_iam_user list"
  roles :: "nm_iam_role list"
  policies :: "nm_policy list"
  userChanged :: bool  \<comment> \<open>whether the change callback is set\<close>
  pairingPassword :: "string option"

datatype iam_output =
    AddServerConnectToken string
  | UserChanged string

definition nm_iam_init :: nm_iam where
  "nm_iam_init = \<lparr>users = [], roles = [], policies = [], userChanged = False, pairingPassword = None\<rparr>"

fun find_user_by_fingerprint :: "nm_iam_user list \<Rightarrow> string \<Rightarrow> nm_iam_user option outcome" where
  "find_user_by_fingerprint [] fingerprint = Inr None"
| "find_user_by_fingerprint (user # us) fingerprint =
     obind (deref (user_fingerprint user)) (\<lambda>f.
       if f = fingerprint then Inr (Some user) else find_user_by_fingerprint us fingerprint)"

definition nm_iam_find_user_by_fingerprint :: "nm_iam \<Rightarrow> string \<Rightarrow> nm_iam_user option outcome" where
  "nm_iam_find_user_by_fingerprint iam fingerprint = find_user_by_fingerprint (users iam) fingerprint"

definition nm_iam_find_role :: "nm_iam \<Rightarrow> string \<Rightarrow> nm_iam_role option" where
  "nm_iam_find_role iam roleStr = find (\<lambda>role. role_id role = roleStr) (roles iam)"

definition nm_iam_find_policy :: "nm_iam \<Rightarrow> string \<Rightarrow> nm_policy option" where
  "nm_iam_find_policy iam policyStr = find (\<lambda>policy. policy_id policy = policyStr) (policies iam)"

text \<open>A role may name a policy that does not exist; the null pointer is then evaluated.\<close>

fun eval_policies ::
    "'z nn_lib_scheme \<Rightarrow> nm_iam \<Rightarrow> nm_policy_eval_state \<Rightarrow> string list \<Rightarrow> string \<Rightarrow> attributes \<Rightarrow> nm_policy_eval_state outcome" where
  "eval_policies nn iam s [] action attributes = Inr s"
| "eval_policies nn iam s (policyStr # ps) action attributes =
     obind (deref (nm_iam_find_policy iam policyStr)) (\<lambda>policy.
       obind (nm_policy_eval nn s policy action attributes) (\<lambda>s'.
         eval_policies nn iam s' ps action attributes))"

definition nm_iam_check_access_role ::
    "'z nn_lib_scheme \<Rightarrow> nm_iam \<Rightarrow> nm_iam_role \<Rightarrow> string \<Rightarrow> attributes \<Rightarrow> nm_effect outcome" where
  "nm_iam_check_access_role nn iam role action attributes =
     obind (eval_policies nn iam nm_policy_eval_init (role_policies role) action attributes) (\<lambda>s.
       Inr (nm_policy_eval_get_effect s))"

fun check_roles ::
    "'z nn_lib_scheme \<Rightarrow> nm_iam \<Rightarrow> nm_effect \<Rightarrow> string list \<Rightarrow> string \<Rightarrow> attributes \<Rightarrow> nm_effect outcome" where
  "check_roles nn iam result [] action attributes = Inr result"
| "check_roles nn iam result (roleStr # rs) action attributes =
     (case nm_iam_find_role iam roleStr of
        None \<Rightarrow> Inr NM_EFFECT_ERROR
      | Some role \<Rightarrow>
          obind (nm_iam_check_access_role nn iam role action attributes) (\<lambda>e.
            if e = NM_EFFECT_ERROR \<or> e = NM_EFFECT_DENY then Inr e
            else check_roles nn iam (if e = NM_EFFECT_ALLOW then NM_EFFECT_ALLOW else result) rs action attributes))"

definition nm_iam_check_access_user ::
    "'z nn_lib_scheme \<Rightarrow> nm_iam \<Rightarrow> nm_iam_user \<Rightarrow> string \<Rightarrow> attributes \<Rightarrow> nm_effect outcome" where
  "nm_iam_check_access_user nn iam user action attributes =
     check_roles nn iam NM_EFFECT_NO_MATCH (user_roles user) action attributes"

text \<open>The copy of the caller's attributes; failing insertions are not noticed.\<close>

definition copy_attributes :: "'z nn_lib_scheme \<Rightarrow> attributes option \<Rightarrow> attributes" where
  "copy_attributes nn attributesIn =
     (case attributesIn of
        None \<Rightarrow> []
      | Some m \<Rightarrow> foldl (\<lambda>a (k, v). snd (sm_insert nn a k v)) [] m)"

text \<open>\<open>fingerprint\<close> is what the device gives for the connection, \<open>None\<close> for an error.\<close>

definition nm_iam_check_access ::
    "'z nn_lib_scheme \<Rightarrow> nm_iam \<Rightarrow> string option \<Rightarrow> string \<Rightarrow> attributes option \<Rightarrow> bool outcome" where
  "nm_iam_check_access nn iam fingerprint action attributesIn =
     (case fingerprint of
        None \<Rightarrow> Inr False
      | Some fp \<Rightarrow>
          let attributes = copy_attributes nn attributesIn in
          obind (nm_iam_find_user_by_fingerprint iam fp) (\<lambda>user.
            obind
              (case user of
                 Some u \<Rightarrow>
                   nm_iam_check_access_user nn iam u action
                     (snd (sm_insert nn attributes ''Connection:UserId'' (user_id u)))
               | None \<Rightarrow>
                   (case nm_iam_find_role iam ''Unpaired'' of
                      None \<Rightarrow> Inr NM_EFFECT_ERROR
                    | Some unpaired \<Rightarrow> nm_iam_check_access_role nn iam unpaired action attributes))
              (\<lambda>effect. Inr (effect = NM_EFFECT_ALLOW))))"

definition nm_iam_enable_password_pairing :: "nm_iam \<Rightarrow> string \<Rightarrow> heap \<Rightarrow> (bool \<times> nm_iam) \<times> heap" where
  "nm_iam_enable_password_pairing iam password h =
     (case strdup password h of (p, h') \<Rightarrow> ((True, iam\<lparr>pairingPassword := p\<rparr>), h'))"

definition nm_iam_enable_remote_pairing :: "nm_iam \<Rightarrow> string \<Rightarrow> bool \<times> iam_output list" where
  "nm_iam_enable_remote_pairing iam pairingServerConnectToken =
     (True, [AddServerConnectToken pairingServerConnectToken])"

definition user_changed :: "nm_iam \<Rightarrow> string \<Rightarrow> iam_output list" where
  "user_changed iam userId = (if userChanged iam then [UserChanged userId] else [])"

definition nm_iam_add_user :: "'z nn_lib_scheme \<Rightarrow> nm_iam \<Rightarrow> nm_iam_user \<Rightarrow> nm_iam \<times> iam_output list" where
  "nm_iam_add_user nn iam user =
     (iam\<lparr>users := snd (nn_vector_push_back nn (users iam) user)\<rparr>,
      (case user_serverConnectToken user of None \<Rightarrow> [] | Some t \<Rightarrow> [AddServerConnectToken t])
      @ user_changed iam (user_id user))"

definition nm_iam_add_role :: "'z nn_lib_scheme \<Rightarrow> nm_iam \<Rightarrow> nm_iam_role \<Rightarrow> nm_iam" where
  "nm_iam_add_role nn iam role = iam\<lparr>roles := snd (nn_vector_push_back nn (roles iam) role)\<rparr>"

definition nm_iam_add_policy :: "'z nn_lib_scheme \<Rightarrow> nm_iam \<Rightarrow> nm_policy \<Rightarrow> nm_iam" where
  "nm_iam_add_policy nn iam policy = iam\<lparr>policies := snd (nn_vector_push_back nn (policies iam) policy)\<rparr>"

definition nm_iam_find_user_by_coap_request :: "nm_iam \<Rightarrow> string option \<Rightarrow> nm_iam_user option outcome" where
  "nm_iam_find_user_by_coap_request iam fingerprint =
     (case fingerprint of None \<Rightarrow> Inr None | Some fp \<Rightarrow> nm_iam_find_user_by_fingerprint iam fp)"

definition nm_iam_find_user_by_id :: "nm_iam \<Rightarrow> string \<Rightarrow> nm_iam_user option" where
  "nm_iam_find_user_by_id iam i = find (\<lambda>user. user_id user = i) (users iam)"

definition nm_iam_find_user :: "nm_iam \<Rightarrow> string \<Rightarrow> nm_iam_user option" where
  "nm_iam_find_user iam i = nm_iam_find_user_by_id iam i"

text \<open>
  The search for an unused number; the fuel is one more than the number of users, which is enough
  since the numbers tried are distinct.
\<close>

fun next_user_id_loop :: "nat \<Rightarrow> nm_iam \<Rightarrow> nat \<Rightarrow> string option" where
  "next_user_id_loop 0 iam i = None"
| "next_user_id_loop (Suc fuel) iam i =
     (let i' = i + 1; ident = print_dec i' in
      if nm_iam_find_user_by_id iam ident \<noteq> None then next_user_id_loop fuel iam i' else Some ident)"

definition nm_iam_next_user_id :: "nm_iam \<Rightarrow> string option" where
  "nm_iam_next_user_id iam = next_user_id_loop (length (users iam) + 1) iam 0"

text \<open>
  Pairing: \<open>fingerprint\<close> is that of the connection, \<open>token\<close> the server connect token the device
  creates (\<open>None\<close> for an error). The buffer of the next id is allocated before the user; neither
  allocation is checked.
\<close>

definition nm_iam_pair_new_client ::
    "'z nn_lib_scheme \<Rightarrow> nm_iam \<Rightarrow> string option \<Rightarrow> string option \<Rightarrow> heap
       \<Rightarrow> ((nm_iam_user option \<times> nm_iam \<times> iam_output list) \<times> heap) outcome" where
  "nm_iam_pair_new_client nn iam fingerprint token h =
     obind (nm_iam_find_user_by_coap_request iam fingerprint) (\<lambda>found.
     case found of
       Some user \<Rightarrow> Inr ((Some user, iam, []), h)
     | None \<Rightarrow>
       (case fingerprint of
          None \<Rightarrow> Inr ((None, iam, []), h)
        | Some fp \<Rightarrow>
          let roleStr = (if length (users iam) = 0 then ''Admin'' else ''User'') in
          if nm_iam_find_role iam roleStr = None then Inr ((None, iam, []), h)
          else (case token of
            None \<Rightarrow> Inr ((None, iam, []), h)
          | Some sct \<Rightarrow>
            (case alloc h of (ok, h1) \<Rightarrow>
             if \<not> ok then Inl NullPointer
             else obind (deref (nm_iam_next_user_id iam)) (\<lambda>nextId.
               case nm_iam_user_new nextId h1 of (nu, h2) \<Rightarrow>
               obind (deref nu) (\<lambda>u0.
               let u1 = u0\<lparr>user_roles := snd (ss_insert nn (user_roles u0) roleStr)\<rparr> in
               case strdup fp h2 of (f, h3) \<Rightarrow>
               case strdup sct h3 of (t, h4) \<Rightarrow>
               let u2 = u1\<lparr>user_fingerprint := f, user_serverConnectToken := t\<rparr> in
               case nm_iam_add_user nn iam u2 of (iam', out) \<Rightarrow>
               Inr ((Some u2, iam', out), h4)))))))"

definition nm_iam_set_user_changed_callback :: "nm_iam \<Rightarrow> bool \<Rightarrow> nm_iam" where
  "nm_iam_set_user_changed_callback iam cb = iam\<lparr>userChanged := cb\<rparr>"

definition nm_iam_get_users :: "'z nn_lib_scheme \<Rightarrow> nm_iam \<Rightarrow> string list \<Rightarrow> string list" where
  "nm_iam_get_users nn iam ids = foldl (\<lambda>s user. snd (ss_insert nn s (user_id user))) ids (users iam)"

text \<open>Removing the first element that satisfies the predicate, and changing it.\<close>

fun remove_first :: "('a \<Rightarrow> bool) \<Rightarrow> 'a list \<Rightarrow> 'a list" where
  "remove_first p [] = []"
| "remove_first p (x # xs) = (if p x then xs else x # remove_first p xs)"

fun update_first :: "('a \<Rightarrow> bool) \<Rightarrow> ('a \<Rightarrow> 'a) \<Rightarrow> 'a list \<Rightarrow> 'a list" where
  "update_first p f [] = []"
| "update_first p f (x # xs) = (if p x then f x # xs else x # update_first p f xs)"

definition nm_iam_delete_user :: "nm_iam \<Rightarrow> string \<Rightarrow> nm_iam \<times> iam_output list" where
  "nm_iam_delete_user iam userId =
     (if nm_iam_find_user_by_id iam userId = None then (iam, [])
      else (iam\<lparr>users := remove_first (\<lambda>u. user_id u = userId) (users iam)\<rparr>, user_changed iam userId))"

definition nm_iam_remove_role_from_user ::
    "'z nn_lib_scheme \<Rightarrow> nm_iam \<Rightarrow> string \<Rightarrow> string \<Rightarrow> nm_iam \<times> iam_output list" where
  "nm_iam_remove_role_from_user nn iam userId roleId =
     (case nm_iam_find_user iam userId of
        None \<Rightarrow> (iam, [])
      | Some user \<Rightarrow>
          (iam\<lparr>users := update_first (\<lambda>u. user_id u = userId)
                          (\<lambda>u. nm_iam_user_remove_role nn u roleId) (users iam)\<rparr>,
           user_changed iam userId))"

definition nm_iam_add_role_to_user ::
    "'z nn_lib_scheme \<Rightarrow> nm_iam \<Rightarrow> string \<Rightarrow> string \<Rightarrow> bool \<times> nm_iam \<times> iam_output list" where
  "nm_iam_add_role_to_user nn iam userId roleId =
     (case nm_iam_find_user iam userId of
        None \<Rightarrow> (False, iam, [])
      | Some user \<Rightarrow>
          if nm_iam_find_role iam roleId = None then (False, iam, [])
          else
            let st = fst (nm_iam_user_add_role nn user roleId);
                iam' = iam\<lparr>users := update_first (\<lambda>u. user_id u = userId)
                                    (\<lambda>u. snd (nm_iam_user_add_role nn u roleId)) (users iam)\<rparr> in
            (st, iam', if st then user_changed iam userId else []))"

section \<open>Specification\<close>

text \<open>The statements that decide for a role, and the roles and attributes that decide for a client.\<close>

definition role_statements :: "nm_iam \<Rightarrow> nm_iam_role \<Rightarrow> nm_statement list" where
  "role_statements iam role =
     concat (map (\<lambda>p. case nm_iam_find_policy iam p of None \<Rightarrow> [] | Some q \<Rightarrow> policy_statements q) (role_policies role))"

definition client_user :: "nm_iam \<Rightarrow> string \<Rightarrow> nm_iam_user option" where
  "client_user iam fp = find (\<lambda>u. user_fingerprint u = Some fp) (users iam)"

definition client_roles :: "nm_iam \<Rightarrow> string \<Rightarrow> string list" where
  "client_roles iam fp = (case client_user iam fp of Some u \<Rightarrow> user_roles u | None \<Rightarrow> [''Unpaired''])"

definition client_attributes :: "'z nn_lib_scheme \<Rightarrow> nm_iam \<Rightarrow> string \<Rightarrow> attributes option \<Rightarrow> attributes" where
  "client_attributes nn iam fp attributesIn =
     (case client_user iam fp of
        Some u \<Rightarrow> snd (sm_insert nn (copy_attributes nn attributesIn) ''Connection:UserId'' (user_id u))
      | None \<Rightarrow> copy_attributes nn attributesIn)"

definition iam_wf :: "nm_iam \<Rightarrow> bool" where
  "iam_wf iam \<longleftrightarrow>
     (\<forall>u\<in>set (users iam). user_fingerprint u \<noteq> None) \<and>
     (\<forall>r\<in>set (roles iam). \<forall>p\<in>set (role_policies r). nm_iam_find_policy iam p \<noteq> None) \<and>
     (\<forall>p\<in>set (policies iam). policy_wf p)"

text \<open>The verdict of a list of statements: some allow, none deny or fail; and of a list of roles.\<close>

definition no_objection :: "'z nn_lib_scheme \<Rightarrow> string \<Rightarrow> attributes \<Rightarrow> nm_statement list \<Rightarrow> bool" where
  "no_objection nn action m sts =
     (\<forall>st\<in>set sts. nm_statement_eval nn st action m \<noteq> Inr NM_EFFECT_DENY \<and>
                   nm_statement_eval nn st action m \<noteq> Inr NM_EFFECT_ERROR)"

definition some_allows :: "'z nn_lib_scheme \<Rightarrow> string \<Rightarrow> attributes \<Rightarrow> nm_statement list \<Rightarrow> bool" where
  "some_allows nn action m sts = (\<exists>st\<in>set sts. nm_statement_eval nn st action m = Inr NM_EFFECT_ALLOW)"

definition granted :: "'z nn_lib_scheme \<Rightarrow> nm_iam \<Rightarrow> string \<Rightarrow> attributes \<Rightarrow> string list \<Rightarrow> bool" where
  "granted nn iam action m rs \<longleftrightarrow>
     (\<forall>r\<in>set rs. \<exists>role. nm_iam_find_role iam r = Some role \<and> no_objection nn action m (role_statements iam role)) \<and>
     (\<exists>r\<in>set rs. \<exists>role. nm_iam_find_role iam r = Some role \<and> some_allows nn action m (role_statements iam role))"

definition demo_iam :: nm_iam where
  "demo_iam = nm_iam_init
     \<lparr>roles := [\<lparr>role_id = ''Unpaired'', role_policies = [''P'']\<rparr>, \<lparr>role_id = ''Admin'', role_policies = [''P'']\<rparr>],
      policies := [\<lparr>policy_id = ''P'', policy_statements =
        [\<lparr>st_effect = NM_EFFECT_ALLOW, st_actions = [''Pairing:Get''], st_conditions = []\<rparr>]\<rparr>]\<rparr>"

definition iam_inv :: "nm_iam \<Rightarrow> bool" where
  "iam_inv iam \<longleftrightarrow>
     distinct (map user_id (users iam)) \<and>
     distinct (map user_fingerprint (users iam)) \<and> None \<notin> set (map user_fingerprint (users iam))"

datatype iam_op = IamPair "string option" "string option" | IamDelete string | IamAddRole string string | IamRemoveRole string string

text \<open>One operation on the users, with memory available.\<close>

fun iam_apply :: "'z nn_lib_scheme \<Rightarrow> iam_op \<Rightarrow> nm_iam \<Rightarrow> nm_iam outcome" where
  "iam_apply nn (IamPair fp token) iam =
     obind (nm_iam_pair_new_client nn iam fp token []) (\<lambda>((_, iam', _), _). Inr iam')"
| "iam_apply nn (IamDelete userId) iam = Inr (fst (nm_iam_delete_user iam userId))"
| "iam_apply nn (IamAddRole userId roleId) iam = Inr (fst (snd (nm_iam_add_role_to_user nn iam userId roleId)))"
| "iam_apply nn (IamRemoveRole userId roleId) iam = Inr (fst (nm_iam_remove_role_from_user nn iam userId roleId))"

fun iam_run :: "'z nn_lib_scheme \<Rightarrow> iam_op list \<Rightarrow> nm_iam \<Rightarrow> nm_iam outcome" where
  "iam_run nn [] iam = Inr iam"
| "iam_run nn (x # xs) iam = obind (iam_apply nn x iam) (iam_run nn xs)"

definition pair_role :: "nm_iam \<Rightarrow> string" where
  "pair_role iam = (if users iam = [] then ''Admin'' else ''User'')"

section \<open>The access check\<close>

lemma find_user_by_fingerprint_eq:
  "\<forall>u\<in>set us. user_fingerprint u \<noteq> None \<Longrightarrow>
     find_user_by_fingerprint us fp = Inr (find (\<lambda>u. user_fingerprint u = Some fp) us)"
  by (induction us) auto

lemma eval_statements_append:
  "eval_statements nn s (xs @ ys) action m = obind (eval_statements nn s xs action m) (\<lambda>s'. eval_statements nn s' ys action m)"
proof (induction xs arbitrary: s)
  case (Cons x xs)
  then show ?case by (cases "nm_policy_statement_eval nn s x action m") auto
qed simp

lemma eval_policies_statements:
  "\<forall>p\<in>set ps. nm_iam_find_policy iam p \<noteq> None \<Longrightarrow>
     eval_policies nn iam s ps action m = eval_statements nn s
       (concat (map (\<lambda>p. case nm_iam_find_policy iam p of None \<Rightarrow> [] | Some q \<Rightarrow> policy_statements q) ps)) action m"
  by (induction ps arbitrary: s) (auto simp: eval_statements_append nm_policy_eval_def)

lemma find_role_mem: "nm_iam_find_role iam r = Some role \<Longrightarrow> role \<in> set (roles iam) \<and> role_id role = r"
  by (auto simp: nm_iam_find_role_def dest: find_Some_in)

lemma role_statements_wf:
  assumes "iam_wf iam"
  shows "\<forall>st\<in>set (role_statements iam role). \<forall>c\<in>set (st_conditions st). condition_wf c"
proof
  fix st assume "st \<in> set (role_statements iam role)"
  then obtain p q where "nm_iam_find_policy iam p = Some q" "st \<in> set (policy_statements q)"
    by (auto simp: role_statements_def split: option.splits dest!: sym [of "Some _"])
  moreover from this have "q \<in> set (policies iam)"
    by (auto simp: nm_iam_find_policy_def dest: find_Some_in)
  ultimately show "\<forall>c\<in>set (st_conditions st). condition_wf c"
    using assms by (auto simp: iam_wf_def policy_wf_def)
qed

lemma check_access_role_effect:
  assumes "iam_wf iam" "role \<in> set (roles iam)"
  obtains es where "list_all2 (\<lambda>st e. nm_statement_eval nn st action m = Inr e) (role_statements iam role) es"
    "nm_iam_check_access_role nn iam role action m = Inr (decide NM_EFFECT_NO_MATCH es)"
proof -
  have ex: "\<forall>p\<in>set (role_policies role). nm_iam_find_policy iam p \<noteq> None"
    using assms by (auto simp: iam_wf_def)
  obtain es where es: "list_all2 (\<lambda>st e. nm_statement_eval nn st action m = Inr e) (role_statements iam role) es"
    using statement_effects [OF role_statements_wf [OF assms(1)]] by blast
  have "nm_iam_check_access_role nn iam role action m = Inr (decide NM_EFFECT_NO_MATCH es)"
    unfolding nm_iam_check_access_role_def eval_policies_statements [OF ex]
    using eval_statements_decide [OF es [unfolded role_statements_def]]
    by (simp add: nm_policy_eval_init_def nm_policy_eval_get_effect_def)
  then show thesis using es that by blast
qed

lemma decide_final_iff: "final_effect (decide e0 es) \<longleftrightarrow> (\<exists>e\<in>set (e0 # es). final_effect e)"
proof (induction es arbitrary: e0)
  case (Cons e es)
  show ?case unfolding decide_Cons Cons.IH by (cases e0; cases e) (auto simp: final_effect_def)
qed simp

lemma effects_mem:
  "list_all2 (\<lambda>st e. nm_statement_eval nn st action m = Inr e) sts es \<Longrightarrow>
     e \<in> set es \<longleftrightarrow> (\<exists>st\<in>set sts. nm_statement_eval nn st action m = Inr e)"
  by (force simp: list_all2_conv_all_nth in_set_conv_nth)

lemma check_access_role_cases:
  assumes "iam_wf iam" "role \<in> set (roles iam)"
  obtains e where "nm_iam_check_access_role nn iam role action m = Inr e"
    "final_effect e \<longleftrightarrow> \<not> no_objection nn action m (role_statements iam role)"
    "e = NM_EFFECT_ALLOW \<longleftrightarrow>
       no_objection nn action m (role_statements iam role) \<and> some_allows nn action m (role_statements iam role)"
proof -
  obtain es where es: "list_all2 (\<lambda>st e. nm_statement_eval nn st action m = Inr e) (role_statements iam role) es"
    "nm_iam_check_access_role nn iam role action m = Inr (decide NM_EFFECT_NO_MATCH es)"
    using check_access_role_effect [OF assms] by blast
  note mem = effects_mem [OF es(1)]
  have "final_effect (decide NM_EFFECT_NO_MATCH es) \<longleftrightarrow> \<not> no_objection nn action m (role_statements iam role)"
  proof -
    have "(\<exists>e\<in>set (NM_EFFECT_NO_MATCH # es). final_effect e) \<longleftrightarrow> NM_EFFECT_DENY \<in> set es \<or> NM_EFFECT_ERROR \<in> set es"
      by (auto simp: final_effect_def)
    then show ?thesis unfolding decide_final_iff mem by (auto simp: no_objection_def)
  qed
  moreover have "decide NM_EFFECT_NO_MATCH es = NM_EFFECT_ALLOW \<longleftrightarrow>
      no_objection nn action m (role_statements iam role) \<and> some_allows nn action m (role_statements iam role)"
    unfolding decide_allow_iff by (auto simp: mem no_objection_def some_allows_def)
  ultimately show thesis using that es(2) by blast
qed

lemma check_roles_allow:
  assumes "iam_wf iam"
  shows "\<exists>e. check_roles nn iam result rs action m = Inr e \<and>
     (e = NM_EFFECT_ALLOW \<longleftrightarrow>
       (\<forall>r\<in>set rs. \<exists>role. nm_iam_find_role iam r = Some role \<and> no_objection nn action m (role_statements iam role)) \<and>
       (result = NM_EFFECT_ALLOW \<or>
        (\<exists>r\<in>set rs. \<exists>role. nm_iam_find_role iam r = Some role \<and> some_allows nn action m (role_statements iam role))))"
proof (induction rs arbitrary: result)
  case (Cons r rs)
  show ?case
  proof (cases "nm_iam_find_role iam r")
    case None
    then show ?thesis by simp
  next
    case (Some role)
    obtain e where e: "nm_iam_check_access_role nn iam role action m = Inr e"
      "final_effect e \<longleftrightarrow> \<not> no_objection nn action m (role_statements iam role)"
      "e = NM_EFFECT_ALLOW \<longleftrightarrow>
         no_objection nn action m (role_statements iam role) \<and> some_allows nn action m (role_statements iam role)"
      using check_access_role_cases [OF assms] find_role_mem [OF Some] by metis
    show ?thesis
    proof (cases "final_effect e")
      case True
      then show ?thesis using e Some by (auto simp: final_effect_def)
    next
      case False
      obtain e' where "check_roles nn iam (if e = NM_EFFECT_ALLOW then NM_EFFECT_ALLOW else result) rs action m = Inr e'"
        "e' = NM_EFFECT_ALLOW \<longleftrightarrow>
           (\<forall>r\<in>set rs. \<exists>role. nm_iam_find_role iam r = Some role \<and> no_objection nn action m (role_statements iam role)) \<and>
           ((if e = NM_EFFECT_ALLOW then NM_EFFECT_ALLOW else result) = NM_EFFECT_ALLOW \<or>
            (\<exists>r\<in>set rs. \<exists>role. nm_iam_find_role iam r = Some role \<and> some_allows nn action m (role_statements iam role)))"
        using Cons.IH by blast
      then show ?thesis using e False Some by (auto simp: final_effect_def)
    qed
  qed
qed simp

lemma check_roles_granted:
  "iam_wf iam \<Longrightarrow> \<exists>e. check_roles nn iam NM_EFFECT_NO_MATCH rs action m = Inr e \<and> (e = NM_EFFECT_ALLOW \<longleftrightarrow> granted nn iam action m rs)"
  using check_roles_allow [of iam nn NM_EFFECT_NO_MATCH rs action m] by (simp add: granted_def)

text \<open>
  C1. The access check: with complete data (every user has a fingerprint, every policy a role names
  exists) it always gives a verdict. A client is granted an action exactly when every role it has
  exists, some statement of the policies of these roles allows the action under the attributes of
  the request, and none of them denies it or fails to evaluate. The roles are those of the user with
  the client's fingerprint, or \<open>Unpaired\<close> for an unknown client.
\<close>

theorem nm_iam_check_access_iff:
  assumes "iam_wf iam"
  shows "nm_iam_check_access nn iam (Some fp) action attributesIn =
     Inr (granted nn iam action (client_attributes nn iam fp attributesIn) (client_roles iam fp))"
proof -
  have fps: "nm_iam_find_user_by_fingerprint iam fp = Inr (client_user iam fp)"
    using assms by (simp add: iam_wf_def client_user_def find_user_by_fingerprint_eq nm_iam_find_user_by_fingerprint_def)
  show ?thesis
  proof (cases "client_user iam fp")
    case (Some u)
    obtain e where "check_roles nn iam NM_EFFECT_NO_MATCH (user_roles u) action (client_attributes nn iam fp attributesIn) = Inr e"
      "e = NM_EFFECT_ALLOW \<longleftrightarrow> granted nn iam action (client_attributes nn iam fp attributesIn) (client_roles iam fp)"
      using check_roles_granted [OF assms] Some by (metis client_roles_def option.simps(5))
    then show ?thesis
      using Some by (simp add: nm_iam_check_access_def fps nm_iam_check_access_user_def client_attributes_def Let_def)
  next
    case None
    show ?thesis
    proof (cases "nm_iam_find_role iam ''Unpaired''")
      case role: None
      then show ?thesis
        using None by (simp add: nm_iam_check_access_def fps client_roles_def granted_def)
    next
      case (Some role)
      obtain e where "nm_iam_check_access_role nn iam role action (copy_attributes nn attributesIn) = Inr e"
        "e = NM_EFFECT_ALLOW \<longleftrightarrow> no_objection nn action (copy_attributes nn attributesIn) (role_statements iam role)
           \<and> some_allows nn action (copy_attributes nn attributesIn) (role_statements iam role)"
        using check_access_role_cases [OF assms] find_role_mem [OF Some] by metis
      then show ?thesis
        using None Some
        by (simp add: nm_iam_check_access_def fps client_roles_def client_attributes_def granted_def)
    qed
  qed
qed

lemma demo_iam_wf [simp]: "iam_wf demo_iam"
  by (simp add: iam_wf_def demo_iam_def nm_iam_init_def nm_iam_find_policy_def policy_wf_def)

lemma demo_iam_granted: "granted nn_by_lists demo_iam ''Pairing:Get'' [] [''Unpaired'']"
  by (simp add: granted_def demo_iam_def nm_iam_init_def nm_iam_find_role_def role_statements_def
      nm_iam_find_policy_def no_objection_def some_allows_def nm_statement_eval_def nn_by_lists_def)

theorem nm_iam_check_access_iff_witness:
  "nm_iam_check_access nn_by_lists demo_iam (Some ''aa'') ''Pairing:Get'' None = Inr True"
proof -
  have "client_user demo_iam ''aa'' = None" by (simp add: client_user_def demo_iam_def nm_iam_init_def)
  then show ?thesis
    using demo_iam_granted nm_iam_check_access_iff [OF demo_iam_wf, of nn_by_lists "''aa''" "''Pairing:Get''" None]
    by (simp add: client_roles_def client_attributes_def copy_attributes_def)
qed

section \<open>Users\<close>

lemma print_dec_value: "foldl (\<lambda>k c. 10 * k + (of_char c - 48)) 0 (print_dec n) = (n::nat)"
proof (induction n rule: print_dec.induct)
  case (1 n)
  show ?case
  proof (cases "n < 10")
    case False
    moreover have "of_char (char_of (48 + n mod 10) :: char) = 48 + n mod 10" by simp
    ultimately show ?thesis using 1 by (simp add: print_dec.simps [of n])
  qed (simp add: print_dec.simps [of n])
qed

lemma print_dec_inj: "inj print_dec"
  by (metis injI print_dec_value)

lemma next_user_id_loop_fresh:
  "next_user_id_loop fuel iam i = Some ident \<Longrightarrow> nm_iam_find_user_by_id iam ident = None"
  by (induction fuel arbitrary: i) (auto simp: Let_def split: if_splits)

lemma next_user_id_loop_None:
  "next_user_id_loop fuel iam i = None \<Longrightarrow> print_dec ` {i + 1..i + fuel} \<subseteq> set (map user_id (users iam))"
proof (induction fuel arbitrary: i)
  case (Suc fuel)
  then have "nm_iam_find_user_by_id iam (print_dec (i + 1)) \<noteq> None" "next_user_id_loop fuel iam (i + 1) = None"
    by (auto simp: Let_def split: if_splits)
  moreover have "{i + 1..i + Suc fuel} = insert (i + 1) {i + 1 + 1..i + 1 + fuel}" by auto
  ultimately show ?case
    using Suc.IH [of "i + 1"] by (auto simp: nm_iam_find_user_by_id_def find_None_iff intro: rev_image_eqI)
qed simp

lemma next_user_id_exists: "\<exists>ident. nm_iam_next_user_id iam = Some ident \<and> ident \<notin> set (map user_id (users iam))"
proof (cases "nm_iam_next_user_id iam")
  case None
  let ?n = "length (users iam) + 1"
  have "print_dec ` {0 + 1..0 + ?n} \<subseteq> set (map user_id (users iam))"
    using None next_user_id_loop_None unfolding nm_iam_next_user_id_def by blast
  then have "card (print_dec ` {1..?n}) \<le> card (set (map user_id (users iam)))"
    by (intro card_mono) auto
  also have "\<dots> \<le> length (users iam)" using card_length [of "map user_id (users iam)"] by simp
  finally have "?n \<le> length (users iam)"
    by (subst (asm) card_image) (auto intro: inj_on_subset [OF print_dec_inj])
  then show ?thesis by simp
next
  case (Some ident)
  then show ?thesis
    using next_user_id_loop_fresh [OF Some [unfolded nm_iam_next_user_id_def]]
    by (auto simp: nm_iam_find_user_by_id_def find_None_iff)
qed

lemma iam_inv_fingerprints: "iam_inv iam \<Longrightarrow> \<forall>u\<in>set (users iam). user_fingerprint u \<noteq> None"
  by (metis (no_types, lifting) iam_inv_def image_eqI image_set)

lemma find_by_fingerprint_inv:
  "iam_inv iam \<Longrightarrow> nm_iam_find_user_by_fingerprint iam fp = Inr (client_user iam fp)"
  by (simp add: nm_iam_find_user_by_fingerprint_def client_user_def find_user_by_fingerprint_eq iam_inv_fingerprints)

lemma pair_new_unknown:
  assumes "iam_inv iam" "client_user iam fp = None"
  shows "nm_iam_pair_new_client nn iam (Some fp) token h =
     (if nm_iam_find_role iam (pair_role iam) = None then Inr ((None, iam, []), h)
      else case token of
        None \<Rightarrow> Inr ((None, iam, []), h)
      | Some sct \<Rightarrow>
          (case alloc h of (ok, h1) \<Rightarrow>
             if \<not> ok then Inl NullPointer
             else obind (deref (nm_iam_next_user_id iam)) (\<lambda>nextId.
               case nm_iam_user_new nextId h1 of (nu, h2) \<Rightarrow>
               obind (deref nu) (\<lambda>u0.
               let u1 = u0\<lparr>user_roles := snd (ss_insert nn (user_roles u0) (pair_role iam))\<rparr> in
               case strdup fp h2 of (f, h3) \<Rightarrow>
               case strdup sct h3 of (t, h4) \<Rightarrow>
               let u2 = u1\<lparr>user_fingerprint := f, user_serverConnectToken := t\<rparr> in
               case nm_iam_add_user nn iam u2 of (iam', out) \<Rightarrow>
               Inr ((Some u2, iam', out), h4)))))"
proof -
  have "(if length (users iam) = 0 then ''Admin'' else ''User'') = pair_role iam"
    by (simp add: pair_role_def)
  then show ?thesis
    using assms(2)
    unfolding nm_iam_pair_new_client_def nm_iam_find_user_by_coap_request_def
    by (simp only: find_by_fingerprint_inv [OF assms(1)] option.case obind_Inr Let_def)
qed

lemma pair_known:
  assumes "iam_inv iam" "client_user iam fp = Some u"
  shows "nm_iam_pair_new_client nn iam (Some fp) token h = Inr ((Some u, iam, []), h)"
  using assms(2)
  unfolding nm_iam_pair_new_client_def nm_iam_find_user_by_coap_request_def
  by (simp only: find_by_fingerprint_inv [OF assms(1)] option.case obind_Inr)

lemma pair_unknown:
  assumes "iam_inv iam" "nn_memory_available nn" "nn_string_set_laws nn" "client_user iam fp = None"
  shows "if nm_iam_find_role iam (pair_role iam) = None \<or> token = None
        then nm_iam_pair_new_client nn iam (Some fp) token [] = Inr ((None, iam, []), [])
        else \<exists>u. nm_iam_pair_new_client nn iam (Some fp) token [] =
               Inr ((Some u, iam\<lparr>users := users iam @ [u]\<rparr>,
                     AddServerConnectToken (the token) # user_changed iam (user_id u)), [])
             \<and> user_id u \<notin> set (map user_id (users iam)) \<and> user_fingerprint u = Some fp
             \<and> user_serverConnectToken u = token \<and> set (user_roles u) = {pair_role iam}"
proof -
  note pair = pair_new_unknown [OF assms(1,4), of nn token "[]"]
  obtain ident where ident: "nm_iam_next_user_id iam = Some ident" "ident \<notin> set (map user_id (users iam))"
    using next_user_id_exists by blast
  obtain s where s: "ss_insert nn [] (pair_role iam) = (True, s)" "set s = {pair_role iam}"
    by (rule ss_insert_available [OF assms(2,3), of "[]" "pair_role iam"]) simp_all
  show ?thesis
  proof (cases "nm_iam_find_role iam (pair_role iam) = None \<or> token = None")
    case True
    then have "nm_iam_pair_new_client nn iam (Some fp) token [] = Inr ((None, iam, []), [])"
      unfolding pair by (cases token) simp_all
    then show ?thesis using True by simp
  next
    case False
    then obtain t where t: "token = Some t" by auto
    let ?u = "\<lparr>user_id = ident, user_roles = s, user_fingerprint = Some fp, user_serverConnectToken = Some t, user_attributes = []\<rparr>"
    have "nm_iam_pair_new_client nn iam (Some fp) token [] =
        Inr ((Some ?u, iam\<lparr>users := users iam @ [?u]\<rparr>, AddServerConnectToken t # user_changed iam ident), [])"
      using False assms(2) unfolding pair
      by (simp add: t ident(1) s(1) nm_iam_user_new_def nm_iam_add_user_def Let_def)
    then have "\<exists>u. nm_iam_pair_new_client nn iam (Some fp) token [] =
               Inr ((Some u, iam\<lparr>users := users iam @ [u]\<rparr>,
                     AddServerConnectToken (the token) # user_changed iam (user_id u)), [])
             \<and> user_id u \<notin> set (map user_id (users iam)) \<and> user_fingerprint u = Some fp
             \<and> user_serverConnectToken u = token \<and> set (user_roles u) = {pair_role iam}"
      using ident(2) s(2) t by (intro exI [of _ ?u]) simp
    then show ?thesis using False by (simp only: if_False)
  qed
qed

text \<open>
  C15. Pairing. A client that is already paired is left as it is. A new client becomes a user with an
  identifier no other user has, its fingerprint, the new server connect token and exactly one role:
  \<open>Admin\<close> for the first user of the device and \<open>User\<close> for all others. Without that role, without a
  token or without a fingerprint nothing changes.
\<close>

theorem nm_iam_pair_new_client_spec:
  assumes "iam_inv iam" "nn_memory_available nn" "nn_string_set_laws nn"
  shows "case client_user iam fp of
     Some u \<Rightarrow> nm_iam_pair_new_client nn iam (Some fp) token [] = Inr ((Some u, iam, []), [])
   | None \<Rightarrow>
       (if nm_iam_find_role iam (pair_role iam) = None \<or> token = None
        then nm_iam_pair_new_client nn iam (Some fp) token [] = Inr ((None, iam, []), [])
        else \<exists>u. nm_iam_pair_new_client nn iam (Some fp) token [] =
               Inr ((Some u, iam\<lparr>users := users iam @ [u]\<rparr>,
                     AddServerConnectToken (the token) # user_changed iam (user_id u)), [])
             \<and> user_id u \<notin> set (map user_id (users iam)) \<and> user_fingerprint u = Some fp
             \<and> user_serverConnectToken u = token \<and> set (user_roles u) = {pair_role iam})"
proof (cases "client_user iam fp")
  case (Some u)
  then show ?thesis using pair_known [OF assms(1)] by simp
next
  case None
  then show ?thesis using pair_unknown [OF assms None, of token] by (simp only: option.case)
qed

theorem nm_iam_pair_new_client_spec_witness:
  "\<exists>u. nm_iam_pair_new_client nn_by_lists demo_iam (Some ''ab'') (Some ''token'') []
       = Inr ((Some u, demo_iam\<lparr>users := [u]\<rparr>, [AddServerConnectToken ''token'']), [])
     \<and> set (user_roles u) = {''Admin''}"
proof -
  have "iam_inv demo_iam" "client_user demo_iam ''ab'' = None" "users demo_iam = []"
    "nm_iam_find_role demo_iam ''Admin'' \<noteq> None" "userChanged demo_iam = False"
    by (simp_all add: iam_inv_def demo_iam_def nm_iam_init_def client_user_def nm_iam_find_role_def)
  then show ?thesis
    using nm_iam_pair_new_client_spec [where iam = demo_iam and nn = nn_by_lists and fp = "''ab''" and token = "Some ''token''"]
    by (auto simp: user_changed_def pair_role_def)
qed

section \<open>Uniqueness of users\<close>

lemma map_remove_first_subset: "set (remove_first p xs) \<subseteq> set xs"
  by (induction xs) auto

lemma distinct_remove_first: "distinct (map f xs) \<Longrightarrow> distinct (map f (remove_first p xs))"
  using map_remove_first_subset [of p] by (induction xs) auto

lemma map_update_first: "(\<And>x. f (g x) = f x) \<Longrightarrow> map f (update_first p g xs) = map f xs"
  by (induction xs) auto

lemma iam_inv_cong:
  "map user_id (users b) = map user_id (users a) \<Longrightarrow> map user_fingerprint (users b) = map user_fingerprint (users a) \<Longrightarrow>
     iam_inv a \<Longrightarrow> iam_inv b"
  by (simp add: iam_inv_def)

lemma iam_inv_pair:
  assumes "iam_inv iam" "nn_memory_available nn" "nn_string_set_laws nn"
  shows "\<exists>u iam' out. nm_iam_pair_new_client nn iam fp token [] = Inr ((u, iam', out), []) \<and> iam_inv iam'"
proof (cases fp)
  case None
  then show ?thesis
    using assms(1) by (simp add: nm_iam_pair_new_client_def nm_iam_find_user_by_coap_request_def)
next
  case (Some f)
  show ?thesis
  proof (cases "client_user iam f")
    case None
    then have "Some f \<notin> set (map user_fingerprint (users iam))"
      by (auto simp: client_user_def find_None_iff)
    then show ?thesis
      using pair_unknown [OF assms None, of token] assms(1) \<open>fp = Some f\<close>
      by (auto simp: iam_inv_def split: if_splits)
  next
    case (Some u)
    then show ?thesis using assms(1) pair_known [OF assms(1) Some, of nn token "[]"] \<open>fp = Some f\<close> by simp
  qed
qed

lemma iam_inv_apply:
  assumes "iam_inv iam" "nn_memory_available nn" "nn_string_set_laws nn"
  shows "\<exists>iam'. iam_apply nn x iam = Inr iam' \<and> iam_inv iam'"
proof (cases x)
  case (IamPair fp token)
  then show ?thesis using iam_inv_pair [OF assms, of fp token] by auto
next
  case (IamDelete u)
  have "None \<notin> set (map user_fingerprint (remove_first (\<lambda>v. user_id v = u) (users iam)))"
    using assms(1) map_remove_first_subset [of "\<lambda>v. user_id v = u" "users iam"] by (auto simp: iam_inv_def)
  with IamDelete show ?thesis
    using assms(1) by (auto simp: nm_iam_delete_user_def iam_inv_def distinct_remove_first)
next
  case (IamAddRole u r)
  show ?thesis
    by (simp add: IamAddRole, rule iam_inv_cong [OF _ _ assms(1)])
      (auto simp: nm_iam_add_role_to_user_def Let_def map_update_first nm_iam_user_add_role_def
        split: option.splits prod.splits)
next
  case (IamRemoveRole u r)
  show ?thesis
    by (simp add: IamRemoveRole, rule iam_inv_cong [OF _ _ assms(1)])
      (auto simp: nm_iam_remove_role_from_user_def map_update_first nm_iam_user_remove_role_def split: option.splits)
qed

text \<open>
  C17. Whatever sequence of pairings, deletions and role changes is applied, no operation fails, user
  identifiers stay unique, and every user has a fingerprint that no other user has: a client is
  never identified with two users.
\<close>

theorem nm_iam_users_unique:
  assumes "iam_inv iam" "nn_memory_available nn" "nn_string_set_laws nn"
  shows "\<exists>iam'. iam_run nn xs iam = Inr iam' \<and> distinct (map user_id (users iam'))
     \<and> distinct (map user_fingerprint (users iam')) \<and> None \<notin> set (map user_fingerprint (users iam'))"
proof -
  have "\<exists>iam'. iam_run nn xs iam = Inr iam' \<and> iam_inv iam'"
    using assms(1)
  proof (induction xs arbitrary: iam)
    case (Cons x xs)
    then show ?case using iam_inv_apply [OF _ assms(2,3), of iam x] by auto
  qed simp
  then show ?thesis by (auto simp: iam_inv_def)
qed

theorem nm_iam_users_unique_witness:
  "\<exists>iam'. iam_run nn_by_lists [IamPair (Some ''a'') (Some ''t''), IamPair (Some ''a'') (Some ''t''), IamDelete ''1''] demo_iam = Inr iam'
     \<and> distinct (map user_fingerprint (users iam'))"
proof -
  have "iam_inv demo_iam" by (simp add: iam_inv_def demo_iam_def nm_iam_init_def)
  then show ?thesis
    using nm_iam_users_unique [of demo_iam nn_by_lists "[IamPair (Some ''a'') (Some ''t''), IamPair (Some ''a'') (Some ''t''), IamDelete ''1'']"]
    by auto
qed

end
