(* ===== verification/NcCoap.thy ===== *)
theory NcCoap
  imports NpPlatform
begin

text \<open>
  What the device sees of CoAP and CBOR. The CoAP engine (\<^verbatim>\<open>nabto-common\<close>) and the CBOR library
  (\<^verbatim>\<open>tinycbor\<close>) are not part of the repository: responses are records with what the accessors
  return, and the CBOR reader is a record of the functions the sources call. The translation of
  error codes (\<^verbatim>\<open>src/core/nc_coap.c\<close>) and the reading of error responses
  (\<^verbatim>\<open>src/core/nc_coap_rest_error.c\<close>) are modelled on top of them.
\<close>

section \<open>CBOR\<close>

text \<open>
  A CBOR item, as it is built by the calls of the encoder between \<open>cbor_encoder_create_map\<close> or
  \<open>cbor_encoder_create_array\<close> and \<open>cbor_encoder_close_container\<close>.
\<close>

datatype cbor =
    CborInvalid
  | CborUint u64
  | CborInt int
  | CborText string
  | CborBytes "u8 list"
  | CborArray "cbor list"
  | CborMap "(cbor \<times> cbor) list"

text \<open>
  The functions that read values of type \<open>'v\<close>. A failing find leaves an invalid value, for which
  every type test is false. The lengths are \<open>None\<close> when the function returns an error.
  \<open>cbor_copy_text v n buf\<close> is the contents of the buffer \<open>buf\<close> after
  \<open>cbor_value_copy_text_string\<close> was called with it and the length \<open>n\<close>, and \<open>cbor_copy_ok v n\<close> whether the
  call reports success.
\<close>

record 'v tinycbor =
  cbor_parser_init :: "u8 list \<Rightarrow> 'v"
  cbor_is_map :: "'v \<Rightarrow> bool"
  cbor_is_uint :: "'v \<Rightarrow> bool"
  cbor_is_integer :: "'v \<Rightarrow> bool"
  cbor_is_text :: "'v \<Rightarrow> bool"
  cbor_is_bytes :: "'v \<Rightarrow> bool"
  cbor_map_find :: "'v \<Rightarrow> string \<Rightarrow> 'v"
  cbor_get_uint64 :: "'v \<Rightarrow> u64"
  cbor_get_int :: "'v \<Rightarrow> int"
  cbor_get_string_length :: "'v \<Rightarrow> nat option"
  cbor_calculate_string_length :: "'v \<Rightarrow> nat option"
  cbor_copy_text :: "'v \<Rightarrow> nat \<Rightarrow> char list \<Rightarrow> char list"
  cbor_copy_ok :: "'v \<Rightarrow> nat \<Rightarrow> bool"

text \<open>
  The documented behaviour of \<open>cbor_value_copy_text_string\<close> on a value that holds \<open>txt\<close>: the bytes
  of the text are copied, and a null byte follows if the given length leaves room for it.
\<close>

definition cbor_copy_law :: "('v, 'z) tinycbor_scheme \<Rightarrow> 'v \<Rightarrow> string \<Rightarrow> bool" where
  "cbor_copy_law T v txt \<longleftrightarrow>
     (\<forall>n buf. length txt \<le> n \<longrightarrow> n \<le> length buf \<longrightarrow>
        cbor_copy_ok T v n
        \<and> cbor_copy_text T v n buf
          = (if length txt < n then txt @ NUL # drop (Suc (length txt)) buf
             else txt @ drop (length txt) buf))"

text \<open>
  An instance whose values are items and whose payloads all encode the item \<open>root\<close>; the witnesses
  use it.
\<close>

definition find_text :: "(cbor \<times> cbor) list \<Rightarrow> string \<Rightarrow> cbor" where
  "find_text kvs k = (case map_of kvs (CborText k) of None \<Rightarrow> CborInvalid | Some v \<Rightarrow> v)"

fun text_of :: "cbor \<Rightarrow> string" where
  "text_of (CborText s) = s"
| "text_of _ = []"

definition copy_text :: "string \<Rightarrow> nat \<Rightarrow> char list \<Rightarrow> char list" where
  "copy_text txt n buf =
     (if length txt < n then txt @ NUL # drop (Suc (length txt)) buf else txt @ drop (length txt) buf)"

definition cbor_by_item :: "cbor \<Rightarrow> cbor tinycbor" where
  "cbor_by_item root =
     \<lparr>cbor_parser_init = (\<lambda>_. root),
      cbor_is_map = (\<lambda>v. case v of CborMap _ \<Rightarrow> True | _ \<Rightarrow> False),
      cbor_is_uint = (\<lambda>v. case v of CborUint _ \<Rightarrow> True | _ \<Rightarrow> False),
      cbor_is_integer = (\<lambda>v. case v of CborUint _ \<Rightarrow> True | CborInt _ \<Rightarrow> True | _ \<Rightarrow> False),
      cbor_is_text = (\<lambda>v. case v of CborText _ \<Rightarrow> True | _ \<Rightarrow> False),
      cbor_is_bytes = (\<lambda>v. case v of CborBytes _ \<Rightarrow> True | _ \<Rightarrow> False),
      cbor_map_find = (\<lambda>v k. case v of CborMap kvs \<Rightarrow> find_text kvs k | _ \<Rightarrow> CborInvalid),
      cbor_get_uint64 = (\<lambda>v. case v of CborUint n \<Rightarrow> n | _ \<Rightarrow> 0),
      cbor_get_int = (\<lambda>v. case v of CborUint n \<Rightarrow> uint n | CborInt i \<Rightarrow> i | _ \<Rightarrow> 0),
      cbor_get_string_length = (\<lambda>v. Some (length (text_of v))),
      cbor_calculate_string_length = (\<lambda>v. Some (length (text_of v))),
      cbor_copy_text = (\<lambda>v. copy_text (text_of v)),
      cbor_copy_ok = (\<lambda>v n. length (text_of v) \<le> n)\<rparr>"

lemmas cbor_by_item_simps = cbor_by_item_def find_text_def copy_text_def

lemma cbor_copy_law_by_item [simp]: "cbor_copy_law (cbor_by_item root) (CborText s) s"
  by (simp add: cbor_copy_law_def cbor_by_item_simps)

section \<open>CoAP\<close>

text \<open>The constants of the engine that the sources name; any other value is an \<open>Other\<close>.\<close>

datatype nabto_coap_error =
    NABTO_COAP_ERROR_OK | NABTO_COAP_ERROR_OUT_OF_MEMORY | NABTO_COAP_ERROR_NO_CONNECTION
  | NABTO_COAP_ERROR_INVALID_PARAMETER | NABTO_COAP_ERROR_Other nat

fun nc_coap_error_to_core :: "nabto_coap_error \<Rightarrow> np_error_code" where
  "nc_coap_error_to_core NABTO_COAP_ERROR_OK = NABTO_EC_OK"
| "nc_coap_error_to_core NABTO_COAP_ERROR_OUT_OF_MEMORY = NABTO_EC_OUT_OF_MEMORY"
| "nc_coap_error_to_core NABTO_COAP_ERROR_NO_CONNECTION = NABTO_EC_ABORTED"
| "nc_coap_error_to_core NABTO_COAP_ERROR_INVALID_PARAMETER = NABTO_EC_INVALID_ARGUMENT"
| "nc_coap_error_to_core _ = NABTO_EC_UNKNOWN"

definition nc_coap_is_status_ok :: "u16 \<Rightarrow> bool" where
  "nc_coap_is_status_ok code \<longleftrightarrow> code \<ge> 200 \<and> code < 300"

record coap_response =
  res_code :: u16
  res_content_format :: "u16 option"
  res_payload :: "u8 list option"

datatype nc_coap_rest_error =
    NC_COAP_REST_ERROR_UNKNOWN | NC_COAP_REST_ERROR_UNKNOWN_DEVICE_FINGERPRINT
  | NC_COAP_REST_ERROR_WRONG_PRODUCT_ID | NC_COAP_REST_ERROR_WRONG_DEVICE_ID

text \<open>\<open>cbor_format\<close> is \<open>NABTO_COAP_CONTENT_FORMAT_APPLICATION_CBOR\<close> of the CoAP engine.\<close>

definition nc_coap_rest_error_handle_response ::
    "'v tinycbor \<Rightarrow> u16 \<Rightarrow> coap_response \<Rightarrow> nc_coap_rest_error" where
  "nc_coap_rest_error_handle_response T cbor_format response =
     (case (res_content_format response, res_payload response) of
        (Some contentFormat, Some payload) \<Rightarrow>
          if contentFormat \<noteq> cbor_format then NC_COAP_REST_ERROR_UNKNOWN
          else let root = cbor_parser_init T payload in
          if \<not> cbor_is_map T root then NC_COAP_REST_ERROR_UNKNOWN
          else let error = cbor_map_find T root ''Error'' in
          if \<not> cbor_is_map T error then NC_COAP_REST_ERROR_UNKNOWN
          else let cborCode = cbor_map_find T error ''Code'';
                   code = (if cbor_is_integer T cborCode then cbor_get_int T cborCode else 0) in
          if code = 5 then NC_COAP_REST_ERROR_UNKNOWN_DEVICE_FINGERPRINT
          else if code = 7 then NC_COAP_REST_ERROR_WRONG_PRODUCT_ID
          else if code = 8 then NC_COAP_REST_ERROR_WRONG_DEVICE_ID
          else NC_COAP_REST_ERROR_UNKNOWN
      | _ \<Rightarrow> NC_COAP_REST_ERROR_UNKNOWN)"

end
