(* ===== verification/NcAttacher.thy ===== *)
theory NcAttacher
  imports NcKeepAlive NcDnsResolver NcCoap NnLib
begin

text \<open>
  The attacher (\<^verbatim>\<open>src/core/nc_attacher.c\<close> with \<^verbatim>\<open>nc_attacher_attach_start.c\<close>,
  \<^verbatim>\<open>nc_attacher_attach_end.c\<close> and \<^verbatim>\<open>nc_attacher_sct.c\<close>): the state machine that keeps the device
  attached to a basestation. Each handler of the sources is a function of the attacher's context
  that returns the new context and the calls made to the event queue, the DNS resolver, the DTLS
  client, the CoAP client and the UDP dispatcher.
\<close>

section \<open>State\<close>

definition ACCESS_DENIED_WAIT_TIME :: u32 where "ACCESS_DENIED_WAIT_TIME = 3600000"
definition RETRY_WAIT_TIME :: u32 where "RETRY_WAIT_TIME = 10000"
definition MAX_REDIRECT_FOLLOW :: u8 where "MAX_REDIRECT_FOLLOW = 5"
definition NC_ATTACHER_MAX_ENDPOINTS :: nat where "NC_ATTACHER_MAX_ENDPOINTS = 4"
definition NC_ATTACHER_MAX_IPS :: nat where "NC_ATTACHER_MAX_IPS = 4"
definition ATTACH_STATUS_ATTACHED :: u64 where "ATTACH_STATUS_ATTACHED = 0"
definition ATTACH_STATUS_REDIRECT :: u64 where "ATTACH_STATUS_REDIRECT = 1"

datatype nc_attacher_attach_state =
    NC_ATTACHER_STATE_DNS
  | NC_ATTACHER_STATE_DTLS_ATTACH_REQUEST
  | NC_ATTACHER_STATE_RETRY_WAIT
  | NC_ATTACHER_STATE_ACCESS_DENIED_WAIT
  | NC_ATTACHER_STATE_REDIRECT
  | NC_ATTACHER_STATE_ATTACHED
  | NC_ATTACHER_STATE_CLOSED

datatype nc_attacher_module_state =
    NC_ATTACHER_MODULE_SETUP
  | NC_ATTACHER_MODULE_RUNNING
  | NC_ATTACHER_MODULE_CLOSED

datatype nc_attacher_status =
    NC_ATTACHER_STATUS_ATTACHED
  | NC_ATTACHER_STATUS_REDIRECT
  | NC_ATTACHER_STATUS_ERROR

datatype nc_device_event = NC_DEVICE_EVENT_ATTACHED | NC_DEVICE_EVENT_DETACHED | NC_DEVICE_EVENT_CLOSED

text \<open>The two functions that are passed as the callback of an upload of server connect tokens.\<close>

datatype nc_attacher_sct_callback = SendAttachSctRequestCallback | SendSctRequestCallback

record nc_attacher_sct_context =
  scts :: "string list"
  sct_version :: u64
  synchronizedVersion :: u64
  uploadingVersion :: u64
  sctCallback :: "nc_attacher_sct_callback option"

text \<open>
  A callback of the DTLS client with its data is a number. The completion event of the sender
  runs either such a callback or \<open>initial_packet_sent\<close>.
\<close>

datatype sender_completion = InitialPacketSent | DtlsSendCallback nat

record nc_attacher_initial_packet_send =
  packetBuffer :: "u8 list"
  packetCb :: "nat option"
  endpointsIndex :: nat
  endpointsSize :: nat
  endpoints :: "np_udp_endpoint list"

text \<open>
  The arrays \<open>resolvedIps\<close> and the size \<open>resolvedIpsSize\<close> of the source are the fields \<open>ips\<close> and
  \<open>ipsResolved\<close> of the resolver, which points to them. The callback pointers that are only ever
  set to one function or to null, and the listeners, are kept as whether they are set.
\<close>

record nc_attach_context =
  appName :: "string option"
  appVersion :: "string option"
  productId :: "string option"
  deviceId :: "string option"
  hostname :: string
  defaultPort :: u16
  listener :: bool
  stateListener :: bool
  udpSet :: bool
  attachState :: nc_attacher_attach_state
  moduleState :: nc_attacher_module_state
  initialPacket :: nc_attacher_initial_packet_send
  activeEp :: "np_udp_endpoint option"   \<comment> \<open>\<open>None\<close> when \<open>hasActiveEp\<close> is false\<close>
  currentPort :: u16
  dns :: "char list"
  dnsMultiResolver :: nc_dns_multi_resolver_context
  redirectAttempts :: u8
  startCallback :: bool
  endCallback :: bool
  stunHost :: "char list"
  stunPort :: u16
  keepAlive :: nc_keep_alive_context
  closedCb :: bool
  senderCompletionEvent :: "sender_completion option"
  retryWaitTime :: u32
  accessDeniedWaitTime :: u32
  sctContext :: nc_attacher_sct_context

datatype attach_request = AttachStart | AttachEnd | SctUpload

datatype attacher_output =
    PostReattachTimer u32 | CancelReattachTimer
  | PostCloseEvent | CancelCloseEvent
  | DnsCall dns_output
  | DtlsSetSni string | DtlsConnect | DtlsClose | DtlsReset | DtlsDestroy
  | DtlsSetKeys "u8 list" "u8 list" | DtlsSetHandshakeTimeout u32 u32
  | DtlsHandlePacket "u8 list" | DtlsSendData "u8 list"
  | CoapRemoveConnection
  | CoapSend attach_request "cbor option"
  | CoapHandlePacket "u8 list"
  | UdpSend np_udp_endpoint "u8 list"
  | UdpSetAttachContext | UdpClearAttachContext
  | SendCallback nat np_error_code
  | StateListener nc_attacher_attach_state
  | DeviceEvent nc_device_event
  | ClosedCallback
  | KeepAliveEvent ka_event_call

type_synonym attacher_act = "(nc_attach_context, attacher_output) act"

text \<open>
  What the functions of other modules return to a handler: the protocol negotiated by DTLS, and
  for each CoAP request whether its buffer and the request can be allocated and the result of
  setting the payload.
\<close>

record attacher_env =
  env_alpn :: bool
  env_malloc :: "attach_request \<Rightarrow> bool"
  env_request_new :: "attach_request \<Rightarrow> bool"
  env_set_payload :: "attach_request \<Rightarrow> nabto_coap_error"

abbreviation set_state :: "nc_attacher_attach_state \<Rightarrow> nc_attach_context \<Rightarrow> nc_attach_context" where
  "set_state s \<equiv> attachState_update (\<lambda>_. s)"

section \<open>State changes\<close>

definition dns_start_resolve :: attacher_act where
  "dns_start_resolve ctx =
     obind (c_str (dns ctx)) (\<lambda>host.
       case nc_dns_multi_resolver_resolve (dnsMultiResolver ctx) host (ips (dnsMultiResolver ctx)) NC_ATTACHER_MAX_IPS
       of (r, calls) \<Rightarrow> Inr (ctx\<lparr>dnsMultiResolver := r\<rparr>, map DnsCall calls))"

definition state_entry :: attacher_act where
  "state_entry ctx =
     (case attachState ctx of
        NC_ATTACHER_STATE_DNS \<Rightarrow> dns_start_resolve ctx
      | NC_ATTACHER_STATE_CLOSED \<Rightarrow> emit [PostCloseEvent] ctx
      | NC_ATTACHER_STATE_REDIRECT \<Rightarrow> emit [] ctx
      | NC_ATTACHER_STATE_RETRY_WAIT \<Rightarrow> emit [PostReattachTimer (retryWaitTime ctx)] ctx
      | NC_ATTACHER_STATE_ACCESS_DENIED_WAIT \<Rightarrow> emit [PostReattachTimer (accessDeniedWaitTime ctx)] ctx
      | NC_ATTACHER_STATE_DTLS_ATTACH_REQUEST \<Rightarrow> emit [DtlsSetSni (hostname ctx), DtlsConnect] ctx
      | NC_ATTACHER_STATE_ATTACHED \<Rightarrow> emit [] ctx)"

definition handle_state_change :: attacher_act where
  "handle_state_change =
     andThen state_entry (\<lambda>c. emit (if stateListener c then [StateListener (attachState c)] else []) c)"

definition do_close :: attacher_act where
  "do_close ctx =
     (if moduleState ctx = NC_ATTACHER_MODULE_SETUP then emit [PostCloseEvent] ctx
      else let c = ctx\<lparr>moduleState := NC_ATTACHER_MODULE_CLOSED\<rparr> in
        case attachState c of
          NC_ATTACHER_STATE_RETRY_WAIT \<Rightarrow>
            andThen (emit [CancelReattachTimer]) handle_state_change (set_state NC_ATTACHER_STATE_CLOSED c)
        | NC_ATTACHER_STATE_ACCESS_DENIED_WAIT \<Rightarrow>
            andThen (emit [CancelReattachTimer]) handle_state_change (set_state NC_ATTACHER_STATE_CLOSED c)
        | NC_ATTACHER_STATE_CLOSED \<Rightarrow> emit [PostCloseEvent] c
        | NC_ATTACHER_STATE_DTLS_ATTACH_REQUEST \<Rightarrow> emit [DtlsClose] c
        | NC_ATTACHER_STATE_ATTACHED \<Rightarrow> emit [DtlsClose] c
        | NC_ATTACHER_STATE_DNS \<Rightarrow> emit [] c
        | NC_ATTACHER_STATE_REDIRECT \<Rightarrow> emit [] c)"

definition resolve_close :: attacher_act where
  "resolve_close ctx =
     andThen (emit [CancelReattachTimer, CancelCloseEvent])
       (\<lambda>c. if closedCb c then emit [ClosedCallback] (c\<lparr>closedCb := False\<rparr>) else emit [] c) ctx"

text \<open>The loop over the resolved addresses; its guard tests \<open>endpointsIndex\<close>, which the loop does not change.\<close>

fun add_endpoints ::
    "nc_attach_context \<Rightarrow> nat list \<Rightarrow> nc_attacher_initial_packet_send \<Rightarrow> nc_attacher_initial_packet_send outcome" where
  "add_endpoints ctx [] p = Inr p"
| "add_endpoints ctx (i # is) p =
     (if endpointsIndex p < NC_ATTACHER_MAX_ENDPOINTS then
        obind (rd (ips (dnsMultiResolver ctx)) i) (\<lambda>ip.
          if endpointsSize p < length (endpoints p) then
            add_endpoints ctx is
              (p\<lparr>endpoints := (endpoints p)[endpointsSize p := \<lparr>ep_ip = ip, ep_port = currentPort ctx\<rparr>],
                 endpointsSize := endpointsSize p + 1\<rparr>)
          else Inl OutOfBounds)
      else add_endpoints ctx is p)"

definition dns_resolved_callback :: "np_error_code \<Rightarrow> attacher_act" where
  "dns_resolved_callback ec ctx =
     (if moduleState ctx = NC_ATTACHER_MODULE_CLOSED then
        handle_state_change (set_state NC_ATTACHER_STATE_CLOSED ctx)
      else if ec \<noteq> NABTO_EC_OK then
        handle_state_change (set_state NC_ATTACHER_STATE_RETRY_WAIT ctx)
      else
        obind (add_endpoints ctx [0..<ipsResolved (dnsMultiResolver ctx)]
                 ((initialPacket ctx)\<lparr>endpointsSize := 0, endpointsIndex := 0\<rparr>)) (\<lambda>p.
          handle_state_change
            (set_state NC_ATTACHER_STATE_DTLS_ATTACH_REQUEST (ctx\<lparr>initialPacket := p, activeEp := None\<rparr>))))"

definition reattach :: attacher_act where
  "reattach ctx =
     (if moduleState ctx = NC_ATTACHER_MODULE_CLOSED then
        handle_state_change (set_state NC_ATTACHER_STATE_CLOSED ctx)
      else
        obind (memcpy (dns ctx) (hostname ctx @ [NUL])) (\<lambda>d.
          handle_state_change
            (ctx\<lparr>dns := d, currentPort := defaultPort ctx, attachState := NC_ATTACHER_STATE_DNS,
                 redirectAttempts := 0\<rparr>)))"

section \<open>Uploading server connect tokens\<close>

definition encode_scts :: "string list \<Rightarrow> cbor" where
  "encode_scts s = CborArray (map CborText s)"

definition nc_attacher_sct_upload ::
    "attacher_env \<Rightarrow> nc_attacher_sct_callback \<Rightarrow> nc_attach_context
       \<Rightarrow> np_error_code \<times> nc_attach_context \<times> attacher_output list" where
  "nc_attacher_sct_upload env cb ctx =
     (let sct = sctContext ctx in
      if sct_version sct = synchronizedVersion sct then (NABTO_EC_NO_OPERATION, ctx, [])
      else if sctCallback sct \<noteq> None then (NABTO_EC_OPERATION_IN_PROGRESS, ctx, [])
      else if \<not> env_malloc env SctUpload then (NABTO_EC_OUT_OF_MEMORY, ctx, [])
      else if \<not> env_request_new env SctUpload then (NABTO_EC_OUT_OF_MEMORY, ctx, [])
      else if env_set_payload env SctUpload \<noteq> NABTO_COAP_ERROR_OK then
        (nc_coap_error_to_core (env_set_payload env SctUpload), ctx, [])
      else
        (NABTO_EC_OPERATION_STARTED,
         ctx\<lparr>sctContext := sct\<lparr>sctCallback := Some cb, uploadingVersion := sct_version sct\<rparr>\<rparr>,
         [CoapSend SctUpload (Some (encode_scts (scts sct)))]))"

definition send_sct_request :: "attacher_env \<Rightarrow> attacher_act" where
  "send_sct_request env ctx =
     (case nc_attacher_sct_upload env SendSctRequestCallback ctx of (ec, c, calls) \<Rightarrow> Inr (c, calls))"

definition send_sct_request_callback :: "attacher_env \<Rightarrow> np_error_code \<Rightarrow> attacher_act" where
  "send_sct_request_callback env ec ctx =
     (if ec = NABTO_EC_OK then send_sct_request env ctx else emit [] ctx)"

definition nc_attacher_add_server_connect_token ::
    "'z nn_lib_scheme \<Rightarrow> attacher_env \<Rightarrow> string \<Rightarrow> nc_attach_context
       \<Rightarrow> (np_error_code \<times> nc_attach_context \<times> attacher_output list) outcome" where
  "nc_attacher_add_server_connect_token nn env token ctx =
     (let sct = (sctContext ctx)\<lparr>sct_version := sct_version (sctContext ctx) + 1\<rparr> in
      case ss_insert nn (scts sct) token of
        (False, s) \<Rightarrow> Inr (NABTO_EC_OUT_OF_MEMORY, ctx\<lparr>sctContext := sct\<lparr>scts := s\<rparr>\<rparr>, [])
      | (True, s) \<Rightarrow>
          let c = ctx\<lparr>sctContext := sct\<lparr>scts := s\<rparr>\<rparr> in
          obind (if attachState c = NC_ATTACHER_STATE_ATTACHED then send_sct_request env c else Inr (c, []))
            (\<lambda>(c', calls). Inr (NABTO_EC_OK, c', calls)))"

definition nc_attacher_is_server_connect_tokens_synchronized :: "nc_attach_context \<Rightarrow> np_error_code" where
  "nc_attacher_is_server_connect_tokens_synchronized ctx =
     (if attachState ctx = NC_ATTACHER_STATE_ATTACHED then
        if synchronizedVersion (sctContext ctx) = sct_version (sctContext ctx)
        then NABTO_EC_OK else NABTO_EC_OPERATION_IN_PROGRESS
      else NABTO_EC_OK)"

section \<open>The attach requests\<close>

definition coap_attach_failed :: attacher_act where
  "coap_attach_failed = emit [DtlsClose]"

text \<open>\<open>nabto_version\<close> is the result of \<open>nc_version\<close>, which the build generates.\<close>

definition encode_cbor_request :: "string \<Rightarrow> nc_attach_context \<Rightarrow> cbor outcome" where
  "encode_cbor_request nabto_version ctx =
     obind (deref (appName ctx)) (\<lambda>name.
     obind (deref (appVersion ctx)) (\<lambda>ver.
     obind (deref (productId ctx)) (\<lambda>product.
     obind (deref (deviceId ctx)) (\<lambda>device.
       Inr (CborMap [(CborText ''NabtoVersion'', CborText nabto_version),
                     (CborText ''AppName'', CborText name),
                     (CborText ''AppVersion'', CborText ver),
                     (CborText ''ProductId'', CborText product),
                     (CborText ''DeviceId'', CborText device)])))))"

definition nc_attacher_attach_start_request ::
    "attacher_env \<Rightarrow> string \<Rightarrow> nc_attach_context
       \<Rightarrow> (np_error_code \<times> nc_attach_context \<times> attacher_output list) outcome" where
  "nc_attacher_attach_start_request env nabto_version ctx =
     (if startCallback ctx then Inr (NABTO_EC_OPERATION_IN_PROGRESS, ctx, [])
      else obind (encode_cbor_request nabto_version ctx) (\<lambda>payload.
        Inr (if \<not> env_malloc env AttachStart then (NABTO_EC_OUT_OF_MEMORY, ctx, [])
             else if \<not> env_request_new env AttachStart then (NABTO_EC_OUT_OF_MEMORY, ctx, [])
             else if env_set_payload env AttachStart \<noteq> NABTO_COAP_ERROR_OK then
               (nc_coap_error_to_core (env_set_payload env AttachStart), ctx, [])
             else (NABTO_EC_OPERATION_STARTED, ctx\<lparr>startCallback := True\<rparr>, [CoapSend AttachStart (Some payload)]))))"

definition nc_attacher_attach_end_request ::
    "attacher_env \<Rightarrow> nc_attach_context \<Rightarrow> np_error_code \<times> nc_attach_context \<times> attacher_output list" where
  "nc_attacher_attach_end_request env ctx =
     (if endCallback ctx then (NABTO_EC_OPERATION_IN_PROGRESS, ctx, [])
      else if \<not> env_request_new env AttachEnd then (NABTO_EC_OUT_OF_MEMORY, ctx, [])
      else (NABTO_EC_OPERATION_STARTED, ctx\<lparr>endCallback := True\<rparr>, [CoapSend AttachEnd None]))"

definition send_attach_start_request :: "attacher_env \<Rightarrow> string \<Rightarrow> attacher_act" where
  "send_attach_start_request env nabto_version ctx =
     obind (nc_attacher_attach_start_request env nabto_version ctx) (\<lambda>(ec, c, calls).
       andThen (emit calls) (if ec \<noteq> NABTO_EC_OPERATION_STARTED then coap_attach_failed else emit []) c)"

definition send_attach_end_request :: "attacher_env \<Rightarrow> attacher_act" where
  "send_attach_end_request env ctx =
     (case nc_attacher_attach_end_request env ctx of (ec, c, calls) \<Rightarrow>
        andThen (emit calls) (if ec \<noteq> NABTO_EC_OPERATION_STARTED then coap_attach_failed else emit []) c)"

definition send_attach_sct_request :: "attacher_env \<Rightarrow> attacher_act" where
  "send_attach_sct_request env ctx =
     (case nc_attacher_sct_upload env SendAttachSctRequestCallback ctx of (ec, c, calls) \<Rightarrow>
        andThen (emit calls)
          (if ec = NABTO_EC_NO_OPERATION then send_attach_end_request env
           else if ec = NABTO_EC_OPERATION_STARTED then emit []
           else coap_attach_failed) c)"

definition send_attach_sct_request_callback :: "attacher_env \<Rightarrow> np_error_code \<Rightarrow> attacher_act" where
  "send_attach_sct_request_callback env ec ctx =
     (if moduleState ctx = NC_ATTACHER_MODULE_CLOSED then coap_attach_failed ctx
      else if ec = NABTO_EC_OK then send_attach_end_request env ctx
      else coap_attach_failed ctx)"

text \<open>The completion of an upload. The code of a missing response is read from a null pointer.\<close>

definition sct_request_handler :: "attacher_env \<Rightarrow> coap_response option \<Rightarrow> attacher_act" where
  "sct_request_handler env res ctx =
     obind (deref res) (\<lambda>r.
       let sct = sctContext ctx;
           ok = nc_coap_is_status_ok (res_code r);
           status = (if ok then NABTO_EC_OK else NABTO_EC_UNKNOWN);
           sct' = sct\<lparr>synchronizedVersion := (if ok then uploadingVersion sct else synchronizedVersion sct),
                       sctCallback := None\<rparr>
       in obind (deref (sctCallback sct)) (\<lambda>cb.
            (case cb of
               SendAttachSctRequestCallback \<Rightarrow> send_attach_sct_request_callback env status
             | SendSctRequestCallback \<Rightarrow> send_sct_request_callback env status)
            (ctx\<lparr>sctContext := sct'\<rparr>)))"

definition coap_attach_start_callback :: "attacher_env \<Rightarrow> nc_attacher_status \<Rightarrow> attacher_act" where
  "coap_attach_start_callback env status ctx =
     (if moduleState ctx = NC_ATTACHER_MODULE_CLOSED then coap_attach_failed ctx
      else case status of
        NC_ATTACHER_STATUS_ATTACHED \<Rightarrow> send_attach_sct_request env ctx
      | NC_ATTACHER_STATUS_REDIRECT \<Rightarrow>
          emit [DtlsClose]
            (ctx\<lparr>attachState := NC_ATTACHER_STATE_REDIRECT, redirectAttempts := redirectAttempts ctx + 1\<rparr>)
      | NC_ATTACHER_STATUS_ERROR \<Rightarrow> coap_attach_failed ctx)"

text \<open>The callback of \<^verbatim>\<open>nc_attacher.c\<close> for the attach end request.\<close>

definition coap_attach_end_handler :: "attacher_env \<Rightarrow> np_error_code \<Rightarrow> attacher_act" where
  "coap_attach_end_handler env ec ctx =
     (if ec \<noteq> NABTO_EC_OK then coap_attach_failed ctx
      else if moduleState ctx = NC_ATTACHER_MODULE_CLOSED then coap_attach_failed ctx
      else case nc_keep_alive_wait (keepAlive ctx) of (ka, evs) \<Rightarrow>
        andThen (emit (map KeepAliveEvent evs))
          (andThen handle_state_change
            (andThen (\<lambda>c. emit (if listener c then [DeviceEvent NC_DEVICE_EVENT_ATTACHED] else []) c)
              (send_sct_request env)))
          (ctx\<lparr>keepAlive := ka, attachState := NC_ATTACHER_STATE_ATTACHED\<rparr>))"

text \<open>The handler of \<^verbatim>\<open>nc_attacher_attach_end.c\<close>, of the same name in the sources.\<close>

definition attach_end_response_handler :: "attacher_env \<Rightarrow> coap_response option \<Rightarrow> attacher_act" where
  "attach_end_response_handler env res ctx =
     (let status = (case res of None \<Rightarrow> NABTO_EC_UNKNOWN
                    | Some r \<Rightarrow> if nc_coap_is_status_ok (res_code r) then NABTO_EC_OK else NABTO_EC_UNKNOWN)
      in if endCallback ctx then coap_attach_end_handler env status (ctx\<lparr>endCallback := False\<rparr>)
         else Inl NullPointer)"

section \<open>The response to the attach start request\<close>

definition apply_keep_alive_settings ::
    "'v tinycbor \<Rightarrow> 'v \<Rightarrow> nc_attach_context \<Rightarrow> nc_attach_context outcome" where
  "apply_keep_alive_settings T ka ctx =
     (let interval = cbor_map_find T ka ''Interval'';
          retryInterval = cbor_map_find T ka ''RetryInterval'';
          maxRetries = cbor_map_find T ka ''MaxRetries''
      in if cbor_is_map T ka \<and> cbor_is_uint T interval \<and> cbor_is_uint T retryInterval \<and> cbor_is_uint T maxRetries
         then obind (nc_keep_alive_set_settings (keepAlive ctx) (ucast (cbor_get_uint64 T interval))
                       (ucast (cbor_get_uint64 T retryInterval)) (ucast (cbor_get_uint64 T maxRetries)))
                (\<lambda>k. Inr (ctx\<lparr>keepAlive := k\<rparr>))
         else Inr ctx)"

definition apply_stun :: "'v tinycbor \<Rightarrow> 'v \<Rightarrow> nc_attach_context \<Rightarrow> nc_attach_context" where
  "apply_stun T stun ctx =
     (let host = cbor_map_find T stun ''Host''; port = cbor_map_find T stun ''Port''
      in if cbor_is_map T stun \<and> cbor_is_text T host \<and> cbor_is_uint T port then
           (case cbor_calculate_string_length T host of
              None \<Rightarrow> ctx
            | Some stringLength \<Rightarrow>
                if stringLength > length (stunHost ctx) - 1 then ctx
                else ctx\<lparr>stunHost := cbor_copy_text T host (length (stunHost ctx)) (replicate (length (stunHost ctx)) NUL),
                         stunPort := ucast (cbor_get_uint64 T port)\<rparr>)
         else ctx)"

definition handle_attached ::
    "'v tinycbor \<Rightarrow> 'v \<Rightarrow> nc_attach_context \<Rightarrow> (nc_attacher_status \<times> nc_attach_context) outcome" where
  "handle_attached T root ctx =
     obind (apply_keep_alive_settings T (cbor_map_find T root ''KeepAlive'') ctx) (\<lambda>c.
       Inr (NC_ATTACHER_STATUS_ATTACHED, apply_stun T (cbor_map_find T root ''Stun'') c))"

text \<open>
  The length of the host is not initialised when \<open>cbor_value_get_string_length\<close> fails. The length
  given to the copy is that of the text, which leaves no room for a null byte.
\<close>

definition handle_redirect ::
    "'v tinycbor \<Rightarrow> 'v \<Rightarrow> nc_attach_context \<Rightarrow> (nc_attacher_status \<times> nc_attach_context) outcome" where
  "handle_redirect T root ctx =
     (let host = cbor_map_find T root ''Host'';
          port = cbor_map_find T root ''Port'';
          fingerprint = cbor_map_find T root ''Fingerprint''
      in if cbor_is_text T host \<and> cbor_is_uint T port \<and> cbor_is_bytes T fingerprint then
           (case cbor_get_string_length T host of
              None \<Rightarrow> Inl Uninitialized
            | Some hostLength \<Rightarrow>
                if hostLength < 1 \<or> hostLength > 256 then Inr (NC_ATTACHER_STATUS_ERROR, ctx)
                else Inr (NC_ATTACHER_STATUS_REDIRECT,
                          ctx\<lparr>dns := cbor_copy_text T host hostLength (dns ctx),
                              currentPort := ucast (cbor_get_uint64 T port)\<rparr>))
         else Inr (NC_ATTACHER_STATUS_ERROR, ctx))"

definition coap_attach_start_handle_response ::
    "'v tinycbor \<Rightarrow> coap_response option \<Rightarrow> nc_attach_context
       \<Rightarrow> (nc_attacher_status \<times> nc_attach_context) outcome" where
  "coap_attach_start_handle_response T res ctx =
     (case res of
        None \<Rightarrow> Inr (NC_ATTACHER_STATUS_ERROR, ctx)
      | Some r \<Rightarrow>
          if \<not> nc_coap_is_status_ok (res_code r) then Inr (NC_ATTACHER_STATUS_ERROR, ctx)
          else case res_payload r of
            None \<Rightarrow> Inr (NC_ATTACHER_STATUS_ERROR, ctx)
          | Some payload \<Rightarrow>
              let root = cbor_parser_init T payload in
              if \<not> cbor_is_map T root then Inr (NC_ATTACHER_STATUS_ERROR, ctx)
              else let status = cbor_map_find T root ''Status'' in
              if \<not> cbor_is_uint T status then Inr (NC_ATTACHER_STATUS_ERROR, ctx)
              else let s = cbor_get_uint64 T status in
              if s = ATTACH_STATUS_ATTACHED then handle_attached T root ctx
              else if s = ATTACH_STATUS_REDIRECT then handle_redirect T root ctx
              else Inr (NC_ATTACHER_STATUS_ERROR, ctx))"

definition coap_attach_start_handler ::
    "'v tinycbor \<Rightarrow> attacher_env \<Rightarrow> coap_response option \<Rightarrow> attacher_act" where
  "coap_attach_start_handler T env res ctx =
     obind (coap_attach_start_handle_response T res ctx) (\<lambda>(status, c).
       if startCallback ctx then coap_attach_start_callback env status (c\<lparr>startCallback := False\<rparr>)
       else Inl NullPointer)"

section \<open>DTLS events\<close>

definition handle_dtls_connected :: "attacher_env \<Rightarrow> string \<Rightarrow> attacher_act" where
  "handle_dtls_connected env nabto_version ctx =
     (if \<not> env_alpn env then emit [DtlsClose] ctx else send_attach_start_request env nabto_version ctx)"

definition handle_dtls_closed :: attacher_act where
  "handle_dtls_closed ctx =
     andThen (emit [CoapRemoveConnection, DtlsReset])
       (\<lambda>c. case attachState c of
          NC_ATTACHER_STATE_DTLS_ATTACH_REQUEST \<Rightarrow> handle_state_change (set_state NC_ATTACHER_STATE_RETRY_WAIT c)
        | NC_ATTACHER_STATE_ATTACHED \<Rightarrow>
            andThen (emit (if listener c then [DeviceEvent NC_DEVICE_EVENT_DETACHED] else []))
              handle_state_change (set_state NC_ATTACHER_STATE_RETRY_WAIT c)
        | NC_ATTACHER_STATE_REDIRECT \<Rightarrow>
            handle_state_change
              (if redirectAttempts c \<ge> MAX_REDIRECT_FOLLOW then set_state NC_ATTACHER_STATE_RETRY_WAIT c
               else set_state NC_ATTACHER_STATE_DNS c)
        | NC_ATTACHER_STATE_ACCESS_DENIED_WAIT \<Rightarrow> emit [] c
        | _ \<Rightarrow> handle_state_change (set_state NC_ATTACHER_STATE_RETRY_WAIT c)) ctx"

definition handle_dtls_access_denied :: attacher_act where
  "handle_dtls_access_denied ctx =
     andThen (emit [CoapRemoveConnection, DtlsReset]) handle_state_change
       (set_state NC_ATTACHER_STATE_ACCESS_DENIED_WAIT ctx)"

definition keep_alive_reset :: attacher_act where
  "keep_alive_reset ctx =
     (case nc_keep_alive_reset (keepAlive ctx) of (ka, evs) \<Rightarrow>
        emit (map KeepAliveEvent evs) (ctx\<lparr>keepAlive := ka\<rparr>))"

definition dtls_event_handler :: "attacher_env \<Rightarrow> string \<Rightarrow> np_dtls_cli_event \<Rightarrow> attacher_act" where
  "dtls_event_handler env nabto_version event ctx =
     (if moduleState ctx = NC_ATTACHER_MODULE_CLOSED then
        if event = NP_DTLS_CLI_EVENT_HANDSHAKE_COMPLETE then emit [DtlsClose] ctx
        else handle_state_change (set_state NC_ATTACHER_STATE_CLOSED ctx)
      else case event of
        NP_DTLS_CLI_EVENT_HANDSHAKE_COMPLETE \<Rightarrow> handle_dtls_connected env nabto_version ctx
      | NP_DTLS_CLI_EVENT_CLOSED \<Rightarrow> andThen keep_alive_reset handle_dtls_closed ctx
      | NP_DTLS_CLI_EVENT_ACCESS_DENIED \<Rightarrow> andThen keep_alive_reset handle_dtls_access_denied ctx)"

section \<open>Packets\<close>

definition nc_attacher_handle_dtls_packet :: "np_udp_endpoint \<Rightarrow> u8 list \<Rightarrow> attacher_act" where
  "nc_attacher_handle_dtls_packet ep buffer ctx =
     emit [DtlsHandlePacket buffer] (if activeEp ctx = None then ctx\<lparr>activeEp := Some ep\<rparr> else ctx)"

definition send_initial_packet :: attacher_act where
  "send_initial_packet ctx =
     (let p = initialPacket ctx in
      if endpointsIndex p \<ge> endpointsSize p then
        obind (deref (packetCb p)) (\<lambda>cb. emit [SendCallback cb NABTO_EC_OK] ctx)
      else obind (rd (endpoints p) (endpointsIndex p)) (\<lambda>ep.
        emit [UdpSend ep (packetBuffer p)]
          (ctx\<lparr>senderCompletionEvent := Some InitialPacketSent,
               initialPacket := p\<lparr>endpointsIndex := endpointsIndex p + 1\<rparr>\<rparr>)))"

definition start_send_initial_packet :: "u8 list \<Rightarrow> nat \<Rightarrow> attacher_act" where
  "start_send_initial_packet buffer cb ctx =
     send_initial_packet
       (ctx\<lparr>initialPacket := (initialPacket ctx)\<lparr>packetCb := Some cb, packetBuffer := buffer, endpointsIndex := 0\<rparr>\<rparr>)"

definition initial_packet_sent :: "np_error_code \<Rightarrow> attacher_act" where
  "initial_packet_sent ec = send_initial_packet"

definition dtls_packet_sender :: "u8 list \<Rightarrow> nat \<Rightarrow> attacher_act" where
  "dtls_packet_sender buffer cb ctx =
     (case activeEp ctx of
        None \<Rightarrow> start_send_initial_packet buffer cb ctx
      | Some ep \<Rightarrow> emit [UdpSend ep buffer] (ctx\<lparr>senderCompletionEvent := Some (DtlsSendCallback cb)\<rparr>))"

text \<open>The completion of a send runs the callback of the completion event.\<close>

definition sender_completed :: "np_error_code \<Rightarrow> attacher_act" where
  "sender_completed ec ctx =
     obind (deref (senderCompletionEvent ctx)) (\<lambda>cb.
       case cb of InitialPacketSent \<Rightarrow> initial_packet_sent ec ctx
       | DtlsSendCallback n \<Rightarrow> emit [SendCallback n ec] ctx)"

definition keep_alive_send_req :: attacher_act where
  "keep_alive_send_req ctx =
     (case nc_keep_alive_create_request (keepAlive ctx) of (ka, buf) \<Rightarrow>
        emit [DtlsSendData buf] (ctx\<lparr>keepAlive := ka\<rparr>))"

definition keep_alive_send_response :: "u8 list \<Rightarrow> attacher_act" where
  "keep_alive_send_response buffer ctx =
     (case nc_keep_alive_handle_request (keepAlive ctx) buffer of
        (ka, None) \<Rightarrow> emit [] (ctx\<lparr>keepAlive := ka\<rparr>)
      | (ka, Some buf) \<Rightarrow> emit [DtlsSendData buf] (ctx\<lparr>keepAlive := ka\<rparr>))"

definition handle_keep_alive_data :: "u8 list \<Rightarrow> attacher_act" where
  "handle_keep_alive_data buffer ctx =
     (if length buffer < 2 then emit [] ctx
      else if buffer ! 1 = CT_KEEP_ALIVE_REQUEST then keep_alive_send_response buffer ctx
      else emit [] ctx)"

definition dtls_data_handler :: "u8 list \<Rightarrow> attacher_act" where
  "dtls_data_handler buffer ctx =
     (case buffer of
        [] \<Rightarrow> emit [] ctx
      | applicationType # _ \<Rightarrow>
          if applicationType \<ge> AT_COAP_START \<and> applicationType \<le> AT_COAP_END then emit [CoapHandlePacket buffer] ctx
          else if applicationType = AT_KEEP_ALIVE then handle_keep_alive_data buffer ctx
          else emit [] ctx)"

definition keep_alive_wait :: attacher_act where
  "keep_alive_wait ctx =
     (case nc_keep_alive_wait (keepAlive ctx) of (ka, evs) \<Rightarrow>
        emit (map KeepAliveEvent evs) (ctx\<lparr>keepAlive := ka\<rparr>))"

definition keep_alive_event :: "u32 \<Rightarrow> u32 \<Rightarrow> attacher_act" where
  "keep_alive_event recvCount sentCount ctx =
     (case nc_keep_alive_should_send (keepAlive ctx) recvCount sentCount of (action, ka) \<Rightarrow>
        (case action of
           DO_NOTHING \<Rightarrow> keep_alive_wait
         | SEND_KA \<Rightarrow> andThen keep_alive_send_req keep_alive_wait
         | KA_TIMEOUT \<Rightarrow> emit [DtlsClose]) (ctx\<lparr>keepAlive := ka\<rparr>))"

section \<open>Interface of the module\<close>

definition nc_attacher_set_state_listener :: "bool \<Rightarrow> nc_attach_context \<Rightarrow> nc_attach_context" where
  "nc_attacher_set_state_listener cb ctx = ctx\<lparr>stateListener := cb\<rparr>"

text \<open>\<open>set_keys\<close> returns the code of the DTLS client, \<open>ec\<close>.\<close>

definition nc_attacher_set_keys ::
    "np_error_code \<Rightarrow> u8 list \<Rightarrow> u8 list \<Rightarrow> nc_attach_context \<Rightarrow> np_error_code \<times> attacher_output list" where
  "nc_attacher_set_keys ec publicKey privateKey ctx =
     (if moduleState ctx \<noteq> NC_ATTACHER_MODULE_SETUP then (NABTO_EC_INVALID_STATE, [])
      else (ec, [DtlsSetKeys publicKey privateKey]))"

definition nc_attacher_set_app_info ::
    "string option \<Rightarrow> string option \<Rightarrow> nc_attach_context \<Rightarrow> np_error_code \<times> nc_attach_context" where
  "nc_attacher_set_app_info name ver ctx =
     (if moduleState ctx \<noteq> NC_ATTACHER_MODULE_SETUP then (NABTO_EC_INVALID_STATE, ctx)
      else (NABTO_EC_OK, ctx\<lparr>appName := name, appVersion := ver\<rparr>))"

definition nc_attacher_set_device_info ::
    "string option \<Rightarrow> string option \<Rightarrow> nc_attach_context \<Rightarrow> np_error_code \<times> nc_attach_context" where
  "nc_attacher_set_device_info product device ctx =
     (if moduleState ctx \<noteq> NC_ATTACHER_MODULE_SETUP then (NABTO_EC_INVALID_STATE, ctx)
      else (NABTO_EC_OK, ctx\<lparr>productId := product, deviceId := device\<rparr>))"

definition nc_attacher_set_handshake_timeout :: "u32 \<Rightarrow> u32 \<Rightarrow> np_error_code \<times> attacher_output list" where
  "nc_attacher_set_handshake_timeout minTimeout maxTimeout =
     (NABTO_EC_OK, [DtlsSetHandshakeTimeout minTimeout maxTimeout])"

definition nc_attacher_start ::
    "string \<Rightarrow> u16 \<Rightarrow> nc_attach_context
       \<Rightarrow> (np_error_code \<times> nc_attach_context \<times> attacher_output list) outcome" where
  "nc_attacher_start host serverPort ctx =
     (if moduleState ctx \<noteq> NC_ATTACHER_MODULE_SETUP then Inr (NABTO_EC_INVALID_STATE, ctx, [])
      else
        let c = ctx\<lparr>udpSet := True, attachState := NC_ATTACHER_STATE_DNS,
                    moduleState := NC_ATTACHER_MODULE_RUNNING, hostname := host,
                    defaultPort := serverPort, currentPort := serverPort\<rparr> in
        obind (memcpy (dns c) (hostname c @ [NUL])) (\<lambda>d.
        obind (andThen (emit [UdpSetAttachContext]) handle_state_change (c\<lparr>dns := d\<rparr>)) (\<lambda>(c', calls).
          Inr (NABTO_EC_OK, c', calls))))"

definition nc_attacher_async_close :: "bool \<Rightarrow> attacher_act" where
  "nc_attacher_async_close cb ctx = do_close (ctx\<lparr>closedCb := cb\<rparr>)"

definition nc_attacher_stop :: attacher_act where
  "nc_attacher_stop ctx =
     (case nc_keep_alive_stop (keepAlive ctx) of (ka, evs) \<Rightarrow>
        andThen (emit (map KeepAliveEvent evs)) do_close (ctx\<lparr>keepAlive := ka\<rparr>))"

definition nc_attacher_deinit :: attacher_act where
  "nc_attacher_deinit ctx =
     (let c = ctx\<lparr>moduleState := NC_ATTACHER_MODULE_CLOSED\<rparr> in
      andThen (if attachState c = NC_ATTACHER_STATE_DNS then do_close else emit [])
        (\<lambda>c. emit ((if udpSet c then [UdpClearAttachContext] else []) @ [DtlsDestroy]) c) c)"

text \<open>The context after \<open>memset\<close>; an address of zero bytes has the first enumerated type.\<close>

definition resolver_zero :: nc_dns_multi_resolver_context where
  "resolver_zero = \<lparr>v4Ips = replicate 4 ip_zero, v6Ips = replicate 4 ip_zero, v4IpsSize = 0, v6IpsSize = 0,
     v4Ec = NABTO_EC_OK, v6Ec = NABTO_EC_OK, ips = replicate 4 ip_zero, ipsSize = 0, ipsResolved = 0\<rparr>"

definition sct_zero :: nc_attacher_sct_context where
  "sct_zero = \<lparr>scts = [], sct_version = 0, synchronizedVersion = 0, uploadingVersion = 0, sctCallback = None\<rparr>"

definition attacher_zero :: nc_attach_context where
  "attacher_zero =
     \<lparr>appName = None, appVersion = None, productId = None, deviceId = None, hostname = [], defaultPort = 0,
      listener = False, stateListener = False, udpSet = False, attachState = NC_ATTACHER_STATE_DNS,
      moduleState = NC_ATTACHER_MODULE_SETUP,
      initialPacket = \<lparr>packetBuffer = [], packetCb = None, endpointsIndex = 0, endpointsSize = 0,
        endpoints = replicate NC_ATTACHER_MAX_ENDPOINTS \<lparr>ep_ip = ip_zero, ep_port = 0\<rparr>\<rparr>,
      activeEp = None, currentPort = 0, dns = replicate 256 NUL, dnsMultiResolver = resolver_zero,
      redirectAttempts = 0, startCallback = False, endCallback = False, stunHost = replicate 256 NUL,
      stunPort = 0, keepAlive = ka_zero, closedCb = False, senderCompletionEvent = None,
      retryWaitTime = 0, accessDeniedWaitTime = 0, sctContext = sct_zero\<rparr>"

text \<open>The codes of the calls that create events and the DTLS client, in the order of the calls.\<close>

record attacher_init_env =
  ec_reattachTimer :: np_error_code
  ec_closeEv :: np_error_code
  ec_dtls :: np_error_code
  ec_keepAlive :: np_error_code
  ec_sender :: np_error_code
  ec_resolve :: np_error_code

definition nc_attacher_init :: "attacher_init_env \<Rightarrow> bool \<Rightarrow> np_error_code \<times> nc_attach_context" where
  "nc_attacher_init env lst =
     (let ctx = attacher_zero\<lparr>attachState := NC_ATTACHER_STATE_DNS, moduleState := NC_ATTACHER_MODULE_SETUP,
            listener := lst, retryWaitTime := RETRY_WAIT_TIME, accessDeniedWaitTime := ACCESS_DENIED_WAIT_TIME\<rparr> in
      if ec_reattachTimer env \<noteq> NABTO_EC_OK then (ec_reattachTimer env, ctx)
      else if ec_closeEv env \<noteq> NABTO_EC_OK then (ec_closeEv env, ctx)
      else let ctx = ctx\<lparr>sctContext := sct_zero\<rparr> in
      if ec_dtls env \<noteq> NABTO_EC_OK then (ec_dtls env, ctx)
      else case nc_keep_alive_init (ec_keepAlive env) (keepAlive ctx) of (ec, ka) \<Rightarrow>
      let ctx = ctx\<lparr>keepAlive := ka\<rparr> in
      if ec \<noteq> NABTO_EC_OK then (ec, ctx)
      else if ec_sender env \<noteq> NABTO_EC_OK then (ec_sender env, ctx)
      else (ec_resolve env, ctx))"

end
