(* ===== verification/NcAttacherSystem.thy ===== *)
theory NcAttacherSystem
  imports NcAttacher
begin

text \<open>
  The attacher together with the modules around it: what is posted to the event queue, what the
  resolver, the DTLS client and the CoAP client still owe the attacher, and the step relation of
  the whole. The theorems are invariants of its reachable states.
\<close>

section \<open>The system\<close>

text \<open>
  The phases of the DTLS client as far as the attacher can tell (\<^verbatim>\<open>nm_mbedtls_cli.c\<close>). A closed client
  ignores a close. After an access denied alert on an established connection the client has not
  closed itself, so a close still leads to a closed event.
\<close>

datatype dtls_phase = DtlsIdle | DtlsConnecting | DtlsConnected | DtlsClosing | DtlsDenied

text \<open>
  \<open>live\<close> tells for which CoAP requests the connection has not been removed since they were sent;
  the others can only complete without a response. \<open>uploading\<close> is the payload of the last upload of
  server connect tokens, \<open>acked\<close> that of the last upload the basestation acknowledged, and \<open>adds\<close>
  the number of tokens added so far.
\<close>

record attacher_system =
  att :: nc_attach_context
  timerPosted :: bool
  closePosted :: bool
  dnsResult :: "np_error_code option"
  kaPosted :: bool
  dtlsPhase :: dtls_phase
  live :: "attach_request \<Rightarrow> bool"
  uploading :: cbor
  acked :: cbor
  adds :: nat

fun effect :: "attacher_output \<Rightarrow> attacher_system \<Rightarrow> attacher_system" where
  "effect (PostReattachTimer _) s = s\<lparr>timerPosted := True\<rparr>"
| "effect CancelReattachTimer s = s\<lparr>timerPosted := False\<rparr>"
| "effect PostCloseEvent s = s\<lparr>closePosted := True\<rparr>"
| "effect CancelCloseEvent s = s\<lparr>closePosted := False\<rparr>"
| "effect DtlsConnect s = s\<lparr>dtlsPhase := DtlsConnecting\<rparr>"
| "effect DtlsClose s = s\<lparr>dtlsPhase := (if dtlsPhase s = DtlsIdle then DtlsIdle else DtlsClosing)\<rparr>"
| "effect CoapRemoveConnection s = s\<lparr>live := \<lambda>_. False\<rparr>"
| "effect (CoapSend k payload) s =
     s\<lparr>live := (live s)(k := True),
       uploading := (case (k, payload) of (SctUpload, Some p) \<Rightarrow> p | _ \<Rightarrow> uploading s)\<rparr>"
| "effect (KeepAliveEvent KaCancelEvent) s = s\<lparr>kaPosted := False\<rparr>"
| "effect (KeepAliveEvent (KaPostTimedEvent _)) s = s\<lparr>kaPosted := True\<rparr>"
| "effect (DnsCall (DnsCompletion ec)) s = s\<lparr>dnsResult := Some ec\<rparr>"
| "effect _ s = s"

datatype attacher_label =
    Start string u16 | AsyncClose bool | Stop | AddToken string
  | TimerFires | CloseEventRuns
  | DnsAnswer dns_answer | DnsResolved np_error_code
  | DtlsEvent np_dtls_cli_event
  | Response attach_request "coap_response option"
  | PacketReceived np_udp_endpoint "u8 list" | PacketToSend "u8 list" nat | SendDone np_error_code
  | DataReceived "u8 list" | KeepAliveTick u32 u32 | KeepAliveSent

text \<open>The handler of each event.\<close>

definition drop_code :: "('c \<times> 's \<times> 'o list) outcome \<Rightarrow> ('s \<times> 'o list) outcome" where
  "drop_code r = obind r (\<lambda>(_, s, outs). Inr (s, outs))"

fun attacher_handle ::
    "'v tinycbor \<Rightarrow> string \<Rightarrow> 'z nn_lib_scheme \<Rightarrow> attacher_env \<Rightarrow> attacher_label \<Rightarrow> attacher_act" where
  "attacher_handle T ver nn env (Start host port) ctx = drop_code (nc_attacher_start host port ctx)"
| "attacher_handle T ver nn env (AsyncClose cb) ctx = nc_attacher_async_close cb ctx"
| "attacher_handle T ver nn env Stop ctx = nc_attacher_stop ctx"
| "attacher_handle T ver nn env (AddToken token) ctx = drop_code (nc_attacher_add_server_connect_token nn env token ctx)"
| "attacher_handle T ver nn env TimerFires ctx = reattach ctx"
| "attacher_handle T ver nn env CloseEventRuns ctx = resolve_close ctx"
| "attacher_handle T ver nn env (DnsAnswer a) ctx =
     obind (dns_step a (dnsMultiResolver ctx)) (\<lambda>(r, calls). Inr (ctx\<lparr>dnsMultiResolver := r\<rparr>, map DnsCall calls))"
| "attacher_handle T ver nn env (DnsResolved ec) ctx = dns_resolved_callback ec ctx"
| "attacher_handle T ver nn env (DtlsEvent ev) ctx = dtls_event_handler env ver ev ctx"
| "attacher_handle T ver nn env (Response k res) ctx =
     (case k of
        AttachStart \<Rightarrow> coap_attach_start_handler T env res ctx
      | AttachEnd \<Rightarrow> attach_end_response_handler env res ctx
      | SctUpload \<Rightarrow> sct_request_handler env res ctx)"
| "attacher_handle T ver nn env (PacketReceived ep buf) ctx = nc_attacher_handle_dtls_packet ep buf ctx"
| "attacher_handle T ver nn env (PacketToSend buf cb) ctx = dtls_packet_sender buf cb ctx"
| "attacher_handle T ver nn env (SendDone ec) ctx = sender_completed ec ctx"
| "attacher_handle T ver nn env (DataReceived buf) ctx = dtls_data_handler buf ctx"
| "attacher_handle T ver nn env (KeepAliveTick r n) ctx = keep_alive_event r n ctx"
| "attacher_handle T ver nn env KeepAliveSent ctx = Inr (ctx\<lparr>keepAlive := nc_keep_alive_packet_sent (keepAlive ctx)\<rparr>, [])"

text \<open>What an event consumes before its handler runs.\<close>

fun consume :: "attacher_label \<Rightarrow> attacher_system \<Rightarrow> attacher_system" where
  "consume (AddToken _) s = s\<lparr>adds := adds s + 1\<rparr>"
| "consume TimerFires s = s\<lparr>timerPosted := False\<rparr>"
| "consume CloseEventRuns s = s\<lparr>closePosted := False\<rparr>"
| "consume (DnsResolved _) s = s\<lparr>dnsResult := None\<rparr>"
| "consume (DtlsEvent NP_DTLS_CLI_EVENT_CLOSED) s = s\<lparr>dtlsPhase := DtlsIdle\<rparr>"
| "consume (DtlsEvent NP_DTLS_CLI_EVENT_HANDSHAKE_COMPLETE) s = s\<lparr>dtlsPhase := DtlsConnected\<rparr>"
| "consume (DtlsEvent NP_DTLS_CLI_EVENT_ACCESS_DENIED) s =
     s\<lparr>dtlsPhase := (if dtlsPhase s = DtlsConnecting then DtlsIdle else DtlsDenied)\<rparr>"
| "consume (Response k res) s =
     s\<lparr>live := (live s)(k := False),
       acked := (case (k, res) of (SctUpload, Some r) \<Rightarrow> if nc_coap_is_status_ok (res_code r) then uploading s else acked s
                 | _ \<Rightarrow> acked s)\<rparr>"
| "consume (KeepAliveTick _ _) s = s\<lparr>kaPosted := False\<rparr>"
| "consume _ s = s"

definition request_pending :: "attach_request \<Rightarrow> nc_attach_context \<Rightarrow> bool" where
  "request_pending k ctx =
     (case k of AttachStart \<Rightarrow> startCallback ctx | AttachEnd \<Rightarrow> endCallback ctx
      | SctUpload \<Rightarrow> sctCallback (sctContext ctx) \<noteq> None)"

definition no_requests :: "nc_attach_context \<Rightarrow> bool" where
  "no_requests c \<longleftrightarrow> \<not> startCallback c \<and> \<not> endCallback c \<and> sctCallback (sctContext c) = None"

text \<open>
  When an event can happen. The reattach timer, which runs for seconds at least, does not fire
  before a close of the DTLS client or, after access was denied, the failure of the requests of
  the removed connection has been reported.
\<close>

fun enabled :: "attacher_label \<Rightarrow> attacher_system \<Rightarrow> bool" where
  "enabled (Start _ _) s \<longleftrightarrow> \<not> closePosted s"
| "enabled TimerFires s \<longleftrightarrow> timerPosted s \<and> dtlsPhase s \<noteq> DtlsClosing
     \<and> (dtlsPhase s = DtlsDenied \<longrightarrow> no_requests (att s))"
| "enabled CloseEventRuns s \<longleftrightarrow> closePosted s"
| "enabled (DnsAnswer (AnswerV4 ec as)) s \<longleftrightarrow>
     v4Ec (dnsMultiResolver (att s)) = NABTO_EC_OPERATION_IN_PROGRESS \<and> ec \<noteq> NABTO_EC_OPERATION_IN_PROGRESS
     \<and> length as \<le> NC_DNS_MULTI_RESOLVER_MAX_IPS"
| "enabled (DnsAnswer (AnswerV6 ec as)) s \<longleftrightarrow>
     v6Ec (dnsMultiResolver (att s)) = NABTO_EC_OPERATION_IN_PROGRESS \<and> ec \<noteq> NABTO_EC_OPERATION_IN_PROGRESS
     \<and> length as \<le> NC_DNS_MULTI_RESOLVER_MAX_IPS"
| "enabled (DnsResolved ec) s \<longleftrightarrow> dnsResult s = Some ec"
| "enabled (DtlsEvent NP_DTLS_CLI_EVENT_HANDSHAKE_COMPLETE) s \<longleftrightarrow> dtlsPhase s = DtlsConnecting"
| "enabled (DtlsEvent NP_DTLS_CLI_EVENT_ACCESS_DENIED) s \<longleftrightarrow> dtlsPhase s \<in> {DtlsConnecting, DtlsConnected}"
| "enabled (DtlsEvent NP_DTLS_CLI_EVENT_CLOSED) s \<longleftrightarrow> dtlsPhase s \<in> {DtlsConnecting, DtlsConnected, DtlsClosing}"
| "enabled (Response k res) s \<longleftrightarrow> request_pending k (att s) \<and> (res \<noteq> None \<longrightarrow> live s k)"
| "enabled (KeepAliveTick _ _) s \<longleftrightarrow> kaPosted s"
| "enabled _ s \<longleftrightarrow> True"

definition attacher_sys_step ::
    "'v tinycbor \<Rightarrow> string \<Rightarrow> 'z nn_lib_scheme \<Rightarrow> attacher_env \<Rightarrow> attacher_label
       \<Rightarrow> attacher_system \<Rightarrow> (attacher_system \<times> attacher_output list) outcome" where
  "attacher_sys_step T ver nn env l s =
     obind (attacher_handle T ver nn env l (att s)) (\<lambda>(c, outs).
       Inr (fold effect outs ((consume l s)\<lparr>att := c\<rparr>), outs))"

definition attacher_sys_init :: "nc_attach_context \<Rightarrow> attacher_system" where
  "attacher_sys_init ctx =
     \<lparr>att = ctx, timerPosted = False, closePosted = False, dnsResult = None, kaPosted = False,
      dtlsPhase = DtlsIdle, live = (\<lambda>_. False), uploading = encode_scts [], acked = encode_scts [], adds = 0\<rparr>"

inductive attacher_reachable ::
    "'v tinycbor \<Rightarrow> string \<Rightarrow> 'z nn_lib_scheme \<Rightarrow> attacher_system \<Rightarrow> bool"
  for T :: "'v tinycbor" and ver :: string and nn :: "'z nn_lib_scheme" where
  init: "nc_attacher_init ienv lst = (NABTO_EC_OK, ctx) \<Longrightarrow>
     attacher_reachable T ver nn
       (attacher_sys_init (nc_attacher_set_state_listener sl
          (snd (nc_attacher_set_app_info an av (snd (nc_attacher_set_device_info pid did ctx))))))"
| step: "attacher_reachable T ver nn s \<Longrightarrow> enabled l s \<Longrightarrow>
     attacher_sys_step T ver nn env l s = Inr (s', outs) \<Longrightarrow> attacher_reachable T ver nn s'"

section \<open>The invariant\<close>

text \<open>
  The invariant of the reachable states: in each state of the attacher an event that moves it on
  is pending.
\<close>

definition dns_pending :: "attacher_system \<Rightarrow> bool" where
  "dns_pending s \<longleftrightarrow> v4Ec (dnsMultiResolver (att s)) = NABTO_EC_OPERATION_IN_PROGRESS
     \<or> v6Ec (dnsMultiResolver (att s)) = NABTO_EC_OPERATION_IN_PROGRESS \<or> dnsResult s \<noteq> None"

definition dtls_active :: "attacher_system \<Rightarrow> bool" where
  "dtls_active s \<longleftrightarrow> dtlsPhase s \<in> {DtlsConnecting, DtlsConnected, DtlsClosing}"

definition awaits_event :: "attacher_system \<Rightarrow> bool" where
  "awaits_event s =
     (case attachState (att s) of
        NC_ATTACHER_STATE_DNS \<Rightarrow> dns_pending s
      | NC_ATTACHER_STATE_DTLS_ATTACH_REQUEST \<Rightarrow> dtls_active s
      | NC_ATTACHER_STATE_RETRY_WAIT \<Rightarrow> timerPosted s
      | NC_ATTACHER_STATE_ACCESS_DENIED_WAIT \<Rightarrow> timerPosted s
      | NC_ATTACHER_STATE_REDIRECT \<Rightarrow> dtlsPhase s = DtlsClosing
      | NC_ATTACHER_STATE_ATTACHED \<Rightarrow> dtls_active s
      | NC_ATTACHER_STATE_CLOSED \<Rightarrow> closedCb (att s) \<longrightarrow> closePosted s)"

text \<open>The number of requests of the attach sequence that may still be answered.\<close>

definition attach_requests :: "(attach_request \<Rightarrow> bool) \<Rightarrow> nc_attacher_sct_callback option \<Rightarrow> nat" where
  "attach_requests l cb =
     (if l AttachStart then 1 else 0) + (if l AttachEnd then 1 else 0)
     + (if l SctUpload \<and> cb = Some SendAttachSctRequestCallback then 1 else 0)"

definition any_live :: "(attach_request \<Rightarrow> bool) \<Rightarrow> bool" where
  "any_live l \<longleftrightarrow> l AttachStart \<or> l AttachEnd \<or> l SctUpload"

definition phase_ok :: "nc_attacher_attach_state \<Rightarrow> dtls_phase \<Rightarrow> bool" where
  "phase_ok st ph =
     (case st of
        NC_ATTACHER_STATE_DNS \<Rightarrow> ph \<in> {DtlsIdle, DtlsDenied}
      | NC_ATTACHER_STATE_RETRY_WAIT \<Rightarrow> ph \<in> {DtlsIdle, DtlsDenied}
      | NC_ATTACHER_STATE_ACCESS_DENIED_WAIT \<Rightarrow> ph \<in> {DtlsIdle, DtlsDenied, DtlsClosing}
      | NC_ATTACHER_STATE_ATTACHED \<Rightarrow> ph \<in> {DtlsConnected, DtlsClosing}
      | _ \<Rightarrow> True)"

definition redirects_ok :: "nc_attacher_attach_state \<Rightarrow> u8 \<Rightarrow> bool" where
  "redirects_ok st n \<longleftrightarrow>
     (if st \<in> {NC_ATTACHER_STATE_DNS, NC_ATTACHER_STATE_DTLS_ATTACH_REQUEST, NC_ATTACHER_STATE_ATTACHED}
      then n \<le> 4 else n \<le> 5)"

definition running_inv :: "attacher_system \<Rightarrow> bool" where
  "running_inv s \<longleftrightarrow>
     (let c = att s; st = attachState c; ph = dtlsPhase s in
      awaits_event s \<and> st \<noteq> NC_ATTACHER_STATE_CLOSED \<and> phase_ok st ph \<and> redirects_ok st (redirectAttempts c) \<and>
      (timerPosted s \<longrightarrow> st \<in> {NC_ATTACHER_STATE_RETRY_WAIT, NC_ATTACHER_STATE_ACCESS_DENIED_WAIT}) \<and>
      (dns_pending s \<longrightarrow> st = NC_ATTACHER_STATE_DNS) \<and>
      \<not> closePosted s \<and>
      (kaPosted s \<longrightarrow> ph \<in> {DtlsConnected, DtlsClosing}) \<and>
      (any_live (live s) \<longrightarrow> ph \<in> {DtlsConnected, DtlsClosing}) \<and>
      attach_requests (live s) (sctCallback (sctContext c)) \<le> 1 \<and>
      (attach_requests (live s) (sctCallback (sctContext c)) \<noteq> 0 \<longrightarrow> st = NC_ATTACHER_STATE_DTLS_ATTACH_REQUEST) \<and>
      (ph = DtlsDenied \<and> st \<in> {NC_ATTACHER_STATE_DNS, NC_ATTACHER_STATE_RETRY_WAIT} \<longrightarrow>
         no_requests c))"

definition closed_inv :: "attacher_system \<Rightarrow> bool" where
  "closed_inv s \<longleftrightarrow>
     awaits_event s
     \<and> attachState (att s) \<notin> {NC_ATTACHER_STATE_RETRY_WAIT, NC_ATTACHER_STATE_ACCESS_DENIED_WAIT}
     \<and> redirectAttempts (att s) \<le> 5"

definition setup_inv :: "attacher_system \<Rightarrow> bool" where
  "setup_inv s \<longleftrightarrow>
     attachState (att s) = NC_ATTACHER_STATE_DNS \<and> \<not> dns_pending s \<and> dtlsPhase s = DtlsIdle
     \<and> \<not> any_live (live s) \<and> no_requests (att s) \<and> \<not> timerPosted s \<and> \<not> kaPosted s
     \<and> redirectAttempts (att s) = 0"

definition attacher_inv :: "attacher_system \<Rightarrow> bool" where
  "attacher_inv s \<longleftrightarrow>
     (case moduleState (att s) of
        NC_ATTACHER_MODULE_SETUP \<Rightarrow> setup_inv s
      | NC_ATTACHER_MODULE_RUNNING \<Rightarrow> running_inv s
      | NC_ATTACHER_MODULE_CLOSED \<Rightarrow> closed_inv s) \<and>
     (dnsResult s \<noteq> None \<longrightarrow>
        v4Ec (dnsMultiResolver (att s)) \<noteq> NABTO_EC_OPERATION_IN_PROGRESS
        \<and> v6Ec (dnsMultiResolver (att s)) \<noteq> NABTO_EC_OPERATION_IN_PROGRESS)"

definition inv_after :: "attacher_label \<Rightarrow> attacher_system \<Rightarrow> (nc_attach_context \<times> attacher_output list) outcome \<Rightarrow> bool" where
  "inv_after l s r = (case r of Inl _ \<Rightarrow> True
     | Inr (c, outs) \<Rightarrow> attacher_inv (fold effect outs ((consume l s)\<lparr>att := c\<rparr>)))"

definition keeps :: "attacher_act \<Rightarrow> attacher_system \<Rightarrow> bool" where
  "keeps f s = (case f (att s) of Inl _ \<Rightarrow> True
     | Inr (c, outs) \<Rightarrow> attacher_inv (fold effect outs (s\<lparr>att := c\<rparr>)))"

text \<open>A close of the DTLS client is harmless unless a connection that was denied access is waited out.\<close>

definition may_close :: "attacher_system \<Rightarrow> bool" where
  "may_close s \<longleftrightarrow> moduleState (att s) \<noteq> NC_ATTACHER_MODULE_SETUP
     \<and> (moduleState (att s) = NC_ATTACHER_MODULE_RUNNING \<and> dtlsPhase s = DtlsDenied \<longrightarrow>
          attachState (att s) \<notin> {NC_ATTACHER_STATE_DNS, NC_ATTACHER_STATE_RETRY_WAIT})"

text \<open>The module is running and the attach sequence owns the connection.\<close>

definition attaching :: "attacher_system \<Rightarrow> bool" where
  "attaching s \<longleftrightarrow> moduleState (att s) = NC_ATTACHER_MODULE_RUNNING
     \<and> attachState (att s) = NC_ATTACHER_STATE_DTLS_ATTACH_REQUEST
     \<and> dtlsPhase s \<in> {DtlsConnected, DtlsClosing}
     \<and> attach_requests (live s) (sctCallback (sctContext (att s))) = 0"

definition upload_started :: "nc_attacher_sct_callback \<Rightarrow> nc_attach_context \<Rightarrow> nc_attach_context" where
  "upload_started cb c =
     c\<lparr>sctContext := (sctContext c)\<lparr>sctCallback := Some cb, uploadingVersion := sct_version (sctContext c)\<rparr>\<rparr>"

text \<open>The response to the attach start request does not touch what the invariant is about.\<close>

definition same_control :: "nc_attach_context \<Rightarrow> nc_attach_context \<Rightarrow> bool" where
  "same_control c c' \<longleftrightarrow> attachState c' = attachState c \<and> moduleState c' = moduleState c
     \<and> redirectAttempts c' = redirectAttempts c \<and> closedCb c' = closedCb c
     \<and> dnsMultiResolver c' = dnsMultiResolver c \<and> endCallback c' = endCallback c \<and> sctContext c' = sctContext c"

fun starts_connecting :: "attacher_output \<Rightarrow> bool" where
  "starts_connecting DtlsConnect = True"
| "starts_connecting (DnsCall (DnsResolveV4 _ _)) = True"
| "starts_connecting (DnsCall (DnsResolveV6 _ _)) = True"
| "starts_connecting _ = False"

definition stays_closed :: "(nc_attach_context \<times> attacher_output list) outcome \<Rightarrow> bool" where
  "stays_closed r = (case r of Inl _ \<Rightarrow> True
     | Inr (c, outs) \<Rightarrow> moduleState c = NC_ATTACHER_MODULE_CLOSED \<and> (\<forall>out\<in>set outs. \<not> starts_connecting out))"

section \<open>One lemma per event\<close>

named_theorems att_defs \<open>the handlers of the attacher\<close>

declare state_entry_def [att_defs] dns_start_resolve_def [att_defs]
  do_close_def [att_defs] resolve_close_def [att_defs] dns_resolved_callback_def [att_defs] reattach_def [att_defs]
  coap_attach_failed_def [att_defs]
  send_sct_request_def [att_defs] send_sct_request_callback_def [att_defs]
  nc_attacher_attach_end_request_def [att_defs]
  send_attach_start_request_def [att_defs] send_attach_end_request_def [att_defs]
  handle_dtls_connected_def [att_defs] handle_dtls_closed_def [att_defs] handle_dtls_access_denied_def [att_defs]
  keep_alive_reset_def [att_defs] dtls_event_handler_def [att_defs]
  nc_keep_alive_reset_def [att_defs] ka_defaults_def [att_defs] nc_keep_alive_wait_def [att_defs]
  nc_keep_alive_stop_def [att_defs] nc_dns_multi_resolver_resolve_def [att_defs]

lemmas inv_defs = attacher_inv_def setup_inv_def running_inv_def closed_inv_def awaits_event_def dns_pending_def
  dtls_active_def phase_ok_def redirects_ok_def Let_def

lemma fold_effect_listener [simp]:
  "fold effect (if b then [StateListener x] else []) s = s"
  "fold effect (if b then [DeviceEvent e] else []) s = s"
  by simp_all

lemma hsc [act_simps]:
  "handle_state_change c = obind (state_entry c)
     (\<lambda>(c', os). Inr (c', os @ (if stateListener c' then [StateListener (attachState c')] else [])))"
  by (simp add: handle_state_change_def andThen_def emit_def split_def)

lemma no_requests_upd [simp]:
  "no_requests (c\<lparr>closedCb := x1\<rparr>) = no_requests c"
  "no_requests (c\<lparr>moduleState := x2\<rparr>) = no_requests c"
  "no_requests (c\<lparr>attachState := x3\<rparr>) = no_requests c"
  "no_requests (c\<lparr>keepAlive := x4\<rparr>) = no_requests c"
  "no_requests (c\<lparr>dnsMultiResolver := x5\<rparr>) = no_requests c"
  "no_requests (c\<lparr>dns := x6\<rparr>) = no_requests c"
  "no_requests (c\<lparr>currentPort := x7\<rparr>) = no_requests c"
  "no_requests (c\<lparr>redirectAttempts := x8\<rparr>) = no_requests c"
  "no_requests (c\<lparr>initialPacket := x9\<rparr>) = no_requests c"
  "no_requests (c\<lparr>activeEp := x10\<rparr>) = no_requests c"
  "no_requests (c\<lparr>senderCompletionEvent := x11\<rparr>) = no_requests c"
  "no_requests (c\<lparr>hostname := x12\<rparr>) = no_requests c"
  "no_requests (c\<lparr>defaultPort := x13\<rparr>) = no_requests c"
  "no_requests (c\<lparr>udpSet := x14\<rparr>) = no_requests c"
  by (simp_all add: no_requests_def)

lemma attach_requests_none [simp]: "attach_requests (\<lambda>_. False) cb = 0" "\<not> any_live (\<lambda>_. False)"
  by (simp_all add: attach_requests_def any_live_def)

lemma inv_after_simps [simp]:
  "inv_after l s (Inl e)"
  "inv_after l s (Inr (c, outs)) = attacher_inv (fold effect outs ((consume l s)\<lparr>att := c\<rparr>))"
  by (simp_all add: inv_after_def)

lemma inv_after_obind:
  "inv_after l s (obind m f) \<longleftrightarrow> (\<forall>x. m = Inr x \<longrightarrow> inv_after l s (f x))"
  by (cases m) auto

lemma obind_assoc: "obind (obind m f) g = obind m (\<lambda>x. obind (f x) g)"
  by (cases m) auto

lemma attach_requests_dead [simp]: "\<not> any_live l \<Longrightarrow> attach_requests l cb = 0"
  by (simp add: attach_requests_def any_live_def)

lemma word_plus1_le5: "(a::u8) \<le> 4 \<Longrightarrow> a + 1 \<le> 5"
proof -
  assume "a \<le> 4"
  then have "unat a \<le> 4" by (simp add: word_le_nat_alt)
  then have "unat (a + 1) \<le> 5" by (simp add: unat_word_ariths)
  then show ?thesis by (simp add: word_le_nat_alt)
qed

lemma word_not5_le4: "\<not> 5 \<le> (a::u8) \<Longrightarrow> a \<le> 4" "(a::u8) \<le> 4 \<Longrightarrow> a \<le> 5"
  by (simp_all add: word_le_nat_alt)

lemma keep_alive_reset_then [act_simps]:
  "andThen keep_alive_reset g c = obind (g (c\<lparr>keepAlive := ka_defaults (keepAlive c)\<rparr>))
     (\<lambda>(c', os). Inr (c', KeepAliveEvent KaCancelEvent # os))"
  by (simp add: andThen_def keep_alive_reset_def nc_keep_alive_reset_def emit_def)

lemmas inv_simps = att_defs act_simps inv_defs inv_after_obind obind_assoc word_not5_le4 word_plus1_le5 MAX_REDIRECT_FOLLOW_def

lemma inv_async_close:
  assumes "attacher_inv s" "enabled (AsyncClose cb) s"
  shows "inv_after (AsyncClose cb) s (attacher_handle T ver nn env (AsyncClose cb) (att s))"
  using assms
  by (cases "moduleState (att s)"; cases "attachState (att s)"; cases "dtlsPhase s"; simp add: nc_attacher_async_close_def inv_simps)

lemma inv_stop:
  assumes "attacher_inv s" "enabled (Stop) s"
  shows "inv_after (Stop) s (attacher_handle T ver nn env (Stop) (att s))"
  using assms
  by (cases "moduleState (att s)"; cases "attachState (att s)"; cases "dtlsPhase s"; simp add: nc_attacher_stop_def inv_simps)

lemma inv_start:
  assumes "attacher_inv s" "enabled (Start h p) s"
  shows "inv_after (Start h p) s (attacher_handle T ver nn env (Start h p) (att s))"
  using assms
  by (cases "moduleState (att s)"; cases "attachState (att s)"; cases "dtlsPhase s"; simp add: nc_attacher_start_def drop_code_def inv_simps)

lemma inv_timer:
  assumes "attacher_inv s" "enabled (TimerFires) s"
  shows "inv_after (TimerFires) s (attacher_handle T ver nn env (TimerFires) (att s))"
  using assms
  by (cases "moduleState (att s)"; cases "attachState (att s)"; cases "dtlsPhase s"; simp add:  inv_simps)

lemma inv_close_event:
  assumes "attacher_inv s" "enabled (CloseEventRuns) s"
  shows "inv_after (CloseEventRuns) s (attacher_handle T ver nn env (CloseEventRuns) (att s))"
  using assms
  by (cases "moduleState (att s)"; cases "attachState (att s)"; cases "dtlsPhase s"; simp add:  inv_simps)

lemma inv_dns_resolved:
  assumes "attacher_inv s" "enabled (DnsResolved ec) s"
  shows "inv_after (DnsResolved ec) s (attacher_handle T ver nn env (DnsResolved ec) (att s))"
  using assms
  by (cases "moduleState (att s)"; cases "attachState (att s)"; cases "dtlsPhase s"; simp add:  inv_simps)

lemma inv_dtls_closed:
  assumes "attacher_inv s" "enabled (DtlsEvent NP_DTLS_CLI_EVENT_CLOSED) s"
  shows "inv_after (DtlsEvent NP_DTLS_CLI_EVENT_CLOSED) s (attacher_handle T ver nn env (DtlsEvent NP_DTLS_CLI_EVENT_CLOSED) (att s))"
  using assms
  by (cases "moduleState (att s)"; cases "attachState (att s)"; cases "dtlsPhase s";
      cases "5 \<le> redirectAttempts (att s)"; simp add:  inv_simps)

lemma inv_dtls_denied:
  assumes "attacher_inv s" "enabled (DtlsEvent NP_DTLS_CLI_EVENT_ACCESS_DENIED) s"
  shows "inv_after (DtlsEvent NP_DTLS_CLI_EVENT_ACCESS_DENIED) s (attacher_handle T ver nn env (DtlsEvent NP_DTLS_CLI_EVENT_ACCESS_DENIED) (att s))"
  using assms
  by (cases "moduleState (att s)"; cases "attachState (att s)"; cases "dtlsPhase s"; simp add:  inv_simps)

lemma inv_keep_alive_sent:
  assumes "attacher_inv s" "enabled (KeepAliveSent) s"
  shows "inv_after (KeepAliveSent) s (attacher_handle T ver nn env (KeepAliveSent) (att s))"
  using assms
  by (cases "moduleState (att s)"; cases "attachState (att s)"; cases "dtlsPhase s"; simp add:  inv_simps)

lemma inv_packet_received:
  assumes "attacher_inv s" "enabled (PacketReceived ep buf) s"
  shows "inv_after (PacketReceived ep buf) s (attacher_handle T ver nn env (PacketReceived ep buf) (att s))"
  using assms
  by (cases "moduleState (att s)"; cases "attachState (att s)"; cases "dtlsPhase s"; simp add: nc_attacher_handle_dtls_packet_def inv_simps)

lemma inv_keep_alive_tick:
  assumes "attacher_inv s" "enabled (KeepAliveTick r n) s"
  shows "inv_after (KeepAliveTick r n) s (attacher_handle T ver nn env (KeepAliveTick r n) (att s))"
proof (cases "nc_keep_alive_should_send (keepAlive (att s)) r n")
  case (Pair action ka)
  with assms show ?thesis
    by (cases "moduleState (att s)"; cases "attachState (att s)"; cases "dtlsPhase s"; cases action;
        simp add: keep_alive_event_def keep_alive_wait_def keep_alive_send_req_def nc_keep_alive_create_request_def
          andThen_def emit_def inv_simps)
qed

lemma inv_ka_data:
  assumes "attacher_inv s"
  shows "attacher_inv (s\<lparr>att := (att s)\<lparr>keepAlive := ka\<rparr>\<rparr>)"
  using assms
  by (cases "moduleState (att s)"; cases "attachState (att s)"; simp add: inv_simps)

lemma inv_data_received:
  assumes "attacher_inv s"
  shows "inv_after (DataReceived b) s (attacher_handle T ver nn env (DataReceived b) (att s))"
  using assms inv_ka_data [OF assms]
  by (auto simp: dtls_data_handler_def handle_keep_alive_data_def keep_alive_send_response_def emit_def
      split: list.split prod.split option.split)

lemma inv_sender:
  assumes "attacher_inv s"
  shows "attacher_inv (s\<lparr>att := (att s)\<lparr>senderCompletionEvent := e, initialPacket := p\<rparr>\<rparr>)"
    "attacher_inv (s\<lparr>att := (att s)\<lparr>senderCompletionEvent := e\<rparr>\<rparr>)"
    "attacher_inv (s\<lparr>att := (att s)\<lparr>initialPacket := p\<rparr>\<rparr>)"
    "attacher_inv (s\<lparr>att := (att s)\<lparr>initialPacket := p, senderCompletionEvent := e\<rparr>\<rparr>)"
  using assms
  by (cases "moduleState (att s)"; cases "attachState (att s)"; simp add: inv_simps)+

lemma inv_packet_to_send:
  assumes "attacher_inv s"
  shows "inv_after (PacketToSend b cb) s (attacher_handle T ver nn env (PacketToSend b cb) (att s))"
  using assms inv_sender [OF assms]
  by (simp add: dtls_packet_sender_def start_send_initial_packet_def send_initial_packet_def emit_def inv_after_obind
      Let_def split: option.split)

lemma inv_send_done:
  assumes "attacher_inv s"
  shows "inv_after (SendDone ec) s (attacher_handle T ver nn env (SendDone ec) (att s))"
  using assms inv_sender [OF assms]
  by (simp add: sender_completed_def initial_packet_sent_def send_initial_packet_def emit_def inv_after_obind
      Let_def split: option.split sender_completion.split)

lemma dns_step_V4:
  assumes "dns_step (AnswerV4 ec as) r = Inr (r', calls)" "ec \<noteq> NABTO_EC_OPERATION_IN_PROGRESS"
  shows "v4Ec r' = ec \<and> v6Ec r' = v6Ec r
    \<and> (if v6Ec r = NABTO_EC_OPERATION_IN_PROGRESS then calls = [] else \<exists>e. calls = [DnsCompletion e])"
  using assms
  by (auto simp: dns_resolved_callback_v4_def dns_resolved_def dns_resolved_ec_def obind_eq_Inr_iff split: if_splits)

lemma dns_step_V6:
  assumes "dns_step (AnswerV6 ec as) r = Inr (r', calls)" "ec \<noteq> NABTO_EC_OPERATION_IN_PROGRESS"
  shows "v6Ec r' = ec \<and> v4Ec r' = v4Ec r
    \<and> (if v4Ec r = NABTO_EC_OPERATION_IN_PROGRESS then calls = [] else \<exists>e. calls = [DnsCompletion e])"
  using assms
  by (auto simp: dns_resolved_callback_v6_def dns_resolved_def dns_resolved_ec_def obind_eq_Inr_iff split: if_splits)

lemma inv_resolver:
  assumes "attacher_inv s" "dns_pending s"
    and "v4Ec r \<noteq> NABTO_EC_OPERATION_IN_PROGRESS \<or> v6Ec r \<noteq> NABTO_EC_OPERATION_IN_PROGRESS"
  shows "v4Ec r = NABTO_EC_OPERATION_IN_PROGRESS \<or> v6Ec r = NABTO_EC_OPERATION_IN_PROGRESS \<Longrightarrow> dnsResult s = None \<Longrightarrow>
       attacher_inv (s\<lparr>att := (att s)\<lparr>dnsMultiResolver := r\<rparr>\<rparr>)"
    "v4Ec r \<noteq> NABTO_EC_OPERATION_IN_PROGRESS \<Longrightarrow> v6Ec r \<noteq> NABTO_EC_OPERATION_IN_PROGRESS \<Longrightarrow>
       attacher_inv (s\<lparr>att := (att s)\<lparr>dnsMultiResolver := r\<rparr>, dnsResult := Some e\<rparr>)"
  using assms
  by (cases "moduleState (att s)"; cases "attachState (att s)"; simp add: inv_simps)+

lemma inv_dns_answer:
  assumes "attacher_inv s" "enabled (DnsAnswer a) s"
  shows "inv_after (DnsAnswer a) s (attacher_handle T ver nn env (DnsAnswer a) (att s))"
proof (cases "dns_step a (dnsMultiResolver (att s))")
  case (Inr p)
  obtain r calls where p: "p = (r, calls)" by fastforce
  have none: "dnsResult s = None" using assms by (cases a) (auto simp: attacher_inv_def)
  have pend: "dns_pending s" using assms(2) by (cases a) (auto simp: dns_pending_def)
  show ?thesis
  proof (cases a)
    case (AnswerV4 ec as)
    then show ?thesis
      using assms(2) Inr p none inv_resolver [OF assms(1) pend, of r]
        dns_step_V4 [of ec as "dnsMultiResolver (att s)" r calls]
      by (auto split: if_splits)
  next
    case (AnswerV6 ec as)
    then show ?thesis
      using assms(2) Inr p none inv_resolver [OF assms(1) pend, of r]
        dns_step_V6 [of ec as "dnsMultiResolver (att s)" r calls]
      by (auto split: if_splits)
  qed
qed simp

section \<open>The attach sequence keeps the invariant\<close>

lemma attach_requests_send:
  "attach_requests l cb = 0 \<Longrightarrow> attach_requests (l(AttachStart := True)) cb = 1"
  "attach_requests l cb = 0 \<Longrightarrow> attach_requests (l(AttachEnd := True)) cb = 1"
  "attach_requests l None = 0 \<Longrightarrow> attach_requests (l(SctUpload := True)) (Some SendAttachSctRequestCallback) = 1"
  "attach_requests (l(SctUpload := True)) (Some SendSctRequestCallback) = attach_requests l None"
  "any_live (l(k := True))"
  by (simp_all add: attach_requests_def any_live_def split: if_splits) (cases k; simp)

lemma attach_requests_consumed:
  "attach_requests l cb \<le> 1 \<Longrightarrow> l AttachStart \<Longrightarrow> attach_requests (l(AttachStart := False)) cb = 0"
  "attach_requests l cb \<le> 1 \<Longrightarrow> l AttachEnd \<Longrightarrow> attach_requests (l(AttachEnd := False)) cb = 0"
  "attach_requests l (Some SendAttachSctRequestCallback) \<le> 1 \<Longrightarrow> l SctUpload \<Longrightarrow>
     attach_requests (l(SctUpload := False)) None = 0"
  "attach_requests (l(k := False)) cb \<le> attach_requests l cb"
  "attach_requests (l(SctUpload := False)) None \<le> attach_requests l cb"
  "any_live (l(k := False)) \<Longrightarrow> any_live l"
  by (auto simp: attach_requests_def any_live_def split: if_splits)

lemma andThen_emit_Nil: "andThen (emit []) g s = g s"
  by (cases "g s") (auto simp: andThen_def emit_def)

lemma keeps_emit [simp]: "keeps (emit outs) s = attacher_inv (fold effect outs s)"
  by (simp add: keeps_def emit_def)

lemma keeps_if: "keeps (if b then f else g) s = (if b then keeps f s else keeps g s)"
  by simp

lemma inv_after_keeps: "keeps f ((consume l s)\<lparr>att := c\<rparr>) \<Longrightarrow> inv_after l s (f c)"
  by (cases "f c") (auto simp: keeps_def)

lemma keeps_failed_iff: "keeps coap_attach_failed s = attacher_inv (effect DtlsClose s)"
  by (simp add: coap_attach_failed_def)

lemma keeps_failed: "attacher_inv s \<Longrightarrow> may_close s \<Longrightarrow> keeps coap_attach_failed s"
  by (cases "moduleState (att s)"; cases "attachState (att s)"; cases "dtlsPhase s";
      simp add: may_close_def inv_simps)

lemma attaching_may_close: "attaching s \<Longrightarrow> may_close s"
  by (auto simp: attaching_def may_close_def)

lemma inv_attaching_send:
  assumes "attacher_inv s" "attaching s"
  shows "attacher_inv (s\<lparr>att := (att s)\<lparr>endCallback := True\<rparr>, live := (live s)(AttachEnd := True)\<rparr>)"
    "attacher_inv (s\<lparr>att := (att s)\<lparr>startCallback := True\<rparr>, live := (live s)(AttachStart := True)\<rparr>)"
    "sctCallback (sctContext (att s)) = None \<Longrightarrow> sctCallback x = Some SendAttachSctRequestCallback \<Longrightarrow>
     attacher_inv (s\<lparr>att := (att s)\<lparr>sctContext := x\<rparr>,
       live := (live s)(SctUpload := True), uploading := u\<rparr>)"
  using assms
  by (cases "dtlsPhase s"; simp add: attaching_def attach_requests_send inv_simps)+

lemma keeps_end_request:
  assumes "attacher_inv s" "attaching s"
  shows "keeps (send_attach_end_request env) s"
  using keeps_failed [OF assms(1) attaching_may_close [OF assms(2)]] inv_attaching_send [OF assms]
  by (simp add: keeps_def send_attach_end_request_def nc_attacher_attach_end_request_def coap_attach_failed_def act_simps)

lemma coap_error_not_started [simp]: "nc_coap_error_to_core e \<noteq> NABTO_EC_OPERATION_STARTED"
  by (cases e) simp_all

lemma sct_upload_cases:
  "(\<exists>ec. ec \<noteq> NABTO_EC_OPERATION_STARTED \<and> nc_attacher_sct_upload env cb c = (ec, c, []))
   \<or> sctCallback (sctContext c) = None \<and>
     nc_attacher_sct_upload env cb c = (NABTO_EC_OPERATION_STARTED, upload_started cb c,
       [CoapSend SctUpload (Some (encode_scts (scts (sctContext c))))])"
  by (simp add: nc_attacher_sct_upload_def upload_started_def Let_def)

lemma keeps_attach_sct:
  assumes "attacher_inv s" "attaching s"
  shows "keeps (send_attach_sct_request env) s"
  using sct_upload_cases [of env SendAttachSctRequestCallback "att s"]
proof (elim disjE exE conjE)
  fix ec assume "ec \<noteq> NABTO_EC_OPERATION_STARTED" "nc_attacher_sct_upload env SendAttachSctRequestCallback (att s) = (ec, att s, [])"
  then have "send_attach_sct_request env (att s) =
      (if ec = NABTO_EC_NO_OPERATION then send_attach_end_request env else coap_attach_failed) (att s)"
    by (simp add: send_attach_sct_request_def andThen_emit_Nil)
  then show ?thesis
    using keeps_end_request [OF assms] keeps_failed [OF assms(1) attaching_may_close [OF assms(2)]]
    by (simp add: keeps_def split: if_splits)
next
  assume "sctCallback (sctContext (att s)) = None"
    "nc_attacher_sct_upload env SendAttachSctRequestCallback (att s) = (NABTO_EC_OPERATION_STARTED,
       upload_started SendAttachSctRequestCallback (att s), [CoapSend SctUpload (Some (encode_scts (scts (sctContext (att s)))))])"
  then show ?thesis
    using inv_attaching_send(3) [OF assms]
    by (simp add: send_attach_sct_request_def upload_started_def keeps_def act_simps)
qed

lemma inv_plain_upload:
  assumes "attacher_inv s" "moduleState (att s) \<noteq> NC_ATTACHER_MODULE_SETUP"
    and "moduleState (att s) = NC_ATTACHER_MODULE_RUNNING \<Longrightarrow> dtlsPhase s \<in> {DtlsConnected, DtlsClosing}"
    and "sctCallback (sctContext (att s)) = None" "sctCallback x = Some SendSctRequestCallback"
  shows "attacher_inv (s\<lparr>att := (att s)\<lparr>sctContext := x\<rparr>,
       live := (live s)(SctUpload := True), uploading := u\<rparr>)"
  using assms
  by (cases "moduleState (att s)"; cases "attachState (att s)"; cases "dtlsPhase s";
      simp add: attach_requests_send inv_simps)

lemma keeps_send_sct:
  assumes "attacher_inv s" "moduleState (att s) \<noteq> NC_ATTACHER_MODULE_SETUP"
    and "moduleState (att s) = NC_ATTACHER_MODULE_RUNNING \<Longrightarrow> dtlsPhase s \<in> {DtlsConnected, DtlsClosing}"
  shows "keeps (send_sct_request env) s"
  using sct_upload_cases [of env SendSctRequestCallback "att s"] assms(1) inv_plain_upload [OF assms]
  by (auto simp: send_sct_request_def upload_started_def keeps_def)

lemma inv_sct_same:
  assumes "attacher_inv s" "sctCallback x = sctCallback (sctContext (att s))"
  shows "attacher_inv (s\<lparr>adds := n, att := (att s)\<lparr>sctContext := x\<rparr>\<rparr>)"
  using assms
  by (cases "moduleState (att s)"; cases "attachState (att s)"; simp add: inv_simps no_requests_def)

lemma inv_add_token:
  assumes "attacher_inv s"
  shows "inv_after (AddToken t) s (attacher_handle T ver nn env (AddToken t) (att s))"
proof -
  obtain b x where ins: "ss_insert nn (scts (sctContext (att s))) t = (b, x)" by fastforce
  let ?c = "(att s)\<lparr>sctContext := (sctContext (att s))\<lparr>sct_version := sct_version (sctContext (att s)) + 1, scts := x\<rparr>\<rparr>"
  let ?s = "(consume (AddToken t) s)\<lparr>att := ?c\<rparr>"
  have inv: "attacher_inv ?s"
    using inv_sct_same [OF assms] by simp
  show ?thesis
  proof (cases "b \<and> attachState (att s) = NC_ATTACHER_STATE_ATTACHED")
    case False
    then show ?thesis
      using inv ins by (auto simp: nc_attacher_add_server_connect_token_def drop_code_def Let_def split: bool.split)
  next
    case True
    then have "moduleState (att s) \<noteq> NC_ATTACHER_MODULE_SETUP"
      "moduleState (att s) = NC_ATTACHER_MODULE_RUNNING \<Longrightarrow> dtlsPhase s \<in> {DtlsConnected, DtlsClosing}"
      using assms by (auto simp: inv_defs)
    then have "inv_after (AddToken t) s (send_sct_request env ?c)"
      using inv by (intro inv_after_keeps keeps_send_sct) simp_all
    then show ?thesis
      using True ins
      by (cases "send_sct_request env ?c") (auto simp: nc_attacher_add_server_connect_token_def drop_code_def Let_def)
  qed
qed

text \<open>A response has been delivered: the request is neither live nor pending any more.\<close>

lemma enabled_response_may_close:
  assumes "attacher_inv s" "request_pending k (att s)"
  shows "may_close s"
proof -
  have "\<not> no_requests (att s)"
    using assms(2) by (cases k) (simp_all add: request_pending_def no_requests_def)
  then show ?thesis
    using assms(1)
    by (cases "moduleState (att s)"; simp add: may_close_def attacher_inv_def setup_inv_def running_inv_def Let_def; blast)
qed

lemma inv_weaken:
  assumes "attacher_inv s"
    and "attachState c = attachState (att s)" "moduleState c = moduleState (att s)"
    and "redirectAttempts c = redirectAttempts (att s)" "closedCb c = closedCb (att s)"
    and "dnsMultiResolver c = dnsMultiResolver (att s)"
    and "no_requests (att s) \<longrightarrow> no_requests c" "any_live l \<longrightarrow> any_live (live s)"
    and "attach_requests l (sctCallback (sctContext c)) \<le> attach_requests (live s) (sctCallback (sctContext (att s)))"
  shows "attacher_inv (s\<lparr>live := l, acked := a, att := c\<rparr>)"
proof -
  let ?s = "s\<lparr>live := l, acked := a, att := c\<rparr>"
  have dns: "dns_pending ?s = dns_pending s" using assms(6) by (simp add: dns_pending_def)
  have same: "awaits_event ?s = awaits_event s"
    using assms(2,5) dns by (cases "attachState (att s)"; simp add: awaits_event_def dtls_active_def)
  show ?thesis
    using assms same dns by (cases "moduleState (att s)")
      (auto simp: attacher_inv_def setup_inv_def running_inv_def closed_inv_def Let_def)
qed

lemma keep_alive_settings_frame: "apply_keep_alive_settings T v ctx = Inr c \<Longrightarrow> same_control ctx c"
  by (clarsimp simp: apply_keep_alive_settings_def Let_def same_control_def obind_def split: sum.splits if_splits)

lemma stun_frame: "same_control c (apply_stun T v c)"
  by (simp add: apply_stun_def Let_def same_control_def split: option.split)

lemma handle_attached_frame: "handle_attached T root ctx = Inr (st, c) \<Longrightarrow> same_control ctx c"
  using keep_alive_settings_frame [of T "cbor_map_find T root ''KeepAlive''" ctx] stun_frame [of _ T "cbor_map_find T root ''Stun''"]
  by (auto simp: handle_attached_def obind_eq_Inr_iff same_control_def)

lemma handle_redirect_frame: "handle_redirect T root ctx = Inr (st, c) \<Longrightarrow> same_control ctx c"
  by (auto simp: handle_redirect_def Let_def same_control_def split: option.splits if_splits)

lemma start_response_frame:
  assumes "coap_attach_start_handle_response T res ctx = Inr (st, c)"
  shows "same_control ctx c" "res = None \<Longrightarrow> st = NC_ATTACHER_STATUS_ERROR"
proof -
  have refl: "same_control ctx ctx" by (simp add: same_control_def)
  show "same_control ctx c"
    using assms refl handle_attached_frame [of T _ ctx st c] handle_redirect_frame [of T _ ctx st c]
    by (simp add: coap_attach_start_handle_response_def Let_def split: option.splits if_splits)
qed (use assms in \<open>simp add: coap_attach_start_handle_response_def\<close>)

lemma inv_redirect_state:
  assumes "attacher_inv s" "attaching s" "r \<le> 5"
  shows "attacher_inv (s\<lparr>att := (att s)\<lparr>attachState := NC_ATTACHER_STATE_REDIRECT,
      redirectAttempts := r\<rparr>, dtlsPhase := DtlsClosing\<rparr>)"
  using assms(1,2) by (cases "dtlsPhase s"; simp add: attaching_def inv_defs assms(3))

lemma inv_redirect:
  assumes "attacher_inv s" "attaching s"
  shows "attacher_inv (s\<lparr>att := (att s)\<lparr>attachState := NC_ATTACHER_STATE_REDIRECT,
      redirectAttempts := redirectAttempts (att s) + 1\<rparr>, dtlsPhase := DtlsClosing\<rparr>)"
proof (rule inv_redirect_state [OF assms])
  have "redirectAttempts (att s) \<le> 4"
    using assms by (simp add: attaching_def attacher_inv_def running_inv_def redirects_ok_def Let_def)
  then show "redirectAttempts (att s) + 1 \<le> 5" by (rule word_plus1_le5)
qed

lemma keeps_start_callback:
  assumes "attacher_inv s" "may_close s"
    and "moduleState (att s) = NC_ATTACHER_MODULE_RUNNING \<Longrightarrow> st \<noteq> NC_ATTACHER_STATUS_ERROR \<Longrightarrow> attaching s"
  shows "keeps (coap_attach_start_callback env st) s"
proof (cases "moduleState (att s) = NC_ATTACHER_MODULE_RUNNING \<and> st \<noteq> NC_ATTACHER_STATUS_ERROR")
  case True
  then have att: "attaching s" using assms(3) by blast
  then have ph: "dtlsPhase s \<noteq> DtlsIdle" by (auto simp: attaching_def)
  show ?thesis
    using True ph keeps_attach_sct [OF assms(1) att, of env] inv_redirect [OF assms(1) att]
    by (cases st; simp add: coap_attach_start_callback_def keeps_def emit_def)
next
  case False
  then have "coap_attach_start_callback env st (att s) = coap_attach_failed (att s)"
    using assms(2) by (cases "moduleState (att s)"; cases st) (auto simp: coap_attach_start_callback_def may_close_def)
  then show ?thesis using keeps_failed [OF assms(1,2)] by (simp add: keeps_def)
qed

lemma inv_start_response:
  assumes "attacher_inv s" "enabled (Response AttachStart res) s"
  shows "inv_after (Response AttachStart res) s (attacher_handle T ver nn env (Response AttachStart res) (att s))"
proof (cases "coap_attach_start_handle_response T res (att s)")
  case (Inr p)
  obtain st c where p: "p = (st, c)" by fastforce
  note frame = start_response_frame(1) [OF Inr [unfolded p], unfolded same_control_def]
    and err = start_response_frame(2) [OF Inr [unfolded p]]
  let ?c = "c\<lparr>startCallback := False\<rparr>"
  let ?s = "(consume (Response AttachStart res) s)\<lparr>att := ?c\<rparr>"
  have pend: "startCallback (att s)" using assms(2) by (simp add: request_pending_def)
  have inv: "attacher_inv ?s"
    using inv_weaken [OF assms(1), of ?c "(live s)(AttachStart := False)" "acked s"] frame
      attach_requests_consumed(4,6) [of "live s" AttachStart]
    by (auto simp: no_requests_def)
  have mc: "may_close ?s"
    using enabled_response_may_close [OF assms(1), of AttachStart] assms(2) frame by (simp add: may_close_def)
  have att: "attaching ?s" if "res \<noteq> None" "moduleState (att s) = NC_ATTACHER_MODULE_RUNNING"
  proof -
    have l: "live s AttachStart" using that assms(2) by simp
    then have "any_live (live s)" "attach_requests (live s) (sctCallback (sctContext (att s))) \<noteq> 0"
      by (simp_all add: any_live_def attach_requests_def)
    with that assms(1) frame attach_requests_consumed(1) [of "live s"] l show ?thesis
      by (simp add: attaching_def attacher_inv_def running_inv_def Let_def)
  qed
  have "keeps (coap_attach_start_callback env st) ?s"
    using keeps_start_callback [OF inv mc] att frame err by auto
  then show ?thesis
    using inv_after_keeps Inr p pend by (simp add: coap_attach_start_handler_def)
qed (simp add: coap_attach_start_handler_def)

lemma inv_attached:
  assumes "attacher_inv s" "attaching s"
  shows "attacher_inv (s\<lparr>att := (att s)\<lparr>keepAlive := ka, attachState := NC_ATTACHER_STATE_ATTACHED\<rparr>, kaPosted := True\<rparr>)"
  using assms by (cases "dtlsPhase s"; simp add: attaching_def inv_simps)

lemma update_swap: "s\<lparr>kaPosted := b, att := c\<rparr> = s\<lparr>att := c, kaPosted := b\<rparr>" for s :: attacher_system
  by simp

lemma keeps_end_callback:
  assumes "attacher_inv s" "may_close s"
    and "moduleState (att s) = NC_ATTACHER_MODULE_RUNNING \<Longrightarrow> ec = NABTO_EC_OK \<Longrightarrow> attaching s"
  shows "keeps (coap_attach_end_handler env ec) s"
proof (cases "moduleState (att s) = NC_ATTACHER_MODULE_RUNNING \<and> ec = NABTO_EC_OK")
  case True
  then have att: "attaching s" using assms(3) by blast
  let ?c = "(att s)\<lparr>attachState := NC_ATTACHER_STATE_ATTACHED\<rparr>"
  let ?s = "s\<lparr>att := ?c, kaPosted := True\<rparr>"
  have ph: "dtlsPhase s \<in> {DtlsConnected, DtlsClosing}" using att by (auto simp: attaching_def)
  have "attacher_inv ?s" using inv_attached [OF assms(1) att, of "keepAlive (att s)"] by simp
  then have "keeps (send_sct_request env) ?s"
    using True ph by (intro keeps_send_sct) auto
  then show ?thesis
    using True
    by (cases "send_sct_request env ?c")
      (auto simp: coap_attach_end_handler_def keeps_def nc_keep_alive_wait_def andThen_def emit_def
        handle_state_change_def state_entry_def update_swap)
next
  case False
  then have "coap_attach_end_handler env ec (att s) = coap_attach_failed (att s)"
    using assms(2) by (cases "moduleState (att s)") (auto simp: coap_attach_end_handler_def may_close_def)
  then show ?thesis using keeps_failed [OF assms(1,2)] by (simp add: keeps_def)
qed

lemma inv_end_response:
  assumes "attacher_inv s" "enabled (Response AttachEnd res) s"
  shows "inv_after (Response AttachEnd res) s (attacher_handle T ver nn env (Response AttachEnd res) (att s))"
proof -
  let ?c = "(att s)\<lparr>endCallback := False\<rparr>"
  let ?s = "(consume (Response AttachEnd res) s)\<lparr>att := ?c\<rparr>"
  let ?ec = "case res of None \<Rightarrow> NABTO_EC_UNKNOWN
    | Some r \<Rightarrow> if nc_coap_is_status_ok (res_code r) then NABTO_EC_OK else NABTO_EC_UNKNOWN"
  have inv: "attacher_inv ?s"
    using inv_weaken [OF assms(1), of ?c "(live s)(AttachEnd := False)" "acked s"]
      attach_requests_consumed(4,6) [of "live s" AttachEnd]
    by (auto simp: no_requests_def)
  have mc: "may_close ?s"
    using enabled_response_may_close [OF assms(1), of AttachEnd] assms(2) by (simp add: may_close_def)
  have att: "attaching ?s" if "res \<noteq> None" "moduleState (att s) = NC_ATTACHER_MODULE_RUNNING"
  proof -
    have l: "live s AttachEnd" using that assms(2) by simp
    then have "any_live (live s)" "attach_requests (live s) (sctCallback (sctContext (att s))) \<noteq> 0"
      by (simp_all add: any_live_def attach_requests_def)
    with that assms(1) attach_requests_consumed(2) [of "live s"] l show ?thesis
      by (simp add: attaching_def attacher_inv_def running_inv_def Let_def)
  qed
  have "keeps (coap_attach_end_handler env ?ec) ?s"
    using keeps_end_callback [OF inv mc] att by (cases res) auto
  then show ?thesis
    using inv_after_keeps assms(2) by (simp add: attach_end_response_handler_def request_pending_def)
qed

lemma inv_sct_response:
  assumes "attacher_inv s" "enabled (Response SctUpload res) s"
  shows "inv_after (Response SctUpload res) s (attacher_handle T ver nn env (Response SctUpload res) (att s))"
proof (cases res)
  case (Some r)
  obtain cb where cb: "sctCallback (sctContext (att s)) = Some cb" using assms(2) by (auto simp: request_pending_def)
  have l: "live s SctUpload" using Some assms(2) by simp
  define ok where "ok = nc_coap_is_status_ok (res_code r)"
  define ec where "ec = (if ok then NABTO_EC_OK else NABTO_EC_UNKNOWN)"
  define x where "x = (sctContext (att s))\<lparr>synchronizedVersion :=
     (if ok then uploadingVersion (sctContext (att s)) else synchronizedVersion (sctContext (att s))), sctCallback := None\<rparr>"
  let ?c = "(att s)\<lparr>sctContext := x\<rparr>"
  let ?s = "(consume (Response SctUpload res) s)\<lparr>att := ?c\<rparr>"
  have x: "sctCallback x = None" by (simp add: x_def)
  have inv: "attacher_inv ?s"
    using inv_weaken [OF assms(1), of ?c "(live s)(SctUpload := False)"] x
      attach_requests_consumed(5,6) [of "live s"]
    by (auto simp: no_requests_def split: option.split)
  have mc: "may_close ?s"
    using enabled_response_may_close [OF assms(1), of SctUpload] assms(2) by (simp add: may_close_def)
  have live: "any_live (live s)" using l by (simp add: any_live_def)
  have "keeps (case cb of SendAttachSctRequestCallback \<Rightarrow> send_attach_sct_request_callback env ec
      | SendSctRequestCallback \<Rightarrow> send_sct_request_callback env ec) ?s"
  proof (cases cb)
    case SendAttachSctRequestCallback
    have "attaching ?s" if "moduleState (att s) = NC_ATTACHER_MODULE_RUNNING"
    proof -
      have "attach_requests (live s) (sctCallback (sctContext (att s))) \<noteq> 0"
        using cb l SendAttachSctRequestCallback by (simp add: attach_requests_def)
      with that assms(1) x cb live attach_requests_consumed(3) [of "live s"] l SendAttachSctRequestCallback show ?thesis
        by (simp add: attaching_def attacher_inv_def running_inv_def Let_def)
    qed
    then show ?thesis
      using SendAttachSctRequestCallback keeps_failed [OF inv mc] keeps_end_request [OF inv] mc
      by (cases "moduleState (att s)") (auto simp: send_attach_sct_request_callback_def keeps_def may_close_def)
  next
    case SendSctRequestCallback
    have "keeps (send_sct_request env) ?s"
      using inv mc live assms(1)
      by (intro keeps_send_sct) (auto simp: may_close_def attacher_inv_def running_inv_def Let_def)
    then show ?thesis
      using SendSctRequestCallback inv by (simp add: send_sct_request_callback_def keeps_def emit_def)
  qed
  then have "inv_after (Response SctUpload res) s ((case cb of
      SendAttachSctRequestCallback \<Rightarrow> send_attach_sct_request_callback env ec
    | SendSctRequestCallback \<Rightarrow> send_sct_request_callback env ec) ?c)"
    by (rule inv_after_keeps)
  moreover have "attacher_handle T ver nn env (Response SctUpload res) (att s) = (case cb of
      SendAttachSctRequestCallback \<Rightarrow> send_attach_sct_request_callback env ec
    | SendSctRequestCallback \<Rightarrow> send_sct_request_callback env ec) ?c"
    using cb Some
    by (cases cb; cases "nc_coap_is_status_ok (res_code r)";
        simp add: sct_request_handler_def x_def ok_def ec_def Let_def)
  ultimately show ?thesis by (simp only:)
qed (simp add: sct_request_handler_def)

lemma inv_handshake:
  assumes "attacher_inv s" "enabled (DtlsEvent NP_DTLS_CLI_EVENT_HANDSHAKE_COMPLETE) s"
  shows "inv_after (DtlsEvent NP_DTLS_CLI_EVENT_HANDSHAKE_COMPLETE) s
    (attacher_handle T ver nn env (DtlsEvent NP_DTLS_CLI_EVENT_HANDSHAKE_COMPLETE) (att s))"
proof (cases "moduleState (att s) = NC_ATTACHER_MODULE_RUNNING")
  case False
  then show ?thesis
    using assms
    by (cases "moduleState (att s)"; cases "attachState (att s)"; simp add: inv_simps)
next
  case True
  let ?s = "s\<lparr>dtlsPhase := DtlsConnected\<rparr>"
  have st: "attachState (att s) = NC_ATTACHER_STATE_DTLS_ATTACH_REQUEST" "\<not> any_live (live s)"
    using True assms by (cases "attachState (att s)"; simp add: inv_simps)+
  have inv: "attacher_inv ?s" and att: "attaching ?s"
    using True st assms by (simp_all add: inv_simps attaching_def)
  note failed = keeps_failed [OF inv attaching_may_close [OF att]]
  show ?thesis
  proof (cases "nc_attacher_attach_start_request env ver (att s)")
    case (Inr p)
    obtain ec c calls where p: "p = (ec, c, calls)" by (cases p)
    have "(ec \<noteq> NABTO_EC_OPERATION_STARTED \<and> c = att s \<and> calls = []) \<or>
      (\<exists>pl. ec = NABTO_EC_OPERATION_STARTED \<and> c = (att s)\<lparr>startCallback := True\<rparr> \<and> calls = [CoapSend AttachStart (Some pl)])"
      using Inr p by (auto simp: nc_attacher_attach_start_request_def obind_eq_Inr_iff split: if_splits)
    then show ?thesis
      using True Inr p failed inv_attaching_send(2) [OF inv att]
      by (auto simp: dtls_event_handler_def handle_dtls_connected_def send_attach_start_request_def act_simps
          keeps_def coap_attach_failed_def)
  next
    case (Inl a)
    then show ?thesis using True failed
      by (simp add: dtls_event_handler_def handle_dtls_connected_def send_attach_start_request_def emit_def keeps_def coap_attach_failed_def)
  qed
qed

section \<open>Theorems on the reachable states\<close>

lemmas inv_steps = inv_async_close inv_stop inv_start inv_timer inv_close_event inv_dns_resolved inv_dtls_closed
  inv_dtls_denied inv_keep_alive_sent inv_packet_received inv_keep_alive_tick inv_data_received inv_packet_to_send
  inv_send_done inv_dns_answer inv_add_token inv_start_response inv_end_response inv_sct_response inv_handshake

lemma inv_step:
  assumes "attacher_inv s" "enabled l s"
  shows "inv_after l s (attacher_handle T ver nn env l (att s))"
proof (cases l)
  case (DtlsEvent ev)
  then show ?thesis using assms by (cases ev; simp only: inv_steps)
next
  case (Response k res)
  then show ?thesis using assms by (cases k; simp only: inv_steps)
qed (use assms in \<open>simp only: inv_steps\<close>)+

lemma nc_attacher_init_fields:
  assumes "nc_attacher_init ienv lst = (ec, ctx)"
  shows "attachState ctx = NC_ATTACHER_STATE_DNS \<and> moduleState ctx = NC_ATTACHER_MODULE_SETUP
    \<and> dnsMultiResolver ctx = resolver_zero \<and> sctContext ctx = sct_zero \<and> redirectAttempts ctx = 0
    \<and> \<not> startCallback ctx \<and> \<not> endCallback ctx"
  using assms
  by (auto simp: nc_attacher_init_def nc_keep_alive_init_def Let_def attacher_zero_def split: if_splits)

lemma attacher_inv_reachable: "attacher_reachable T ver nn s \<Longrightarrow> attacher_inv s"
proof (induction rule: attacher_reachable.induct)
  case (init ienv lst ctx sl an av pid did)
  then show ?case
    using nc_attacher_init_fields [OF init]
    by (simp add: attacher_inv_def setup_inv_def attacher_sys_init_def nc_attacher_set_state_listener_def
        nc_attacher_set_app_info_def nc_attacher_set_device_info_def dns_pending_def resolver_zero_def
        any_live_def no_requests_def sct_zero_def)
next
  case (step s l env s' outs)
  then show ?case
    using inv_step [OF step.IH step.hyps(2), of T ver nn env]
    by (auto simp: attacher_sys_step_def obind_eq_Inr_iff)
qed



section \<open>Closing\<close>

lemma effect_frame [simp]: "att (effect out s) = att s" "adds (effect out s) = adds s" "acked (effect out s) = acked s"
  by (cases "(out, s)" rule: effect.cases; simp)+

lemma fold_effect_frame [simp]:
  "att (fold effect outs s) = att s" "adds (fold effect outs s) = adds s" "acked (fold effect outs s) = acked s"
  by (induction outs arbitrary: s) simp_all

lemma stays_closed_simps [simp]:
  "stays_closed (Inl e)"
  "stays_closed (Inr (c, outs)) \<longleftrightarrow> moduleState c = NC_ATTACHER_MODULE_CLOSED \<and> (\<forall>out\<in>set outs. \<not> starts_connecting out)"
  by (simp_all add: stays_closed_def)

lemma stays_closed_obind: "stays_closed (obind m f) \<longleftrightarrow> (\<forall>x. m = Inr x \<longrightarrow> stays_closed (f x))"
  by (cases m) auto

lemma stays_closed_sct:
  "moduleState c = NC_ATTACHER_MODULE_CLOSED \<Longrightarrow> stays_closed (send_sct_request env c)"
  using sct_upload_cases [of env SendSctRequestCallback c]
  by (auto simp: send_sct_request_def upload_started_def)

lemma dns_step_quiet:
  assumes "dns_step a r = Inr (r', calls)"
  shows "\<forall>out\<in>set (map DnsCall calls). \<not> starts_connecting out"
  using assms
  by (cases a) (auto simp: dns_resolved_callback_v4_def dns_resolved_callback_v6_def dns_resolved_def obind_eq_Inr_iff
      split: if_splits)

lemmas closed_defs = stays_closed_obind att_defs act_simps Let_def

lemma closed_response:
  assumes "moduleState c = NC_ATTACHER_MODULE_CLOSED"
  shows "stays_closed (attacher_handle T ver nn env (Response k res) c)"
proof (cases k)
  case AttachStart
  show ?thesis
  proof (cases "coap_attach_start_handle_response T res c")
    case (Inr p)
    then obtain st c' where "coap_attach_start_handle_response T res c = Inr (st, c')" by (cases p) auto
    then show ?thesis
      using assms AttachStart start_response_frame(1) [of T res c st c']
      by (simp add: coap_attach_start_handler_def coap_attach_start_callback_def coap_attach_failed_def emit_def
          same_control_def)
  qed (simp add: AttachStart coap_attach_start_handler_def)
next
  case AttachEnd
  then show ?thesis
    using assms by (simp add: attach_end_response_handler_def coap_attach_end_handler_def coap_attach_failed_def emit_def Let_def)
next
  case SctUpload
  then show ?thesis
    using assms
    by (simp add: sct_request_handler_def send_attach_sct_request_callback_def send_sct_request_callback_def
        coap_attach_failed_def emit_def stays_closed_obind stays_closed_sct Let_def split: nc_attacher_sct_callback.split)
qed

lemma closed_data:
  assumes "moduleState c = NC_ATTACHER_MODULE_CLOSED"
  shows "stays_closed (dtls_data_handler b c)" "stays_closed (dtls_packet_sender b cb c)"
    "stays_closed (sender_completed ec c)" "stays_closed (keep_alive_event r n c)"
    "stays_closed (nc_attacher_handle_dtls_packet ep b c)"
  using assms
  by (auto simp: dtls_data_handler_def handle_keep_alive_data_def keep_alive_send_response_def dtls_packet_sender_def
      start_send_initial_packet_def send_initial_packet_def sender_completed_def initial_packet_sent_def emit_def
      keep_alive_event_def keep_alive_wait_def keep_alive_send_req_def andThen_def nc_keep_alive_wait_def
      nc_attacher_handle_dtls_packet_def
      stays_closed_obind Let_def split: list.split option.split prod.split sender_completion.split nc_keep_alive_action.split)

lemma closed_handle:
  assumes "moduleState c = NC_ATTACHER_MODULE_CLOSED"
  shows "stays_closed (attacher_handle T ver nn env l c)"
proof (cases l)
  case (AddToken t)
  obtain b x where "ss_insert nn (scts (sctContext c)) t = (b, x)" by fastforce
  moreover
  let ?c = "c\<lparr>sctContext := (sctContext c)\<lparr>sct_version := sct_version (sctContext c) + 1, scts := x\<rparr>\<rparr>"
  have "stays_closed (send_sct_request env ?c)" using assms by (simp add: stays_closed_sct)
  ultimately show ?thesis
    using AddToken assms
    by (cases "send_sct_request env ?c"; cases b)
      (auto simp: nc_attacher_add_server_connect_token_def drop_code_def Let_def)
next
  case (DnsAnswer a)
  then show ?thesis using assms dns_step_quiet [of a] by (auto simp: stays_closed_obind)
next
  case (Response k res)
  then show ?thesis using closed_response [OF assms] by simp
next
  case (DtlsEvent ev)
  then show ?thesis using assms by (simp add: dtls_event_handler_def closed_defs)
next
  case (Start h p)
  then show ?thesis using assms by (simp add: nc_attacher_start_def drop_code_def)
next
  case (AsyncClose cb)
  then show ?thesis
    using assms by (cases "attachState c"; simp add: nc_attacher_async_close_def closed_defs)
next
  case Stop
  then show ?thesis
    using assms by (cases "attachState c"; simp add: nc_attacher_stop_def closed_defs)
next
  case CloseEventRuns
  then show ?thesis using assms by (simp add: closed_defs)
next
  case TimerFires
  then show ?thesis using assms by (simp add: closed_defs)
next
  case (DnsResolved ec)
  then show ?thesis using assms by (simp add: closed_defs)
qed (use closed_data [OF assms] assms in simp_all)


end
