(* ===== verification/NcAttacherTheorems.thy ===== *)
theory NcAttacherTheorems
  imports NcAttacherSystem
begin

text \<open>
  Further theorems on the attacher: the synchronisation of the server connect tokens over all
  reachable states, the host that is resolved after a redirect, the delivery of the first DTLS packet,
  and concrete runs of the system.
\<close>

section \<open>Definitions\<close>

text \<open>
  The context of the tokens after a handler and the last upload it started: either both are as
  before, or an upload of the present tokens has been started.
\<close>

fun last_upload :: "attacher_output list \<Rightarrow> cbor option" where
  "last_upload [] = None"
| "last_upload (CoapSend SctUpload (Some p) # outs) = (case last_upload outs of None \<Rightarrow> Some p | r \<Rightarrow> r)"
| "last_upload (_ # outs) = last_upload outs"

definition sct_frame :: "nc_attacher_sct_context \<Rightarrow> (nc_attach_context \<times> attacher_output list) outcome \<Rightarrow> bool" where
  "sct_frame x r = (case r of Inl _ \<Rightarrow> True
     | Inr (c, outs) \<Rightarrow> sctContext c = x \<and> last_upload outs = None
         \<or> (sctCallback x = None \<and> last_upload outs = Some (encode_scts (scts x))
            \<and> (\<exists>cb. sctContext c = x\<lparr>sctCallback := Some cb, uploadingVersion := sct_version x\<rparr>)))"

definition quiet :: "nc_attacher_sct_context \<Rightarrow> (nc_attach_context \<times> attacher_output list) outcome \<Rightarrow> bool" where
  "quiet x r = (case r of Inl _ \<Rightarrow> True | Inr (c, outs) \<Rightarrow> sctContext c = x \<and> last_upload outs = None)"

text \<open>
  The tokens of every version, by a list that grows with each addition: the acknowledged upload
  holds the tokens of the synchronised version.
\<close>

definition sct_inv :: "attacher_system \<Rightarrow> bool" where
  "sct_inv s \<longleftrightarrow> adds s < 2 ^ 64 \<longrightarrow>
     (let x = sctContext (att s) in
      \<exists>h. length h = adds s + 1 \<and> last h = scts x \<and> unat (sct_version x) = adds s
        \<and> unat (synchronizedVersion x) \<le> adds s \<and> acked s = encode_scts (h ! unat (synchronizedVersion x))
        \<and> (sctCallback x \<noteq> None \<longrightarrow>
             unat (uploadingVersion x) \<le> adds s \<and> uploading s = encode_scts (h ! unat (uploadingVersion x))))"

text \<open>Runs of the system under fixed results of the surrounding functions, for concrete instances.\<close>

fun attacher_run ::
    "'v tinycbor \<Rightarrow> string \<Rightarrow> 'z nn_lib_scheme \<Rightarrow> attacher_env \<Rightarrow> attacher_label list \<Rightarrow> attacher_system
       \<Rightarrow> attacher_system option" where
  "attacher_run T ver nn env [] s = Some s"
| "attacher_run T ver nn env (l # ls) s =
     (if enabled l s then
        (case attacher_sys_step T ver nn env l s of Inl _ \<Rightarrow> None
         | Inr (s', outs) \<Rightarrow> attacher_run T ver nn env ls s')
      else None)"

definition demo_env :: attacher_env where
  "demo_env = \<lparr>env_alpn = True, env_malloc = (\<lambda>_. True), env_request_new = (\<lambda>_. True),
     env_set_payload = (\<lambda>_. NABTO_COAP_ERROR_OK)\<rparr>"

definition demo_cbor :: "cbor tinycbor" where
  "demo_cbor = cbor_by_item (CborMap [(CborText ''Status'', CborUint 0)])"

definition demo_ienv :: attacher_init_env where
  "demo_ienv = \<lparr>ec_reattachTimer = NABTO_EC_OK, ec_closeEv = NABTO_EC_OK, ec_dtls = NABTO_EC_OK,
     ec_keepAlive = NABTO_EC_OK, ec_sender = NABTO_EC_OK, ec_resolve = NABTO_EC_OK\<rparr>"

definition demo_init :: attacher_system where
  "demo_init = attacher_sys_init (nc_attacher_set_state_listener False
     (snd (nc_attacher_set_app_info (Some ''app'') (Some ''1.0'')
       (snd (nc_attacher_set_device_info (Some ''pr-1'') (Some ''de-1'') (snd (nc_attacher_init demo_ienv True)))))))"

definition demo_system :: "attacher_label list \<Rightarrow> attacher_system" where
  "demo_system ls = (case attacher_run demo_cbor ''5'' nn_by_lists demo_env ls demo_init of Some s \<Rightarrow> s | None \<Rightarrow> demo_init)"

definition demo_ok :: "coap_response option" where
  "demo_ok = Some \<lparr>res_code = 201, res_content_format = None, res_payload = Some [0]\<rparr>"

definition demo_attach :: "attacher_label list" where
  "demo_attach = [Start ''a.b'' 4433, DnsAnswer (AnswerV4 NABTO_EC_OK [demo_v4]), DnsAnswer (AnswerV6 NABTO_EC_OK []),
     DnsResolved NABTO_EC_OK, DtlsEvent NP_DTLS_CLI_EVENT_HANDSHAKE_COMPLETE, Response AttachStart demo_ok,
     Response AttachEnd demo_ok, AddToken ''t'', Response SctUpload demo_ok]"

text \<open>A closed module whose resolver answers.\<close>

definition demo_closing :: "attacher_label list" where
  "demo_closing = [Start ''a.b'' 4433, DnsAnswer (AnswerV4 NABTO_EC_OK [demo_v4]), DnsAnswer (AnswerV6 NABTO_EC_OK []),
     AsyncClose True]"

definition demo_redirect :: cbor where
  "demo_redirect = CborMap [(CborText ''Host'', CborText ''b.c''), (CborText ''Port'', CborUint 443),
     (CborText ''Fingerprint'', CborBytes [1])]"

text \<open>The completions of consecutive sends.\<close>

fun sends_complete :: "np_error_code list \<Rightarrow> attacher_act" where
  "sends_complete [] = emit []"
| "sends_complete (ec # ecs) = andThen (sender_completed ec) (sends_complete ecs)"

definition demo_resolved :: nc_attach_context where
  "demo_resolved = attacher_zero\<lparr>moduleState := NC_ATTACHER_MODULE_RUNNING, currentPort := 4433,
     dnsMultiResolver := resolver_zero\<lparr>ips := [demo_v4, demo_v6], ipsResolved := 2\<rparr>\<rparr>"

section \<open>Synchronisation of server connect tokens\<close>

lemma last_upload_append: "last_upload (xs @ ys) = (case last_upload ys of None \<Rightarrow> last_upload xs | r \<Rightarrow> r)"
  by (induction xs rule: last_upload.induct) (auto split: option.splits)

lemma uploading_effect: "uploading (effect out s) = (case last_upload [out] of None \<Rightarrow> uploading s | Some p \<Rightarrow> p)"
  by (cases "(out, s)" rule: effect.cases) (auto split: attach_request.splits option.splits)

lemma uploading_fold: "uploading (fold effect outs s) = (case last_upload outs of None \<Rightarrow> uploading s | Some p \<Rightarrow> p)"
proof (induction outs arbitrary: s)
  case (Cons out outs)
  then show ?case
    using last_upload_append [of "[out]" outs] by (simp add: uploading_effect split: option.split)
qed simp

lemma sct_frame_simps [simp]:
  "sct_frame x (Inl e)"
  "sct_frame x (Inr (c, outs)) \<longleftrightarrow> sctContext c = x \<and> last_upload outs = None
         \<or> (sctCallback x = None \<and> last_upload outs = Some (encode_scts (scts x))
            \<and> (\<exists>cb. sctContext c = x\<lparr>sctCallback := Some cb, uploadingVersion := sct_version x\<rparr>))"
  by (simp_all add: sct_frame_def)

lemma quiet_simps [simp]:
  "quiet x (Inl e)" "quiet x (Inr (c, outs)) \<longleftrightarrow> sctContext c = x \<and> last_upload outs = None"
  by (simp_all add: quiet_def)

lemma quiet_obind: "quiet x (obind m f) \<longleftrightarrow> (\<forall>y. m = Inr y \<longrightarrow> quiet x (f y))"
  by (cases m) auto

lemma quiet_frame: "quiet x r \<Longrightarrow> sct_frame x r"
  by (cases r) auto

lemma sct_frame_obind: "sct_frame x (obind m f) \<longleftrightarrow> (\<forall>y. m = Inr y \<longrightarrow> sct_frame x (f y))"
  by (cases m) auto

lemma sct_frame_prefix:
  "last_upload pre = None \<Longrightarrow> sct_frame x r \<Longrightarrow> sct_frame x (obind r (\<lambda>(c, outs). Inr (c, pre @ outs)))"
  by (cases r) (auto simp: last_upload_append split: option.split)

lemma quiet_prefix:
  "last_upload pre = None \<Longrightarrow> quiet x r \<Longrightarrow> quiet x (obind r (\<lambda>(c, outs). Inr (c, pre @ outs)))"
  by (cases r) (auto simp: last_upload_append split: option.split)

lemma last_upload_if [simp]: "last_upload (if b then xs else ys) = (if b then last_upload xs else last_upload ys)"
  by simp

lemma last_upload_dns [simp]: "last_upload (map DnsCall xs) = None"
  by (induction xs) simp_all

lemma obind_Inr_right [simp]: "obind m Inr = m"
  by (cases m) simp_all

lemma quiet_hsc: "quiet (sctContext c) (handle_state_change c)"
  by (cases "attachState c")
    (simp_all add: handle_state_change_def state_entry_def dns_start_resolve_def andThen_def emit_def quiet_obind
      nc_dns_multi_resolver_resolve_def obind_assoc last_upload_append)

lemma send_sct_frame: "sct_frame (sctContext c) (send_sct_request env c)"
  using sct_upload_cases [of env SendSctRequestCallback c]
  by (auto simp: send_sct_request_def upload_started_def)

lemma end_request_frame: "quiet (sctContext c) (send_attach_end_request env c)"
  by (simp add: send_attach_end_request_def nc_attacher_attach_end_request_def andThen_def emit_def coap_attach_failed_def)

lemma attach_sct_frame: "sct_frame (sctContext c) (send_attach_sct_request env c)"
  using sct_upload_cases [of env SendAttachSctRequestCallback c] end_request_frame [of c env, THEN quiet_frame]
  by (auto simp: send_attach_sct_request_def upload_started_def andThen_emit_Nil coap_attach_failed_def emit_def andThen_def)

lemma start_response_sct:
  "sct_frame (sctContext c) (coap_attach_start_handler T env res c)"
proof (cases "coap_attach_start_handle_response T res c")
  case (Inr p)
  then obtain st c' where r: "coap_attach_start_handle_response T res c = Inr (st, c')" by (cases p) auto
  have sct: "sctContext c' = sctContext c" using start_response_frame(1) [OF r] by (simp add: same_control_def)
  then show ?thesis
    using r attach_sct_frame [of "c'\<lparr>startCallback := False\<rparr>" env]
    by (cases st)
      (auto simp: coap_attach_start_handler_def coap_attach_start_callback_def coap_attach_failed_def emit_def)
qed (simp add: coap_attach_start_handler_def)

lemma end_response_sct: "sct_frame (sctContext c) (attach_end_response_handler env res c)"
proof -
  let ?c = "c\<lparr>endCallback := False, attachState := NC_ATTACHER_STATE_ATTACHED\<rparr>"
  have "sct_frame (sctContext c) (send_sct_request env ?c)"
    using send_sct_frame [of ?c env] by simp
  then show ?thesis
    by (cases "send_sct_request env ?c")
      (auto simp: attach_end_response_handler_def coap_attach_end_handler_def coap_attach_failed_def emit_def Let_def
        nc_keep_alive_wait_def andThen_def handle_state_change_def state_entry_def last_upload_append
        split: option.split)
qed

lemma quiet_andThen:
  assumes "quiet x (f c)" "\<And>c'. sctContext c' = x \<Longrightarrow> quiet x (g c')"
  shows "quiet x (andThen f g c)"
proof (cases "f c")
  case (Inr p)
  then obtain c1 o1 where f: "f c = Inr (c1, o1)" by (cases p) auto
  then have "quiet x (g c1)" using assms by simp
  then show ?thesis
    using f assms(1) by (cases "g c1") (auto simp: andThen_def last_upload_append)
qed (simp add: andThen_def)

lemma quiet_emit [simp]: "quiet x (emit outs c) \<longleftrightarrow> sctContext c = x \<and> last_upload outs = None"
  by (simp add: emit_def)

lemma quiet_hsc_at [simp]: "sctContext c = x \<Longrightarrow> quiet x (handle_state_change c)"
  using quiet_hsc [of c] by simp

lemma quiet_closed [simp]: "sctContext c = x \<Longrightarrow> quiet x (handle_dtls_closed c)"
  unfolding handle_dtls_closed_def
  by (rule quiet_andThen) (auto intro!: quiet_andThen split: nc_attacher_attach_state.split)

lemma quiet_denied [simp]: "sctContext c = x \<Longrightarrow> quiet x (handle_dtls_access_denied c)"
  unfolding handle_dtls_access_denied_def by (rule quiet_andThen) simp_all

lemma start_request_sct: "quiet (sctContext c) (send_attach_start_request env ver c)"
proof (cases "nc_attacher_attach_start_request env ver c")
  case (Inr p)
  then show ?thesis
    by (cases p) (auto simp: send_attach_start_request_def nc_attacher_attach_start_request_def obind_eq_Inr_iff
        coap_attach_failed_def andThen_def emit_def split: if_splits)
qed (simp add: send_attach_start_request_def)

lemma dtls_event_sct: "quiet (sctContext c) (dtls_event_handler env ver ev c)"
  using start_request_sct [of c env ver]
  by (cases ev)
    (auto simp: dtls_event_handler_def handle_dtls_connected_def keep_alive_reset_def nc_keep_alive_reset_def
      intro!: quiet_andThen)

lemma do_close_sct [simp]: "sctContext c = x \<Longrightarrow> quiet x (do_close c)"
  unfolding do_close_def Let_def
  by (auto intro!: quiet_andThen split: nc_attacher_attach_state.split)

lemma quiet_drop_code: "quiet x (drop_code (obind r (\<lambda>(c, calls). Inr (ec, c, calls)))) = quiet x r"
  by (cases r) (auto simp: drop_code_def)

lemma drop_code_simps: "drop_code (Inl e) = Inl e" "drop_code (Inr (ec, c, calls)) = Inr (c, calls)"
  by (simp_all add: drop_code_def)

lemma control_sct:
  "quiet (sctContext c) (nc_attacher_async_close cb c)" "quiet (sctContext c) (nc_attacher_stop c)"
  "quiet (sctContext c) (reattach c)" "quiet (sctContext c) (resolve_close c)"
  "quiet (sctContext c) (dns_resolved_callback ec c)" "quiet (sctContext c) (drop_code (nc_attacher_start h p c))"
proof -
  show "quiet (sctContext c) (nc_attacher_async_close cb c)" by (simp add: nc_attacher_async_close_def)
  show "quiet (sctContext c) (nc_attacher_stop c)"
    unfolding nc_attacher_stop_def nc_keep_alive_stop_def by (auto intro!: quiet_andThen)
  show "quiet (sctContext c) (reattach c)" by (simp add: reattach_def quiet_obind)
  show "quiet (sctContext c) (resolve_close c)"
    unfolding resolve_close_def by (rule quiet_andThen) simp_all
  show "quiet (sctContext c) (dns_resolved_callback ec c)" by (simp add: dns_resolved_callback_def quiet_obind)
  have "quiet (sctContext c) (andThen (emit [UdpSetAttachContext]) handle_state_change c')"
    if "sctContext c' = sctContext c" for c'
    using that by (auto intro!: quiet_andThen)
  then show "quiet (sctContext c) (drop_code (nc_attacher_start h p c))"
    by (cases "memcpy (dns c) (h @ [NUL])")
      (simp_all add: nc_attacher_start_def Let_def quiet_drop_code drop_code_simps)
qed

lemma packet_sct:
  "quiet (sctContext c) (dtls_data_handler b c)" "quiet (sctContext c) (dtls_packet_sender b cb c)"
  "quiet (sctContext c) (sender_completed ec c)" "quiet (sctContext c) (keep_alive_event r n c)"
  "quiet (sctContext c) (nc_attacher_handle_dtls_packet ep b c)"
  by (auto simp: dtls_data_handler_def handle_keep_alive_data_def keep_alive_send_response_def dtls_packet_sender_def
      start_send_initial_packet_def send_initial_packet_def sender_completed_def initial_packet_sent_def
      keep_alive_event_def keep_alive_wait_def keep_alive_send_req_def nc_keep_alive_wait_def
      nc_attacher_handle_dtls_packet_def quiet_obind Let_def intro!: quiet_andThen
      split: list.split option.split prod.split sender_completion.split nc_keep_alive_action.split)

lemma sct_inv_frame:
  assumes "sct_inv s" "sct_frame (sctContext (att s)) (Inr (c, outs))"
  shows "sct_inv (fold effect outs (s\<lparr>att := c\<rparr>))"
proof -
  have last: "h ! n = last h" if "length h = n + 1" for h :: "string list list" and n
    using that by (metis add_diff_cancel_right' last_conv_nth length_0_conv add_is_0 one_neq_zero)
  show ?thesis
    using assms by (auto simp: sct_inv_def uploading_fold Let_def last)
qed

lemma sct_inv_add:
  assumes "sct_inv s"
  shows "sct_inv (s\<lparr>adds := adds s + 1, att := (att s)\<lparr>sctContext := (sctContext (att s))
     \<lparr>sct_version := sct_version (sctContext (att s)) + 1, scts := y\<rparr>\<rparr>\<rparr>)"
proof -
  let ?x = "sctContext (att s)"
  { assume lt: "adds s + 1 < 2 ^ 64"
    then obtain h where h: "length h = adds s + 1" "last h = scts ?x" "unat (sct_version ?x) = adds s"
        "unat (synchronizedVersion ?x) \<le> adds s" "acked s = encode_scts (h ! unat (synchronizedVersion ?x))"
        "sctCallback ?x \<noteq> None \<longrightarrow>
             unat (uploadingVersion ?x) \<le> adds s \<and> uploading s = encode_scts (h ! unat (uploadingVersion ?x))"
      using assms by (auto simp: sct_inv_def Let_def)
    have "unat (sct_version ?x + 1) = adds s + 1" using h(3) lt by (simp add: unat_word_ariths)
    then have "\<exists>h'. length h' = adds s + 1 + 1 \<and> last h' = y \<and> unat (sct_version ?x + 1) = adds s + 1
      \<and> unat (synchronizedVersion ?x) \<le> adds s + 1 \<and> acked s = encode_scts (h' ! unat (synchronizedVersion ?x))
      \<and> (sctCallback ?x \<noteq> None \<longrightarrow>
             unat (uploadingVersion ?x) \<le> adds s + 1 \<and> uploading s = encode_scts (h' ! unat (uploadingVersion ?x)))"
      using h by (intro exI [of _ "h @ [y]"]) (auto simp: nth_append) }
  then show ?thesis by (simp add: sct_inv_def Let_def)
qed

lemma sct_inv_response:
  assumes "sct_inv s" "sctCallback (sctContext (att s)) = Some cb"
  shows "sct_inv (s\<lparr>live := l, acked := (if ok then uploading s else acked s), att := (att s)\<lparr>sctContext := (sctContext (att s))
     \<lparr>synchronizedVersion := (if ok then uploadingVersion (sctContext (att s)) else synchronizedVersion (sctContext (att s))),
      sctCallback := None\<rparr>\<rparr>\<rparr>)"
  using assms by (auto simp: sct_inv_def Let_def)

lemma sct_response_frame:
  assumes "sctCallback (sctContext c) = Some cb"
  shows "sct_frame ((sctContext c)\<lparr>synchronizedVersion := (if nc_coap_is_status_ok (res_code r)
         then uploadingVersion (sctContext c) else synchronizedVersion (sctContext c)), sctCallback := None\<rparr>)
     (sct_request_handler env (Some r) c)"
proof -
  let ?x = "(sctContext c)\<lparr>synchronizedVersion := (if nc_coap_is_status_ok (res_code r)
         then uploadingVersion (sctContext c) else synchronizedVersion (sctContext c)), sctCallback := None\<rparr>"
  let ?c = "c\<lparr>sctContext := ?x\<rparr>"
  have "sct_frame ?x (send_sct_request env ?c)" "sct_frame ?x (send_attach_end_request env ?c)"
    using send_sct_frame [of ?c env] end_request_frame [of ?c env, THEN quiet_frame] by simp_all
  then show ?thesis
    using assms
    by (cases cb; cases "nc_coap_is_status_ok (res_code r)")
      (simp_all add: sct_request_handler_def send_attach_sct_request_callback_def send_sct_request_callback_def
        coap_attach_failed_def emit_def Let_def)
qed

lemma sct_frame_handle:
  assumes "\<And>t. l \<noteq> AddToken t" "\<And>res. l \<noteq> Response SctUpload res"
  shows "sct_frame (sctContext c) (attacher_handle T ver nn env l c)"
proof (cases l)
  case (DnsAnswer a)
  then show ?thesis by (auto simp: sct_frame_obind)
next
  case (Response k res)
  then show ?thesis using assms(2) start_response_sct end_response_sct by (cases k) auto
qed (use assms(1) control_sct packet_sct dtls_event_sct in \<open>simp_all add: quiet_frame\<close>)

lemma sct_inv_consume:
  assumes "\<And>t. l \<noteq> AddToken t" "\<And>res. l \<noteq> Response SctUpload res"
  shows "sct_inv (consume l s) = sct_inv s" "att (consume l s) = att s"
  using assms
  by (cases "(l, s)" rule: consume.cases; auto simp: sct_inv_def split: attach_request.splits)+

lemma sct_inv_step:
  assumes "sct_inv s" "enabled l s" "attacher_handle T ver nn env l (att s) = Inr (c, outs)"
  shows "sct_inv (fold effect outs ((consume l s)\<lparr>att := c\<rparr>))"
proof (cases "(\<exists>t. l = AddToken t) \<or> (\<exists>res. l = Response SctUpload res)")
  case False
  then show ?thesis
    using assms sct_inv_consume [of l s] sct_frame_handle [of l "att s" T ver nn env]
    by (intro sct_inv_frame) auto
next
  case True
  then show ?thesis
  proof (elim disjE exE)
    fix t assume l: "l = AddToken t"
    obtain b y where ins: "ss_insert nn (scts (sctContext (att s))) t = (b, y)" by fastforce
    let ?c = "(att s)\<lparr>sctContext := (sctContext (att s))\<lparr>sct_version := sct_version (sctContext (att s)) + 1, scts := y\<rparr>\<rparr>"
    have "sct_frame (sctContext ?c) (Inr (c, outs))"
      using assms(3) l ins send_sct_frame [of ?c env]
      by (cases "send_sct_request env ?c")
        (auto simp: nc_attacher_add_server_connect_token_def drop_code_def Let_def split: bool.splits if_splits)
    then show ?thesis
      using sct_inv_frame [OF sct_inv_add [OF assms(1), of y], of c outs] l by simp
  next
    fix res assume l: "l = Response SctUpload res"
    obtain cb where cb: "sctCallback (sctContext (att s)) = Some cb"
      using assms(2) l by (auto simp: request_pending_def)
    obtain r where r: "res = Some r"
      using assms(3) l by (cases res) (auto simp: sct_request_handler_def)
    let ?ok = "nc_coap_is_status_ok (res_code r)"
    show ?thesis
      using sct_inv_frame [OF sct_inv_response [OF assms(1) cb, where l = "(live s)(SctUpload := False)" and ok = ?ok], of c outs]
        sct_response_frame [OF cb, of r env] assms(3) l r by simp
  qed
qed

lemma sct_inv_reachable: "attacher_reachable T ver nn s \<Longrightarrow> sct_inv s"
proof (induction rule: attacher_reachable.induct)
  case (init ienv lst ctx sl an av pid did)
  then show ?case
    using nc_attacher_init_fields [OF init]
    by (auto simp: sct_inv_def attacher_sys_init_def nc_attacher_set_state_listener_def
        nc_attacher_set_app_info_def nc_attacher_set_device_info_def sct_zero_def intro!: exI [of _ "[[]]"])
next
  case (step s l env s' outs)
  then show ?case
    using sct_inv_step [OF step.IH step.hyps(2), of T ver nn env]
    by (auto simp: attacher_sys_step_def obind_eq_Inr_iff)
qed

text \<open>
  C29. When an attached device reports its server connect tokens as synchronised, the last set of
  tokens that the basestation acknowledged is exactly the present one, however the additions of
  tokens, uploads, failures and reconnections were interleaved (as long as the 64 bit version counter
  has not wrapped).
\<close>

theorem nc_attacher_sct_synchronized:
  assumes "attacher_reachable T ver nn s" "adds s < 2 ^ 64"
    and "attachState (att s) = NC_ATTACHER_STATE_ATTACHED"
    and "nc_attacher_is_server_connect_tokens_synchronized (att s) = NABTO_EC_OK"
  shows "acked s = encode_scts (scts (sctContext (att s)))"
proof -
  have eq: "synchronizedVersion (sctContext (att s)) = sct_version (sctContext (att s))"
    using assms(3,4) by (simp add: nc_attacher_is_server_connect_tokens_synchronized_def split: if_splits)
  obtain h where h: "length h = adds s + 1" "last h = scts (sctContext (att s))"
      "unat (sct_version (sctContext (att s))) = adds s"
      "acked s = encode_scts (h ! unat (synchronizedVersion (sctContext (att s))))"
    using sct_inv_reachable [OF assms(1)] assms(2) by (auto simp: sct_inv_def Let_def)
  then have "h ! adds s = last h" by (cases h rule: rev_cases) (auto simp: nth_append)
  then show ?thesis using h eq by simp
qed

lemma attacher_run_reachable:
  "attacher_reachable T ver nn s \<Longrightarrow> attacher_run T ver nn env ls s = Some s' \<Longrightarrow> attacher_reachable T ver nn s'"
  by (induction ls arbitrary: s) (auto split: if_splits sum.splits intro: attacher_reachable.step)

lemma demo_init_ok: "nc_attacher_init demo_ienv True = (NABTO_EC_OK, snd (nc_attacher_init demo_ienv True))"
  by (simp add: nc_attacher_init_def demo_ienv_def Let_def nc_keep_alive_init_def)

lemma demo_reachable:  "attacher_reachable demo_cbor ''5'' nn_by_lists (demo_system ls)"
proof -
  have "attacher_reachable demo_cbor ''5'' nn_by_lists demo_init"
    unfolding demo_init_def by (rule attacher_reachable.init [OF demo_init_ok])
  then show ?thesis
    by (auto simp: demo_system_def intro: attacher_run_reachable split: option.split)
qed

lemma demo_attached:
  "attachState (att (demo_system demo_attach)) = NC_ATTACHER_STATE_ATTACHED"
  "adds (demo_system demo_attach) = 1"
  "scts (sctContext (att (demo_system demo_attach))) = [''t'']"
  "nc_attacher_is_server_connect_tokens_synchronized (att (demo_system demo_attach)) = NABTO_EC_OK"
  "moduleState (att (demo_system demo_attach)) = NC_ATTACHER_MODULE_RUNNING"
  by code_simp+



theorem nc_attacher_sct_synchronized_witness:
  "acked (demo_system demo_attach) = encode_scts [''t'']"
proof -
  have "adds (demo_system demo_attach) < 2 ^ 64" using demo_attached(2) by simp
  from nc_attacher_sct_synchronized [OF demo_reachable this demo_attached(1,4)]
  show ?thesis using demo_attached(3) by simp
qed


section \<open>Redirects and the first packet\<close>

text \<open>
  The host a redirected device resolves: after a redirect response with the host \<open>txt\<close> and the
  port \<open>p\<close>, the next connection is made to port \<open>p\<close> of the name that consists of \<open>txt\<close> followed by what
  the buffer held after these characters, since the copy does not write a null byte. It is the host
  of the response if the name resolved before was not longer.
\<close>

lemma handle_redirect_host:
  assumes "cbor_is_text T (cbor_map_find T root ''Host'')" "cbor_is_uint T (cbor_map_find T root ''Port'')"
    and "cbor_is_bytes T (cbor_map_find T root ''Fingerprint'')"
    and "cbor_copy_law T (cbor_map_find T root ''Host'') txt"
    and "cbor_get_string_length T (cbor_map_find T root ''Host'') = Some (length txt)"
    and "1 \<le> length txt" "length txt \<le> 256" "NUL \<notin> set txt" "length (dns ctx) = 256"
  shows "\<exists>c. handle_redirect T root ctx = Inr (NC_ATTACHER_STATUS_REDIRECT, c)
    \<and> currentPort c = ucast (cbor_get_uint64 T (cbor_map_find T root ''Port''))
    \<and> c_str (dns c) = obind (c_str (drop (length txt) (dns ctx))) (\<lambda>rest. Inr (txt @ rest))"
proof -
  have "cbor_copy_text T (cbor_map_find T root ''Host'') (length txt) (dns ctx) = txt @ drop (length txt) (dns ctx)"
    using assms(4,7,9) by (simp add: cbor_copy_law_def)
  moreover have "c_str (txt @ m) = obind (c_str m) (\<lambda>rest. Inr (txt @ rest))" for m
    using assms(8) by (auto simp: c_str_def takeWhile_append)
  moreover have "\<not> (length txt < 1 \<or> length txt > 256)" using assms(6,7) by linarith
  ultimately show ?thesis
    using assms(1,2,3,5) by (simp add: handle_redirect_def Let_def)
qed

lemma add_endpoints_eq:
  assumes "endpointsIndex p = 0" "endpointsSize p + n \<le> length (endpoints p)" "m + n \<le> length (ips (dnsMultiResolver ctx))"
  shows "add_endpoints ctx [m..<m + n] p = Inr (p\<lparr>endpointsSize := endpointsSize p + n,
    endpoints := take (endpointsSize p) (endpoints p)
      @ map (\<lambda>ip. \<lparr>ep_ip = ip, ep_port = currentPort ctx\<rparr>) (take n (drop m (ips (dnsMultiResolver ctx))))
      @ drop (endpointsSize p + n) (endpoints p)\<rparr>)"
  using assms
proof (induction n arbitrary: m p)
  case 0
  then show ?case by simp
next
  case (Suc n)
  let ?ip = "ips (dnsMultiResolver ctx) ! m"
  let ?p = "p\<lparr>endpoints := (endpoints p)[endpointsSize p := \<lparr>ep_ip = ?ip, ep_port = currentPort ctx\<rparr>],
                 endpointsSize := endpointsSize p + 1\<rparr>"
  have upt: "[m..<m + Suc n] = m # [Suc m..<Suc m + n]" by (simp add: upt_conv_Cons del: upt_Suc)
  have "add_endpoints ctx [m..<m + Suc n] p = add_endpoints ctx [Suc m..<Suc m + n] ?p"
    using Suc.prems unfolding upt by (simp add: NC_ATTACHER_MAX_ENDPOINTS_def del: upt_Suc)
  also have "\<dots> = Inr (?p\<lparr>endpointsSize := endpointsSize ?p + n,
    endpoints := take (endpointsSize ?p) (endpoints ?p)
      @ map (\<lambda>ip. \<lparr>ep_ip = ip, ep_port = currentPort ctx\<rparr>) (take n (drop (Suc m) (ips (dnsMultiResolver ctx))))
      @ drop (endpointsSize ?p + n) (endpoints ?p)\<rparr>)"
    using Suc.prems by (intro Suc.IH) auto
  moreover have "take (endpointsSize p + 1) ((endpoints p)[endpointsSize p := x]) = take (endpointsSize p) (endpoints p) @ [x]" for x
    using Suc.prems(2) by (simp add: take_Suc_conv_app_nth)
  moreover have "drop (endpointsSize p + 1 + n) ((endpoints p)[endpointsSize p := x]) = drop (endpointsSize p + Suc n) (endpoints p)" for x
    by simp
  moreover have "take (Suc n) (drop m (ips (dnsMultiResolver ctx))) = ?ip # take n (drop (Suc m) (ips (dnsMultiResolver ctx)))"
    using Suc.prems(3) by (simp add: Cons_nth_drop_Suc [symmetric])
  ultimately show ?case by simp
qed

lemma sends_complete_initial:
  assumes "senderCompletionEvent c = Some InitialPacketSent" "packetCb (initialPacket c) = Some cb"
    and "packetBuffer (initialPacket c) = buf"
    and "endpointsIndex (initialPacket c) + k = endpointsSize (initialPacket c)" "length ecs = Suc k"
    and "endpointsSize (initialPacket c) \<le> length (endpoints (initialPacket c))"
  shows "\<exists>c'. sends_complete ecs c = Inr (c', map (\<lambda>ep. UdpSend ep buf)
      (take k (drop (endpointsIndex (initialPacket c)) (endpoints (initialPacket c)))) @ [SendCallback cb NABTO_EC_OK])"
  using assms
proof (induction k arbitrary: c ecs)
  case 0
  then obtain ec where "ecs = [ec]" by (cases ecs) auto
  then show ?case
    using "0.prems" by (simp add: sender_completed_def initial_packet_sent_def send_initial_packet_def andThen_def emit_def)
next
  case (Suc k)
  obtain ec ecs' where ecs: "ecs = ec # ecs'" using Suc.prems(5) by (cases ecs) auto
  let ?p = "initialPacket c"
  let ?c = "c\<lparr>senderCompletionEvent := Some InitialPacketSent, initialPacket := ?p\<lparr>endpointsIndex := endpointsIndex ?p + 1\<rparr>\<rparr>"
  have i: "endpointsIndex ?p < length (endpoints ?p)" using Suc.prems(4,6) by linarith
  have "sender_completed ec c = Inr (?c, [UdpSend (endpoints ?p ! endpointsIndex ?p) buf])"
    using Suc.prems i by (simp add: sender_completed_def initial_packet_sent_def send_initial_packet_def emit_def Let_def)
  moreover obtain c' where "sends_complete ecs' ?c = Inr (c', map (\<lambda>ep. UdpSend ep buf)
      (take k (drop (Suc (endpointsIndex ?p)) (endpoints ?p))) @ [SendCallback cb NABTO_EC_OK])"
    using Suc.IH [of ?c ecs'] Suc.prems ecs by auto
  ultimately show ?case
    using ecs i by (auto simp: andThen_def Cons_nth_drop_Suc [symmetric])
qed

text \<open>
  The first packet of a DTLS handshake goes to every address of the basestation: after the
  resolver has delivered \<open>n\<close> addresses, a packet of the DTLS client is sent to each of them, in their
  order and at the current port, whatever the sends report, and then the DTLS client is told that
  the packet is sent.
\<close>

lemma initial_packet_to_all_addresses:
  assumes "moduleState ctx = NC_ATTACHER_MODULE_RUNNING" "ipsResolved (dnsMultiResolver ctx) = n"
    and "0 < n" "n \<le> NC_ATTACHER_MAX_ENDPOINTS" "n \<le> length (ips (dnsMultiResolver ctx))"
    and "length (endpoints (initialPacket ctx)) = NC_ATTACHER_MAX_ENDPOINTS" "length ecs = n"
  shows "\<exists>c outs c'. dns_resolved_callback NABTO_EC_OK ctx = Inr (c, outs)
    \<and> andThen (dtls_packet_sender buf cb) (sends_complete ecs) c
      = Inr (c', map (\<lambda>ip. UdpSend \<lparr>ep_ip = ip, ep_port = currentPort ctx\<rparr> buf) (take n (ips (dnsMultiResolver ctx)))
               @ [SendCallback cb NABTO_EC_OK])"
proof -
  let ?eps = "map (\<lambda>ip. \<lparr>ep_ip = ip, ep_port = currentPort ctx\<rparr>) (take n (ips (dnsMultiResolver ctx)))
    @ drop n (endpoints (initialPacket ctx))"
  let ?p = "(initialPacket ctx)\<lparr>endpointsSize := n, endpointsIndex := 0, endpoints := ?eps\<rparr>"
  let ?c = "ctx\<lparr>initialPacket := ?p, activeEp := None, attachState := NC_ATTACHER_STATE_DTLS_ATTACH_REQUEST\<rparr>"
  let ?p1 = "?p\<lparr>packetCb := Some cb, packetBuffer := buf, endpointsIndex := 1\<rparr>"
  let ?c1 = "?c\<lparr>initialPacket := ?p1, senderCompletionEvent := Some InitialPacketSent\<rparr>"
  have eps: "add_endpoints ctx [0..<n] ((initialPacket ctx)\<lparr>endpointsSize := 0, endpointsIndex := 0\<rparr>) = Inr ?p"
    using add_endpoints_eq [of "(initialPacket ctx)\<lparr>endpointsSize := 0, endpointsIndex := 0\<rparr>" n 0 ctx] assms by simp
  obtain outs where cb: "dns_resolved_callback NABTO_EC_OK ctx = Inr (?c, outs)"
    using assms(1,2) eps
    by (simp add: dns_resolved_callback_def handle_state_change_def state_entry_def andThen_def emit_def)
  have len: "length ?eps = NC_ATTACHER_MAX_ENDPOINTS" using assms(4,5,6) by simp
  have first: "dtls_packet_sender buf cb ?c = Inr (?c1, [UdpSend (?eps ! 0) buf])"
    using assms(3,4) len
    by (simp add: dtls_packet_sender_def start_send_initial_packet_def send_initial_packet_def emit_def Let_def)
  obtain c' where "sends_complete ecs ?c1 = Inr (c', map (\<lambda>ep. UdpSend ep buf) (take (n - 1) (drop 1 ?eps))
      @ [SendCallback cb NABTO_EC_OK])"
    using sends_complete_initial [of ?c1 cb buf "n - 1" ecs] assms(3,4,7) len by auto
  moreover have "UdpSend (?eps ! 0) buf # map (\<lambda>ep. UdpSend ep buf) (take (n - 1) (drop 1 ?eps))
      = map (\<lambda>ep. UdpSend ep buf) (take n ?eps)"
    using assms(3,5) by (cases ?eps; cases n) auto
  moreover have "take n ?eps = map (\<lambda>ip. \<lparr>ep_ip = ip, ep_port = currentPort ctx\<rparr>) (take n (ips (dnsMultiResolver ctx)))"
    using assms(5) by simp
  ultimately show ?thesis
    using cb first by (intro exI [of _ ?c] exI [of _ outs] exI [of _ c']) (auto simp: andThen_def comp_def)
qed

end
