(* ===== verification/NmIamCoap.thy ===== *)
theory NmIamCoap
  imports NmIam NcCoap
begin

text \<open>
  The CoAP endpoints of the identity and access management (\<^verbatim>\<open>src/modules/iam/nm_iam_coap_handler.c\<close> and
  the file of each endpoint) and the handler of authorization requests
  (\<^verbatim>\<open>nm_iam_auth_handler.c\<close>). A handler takes what the device API returns for the request and the state
  of the module, and returns the new state with the calls that make up the response.
\<close>

section \<open>Requests and responses\<close>

text \<open>
  What the API returns for a request: the fingerprint of the client and a new server connect token
  (\<open>None\<close> for an error), whether the connection is local, the parameters of the path, the content
  format and the payload, and whether setting the payload of the response succeeds.
\<close>

record iam_request =
  rq_fingerprint :: "string option"
  rq_local :: bool
  rq_parameter :: "string \<Rightarrow> string option"
  rq_content_format :: "u16 option"
  rq_payload :: "u8 list option"
  rq_new_token :: "string option"
  rq_set_payload_ok :: bool

datatype coap_call =
    ErrorResponse nat "string option"
  | SetCode nat
  | SetContentFormat u16
  | SetPayload cbor
  | ResponseReady
  | IamCall iam_output

type_synonym iam_act = "(nm_iam, coap_call) act"

definition APPLICATION_CBOR :: u16 where "APPLICATION_CBOR = 60"

definition access_denied :: "coap_call list" where
  "access_denied = [ErrorResponse 403 (Some ''Access Denied'')]"

text \<open>\<open>None\<close> when the payload cannot be parsed, in which case an error response has been sent.\<close>

definition nm_iam_cbor_init_parser :: "'v tinycbor \<Rightarrow> iam_request \<Rightarrow> 'v option \<times> coap_call list" where
  "nm_iam_cbor_init_parser T rq =
     (if rq_content_format rq \<noteq> Some APPLICATION_CBOR then
        (None, [ErrorResponse 400 (Some ''Invalid Content Format'')])
      else case rq_payload rq of
        None \<Rightarrow> (None, [ErrorResponse 400 (Some ''Missing payload'')])
      | Some payload \<Rightarrow> (Some (cbor_parser_init T payload), []))"

text \<open>
  The returned boolean, the string that the pointer \<open>str\<close> refers to afterwards (\<open>None\<close> for a null
  pointer), and the remaining oracle of the allocator. The length is not initialised when it cannot
  be computed.
\<close>

definition nm_iam_cbor_decode_string ::
    "'v tinycbor \<Rightarrow> 'v \<Rightarrow> string option \<Rightarrow> heap \<Rightarrow> ((bool \<times> string option) \<times> heap) outcome" where
  "nm_iam_cbor_decode_string T v str h =
     (if \<not> cbor_is_text T v then Inr ((False, str), h)
      else case cbor_calculate_string_length T v of
        None \<Rightarrow> Inl Uninitialized
      | Some nameLength \<Rightarrow>
          if nameLength < 1024 then
            (case alloc h of (ok, h') \<Rightarrow>
             if \<not> ok then Inr ((False, None), h')
             else obind (c_str (cbor_copy_text T v nameLength (replicate (nameLength + 1) NUL))) (\<lambda>s.
               Inr ((cbor_copy_ok T v nameLength, Some s), h')))
          else Inr ((False, str), h))"

definition nm_iam_cbor_decode_kv_string ::
    "'v tinycbor \<Rightarrow> 'v \<Rightarrow> string \<Rightarrow> string option \<Rightarrow> heap \<Rightarrow> ((bool \<times> string option) \<times> heap) outcome" where
  "nm_iam_cbor_decode_kv_string T m key str h =
     (if \<not> cbor_is_map T m then Inr ((False, str), h)
      else nm_iam_cbor_decode_string T (cbor_map_find T m key) str h)"

text \<open>The end of the handlers that answer with a payload; without memory for it nothing is sent.\<close>

definition respond_payload :: "iam_request \<Rightarrow> heap \<Rightarrow> cbor \<Rightarrow> iam_act" where
  "respond_payload rq h payload =
     (case alloc h of (ok, _) \<Rightarrow>
      if \<not> ok then emit []
      else emit ([SetCode 205, SetContentFormat APPLICATION_CBOR, SetPayload payload]
                 @ (if rq_set_payload_ok rq then [ResponseReady]
                    else [ErrorResponse 500 (Some ''Insufficient resources'')])))"

section \<open>The endpoints\<close>

definition is_paired_handle_request :: "'z nn_lib_scheme \<Rightarrow> iam_request \<Rightarrow> iam_act" where
  "is_paired_handle_request nn rq iam =
     obind (nm_iam_check_access nn iam (rq_fingerprint rq) ''Pairing:Get'' None) (\<lambda>ok.
       if \<not> ok then emit access_denied iam
       else obind (nm_iam_find_user_by_coap_request iam (rq_fingerprint rq)) (\<lambda>user.
         emit [SetCode (if user \<noteq> None then 205 else 403), ResponseReady] iam))"

definition pairing_get_encode_response :: "nm_iam \<Rightarrow> bool \<Rightarrow> cbor" where
  "pairing_get_encode_response iam isLocal =
     CborMap [(CborText ''Modes'',
       CborArray ((if pairingPassword iam \<noteq> None then [CborText ''Password''] else [])
                  @ (if isLocal then [CborText ''Local''] else [])))]"

definition pairing_get_handle_request :: "'z nn_lib_scheme \<Rightarrow> iam_request \<Rightarrow> heap \<Rightarrow> iam_act" where
  "pairing_get_handle_request nn rq h iam =
     obind (nm_iam_check_access nn iam (rq_fingerprint rq) ''Pairing:Get'' None) (\<lambda>ok.
       if \<not> ok then emit access_denied iam
       else respond_payload rq h (pairing_get_encode_response iam (rq_local rq)) iam)"

definition client_settings_encode_response :: "nm_iam_user \<Rightarrow> cbor" where
  "client_settings_encode_response user =
     CborMap (case user_serverConnectToken user of None \<Rightarrow> []
              | Some t \<Rightarrow> [(CborText ''ServerConnectToken'', CborText t)])"

definition client_settings_handle_request :: "'z nn_lib_scheme \<Rightarrow> iam_request \<Rightarrow> heap \<Rightarrow> iam_act" where
  "client_settings_handle_request nn rq h iam =
     obind (nm_iam_check_access nn iam (rq_fingerprint rq) ''Pairing:Get'' None) (\<lambda>ok.
       if \<not> ok then emit access_denied iam
       else obind (nm_iam_find_user_by_coap_request iam (rq_fingerprint rq)) (\<lambda>user.
         case user of
           None \<Rightarrow> emit [ErrorResponse 403 (Some ''Not paired'')] iam
         | Some u \<Rightarrow> respond_payload rq h (client_settings_encode_response u) iam))"

definition encode_user :: "nm_iam_user \<Rightarrow> cbor" where
  "encode_user user =
     CborMap ([(CborText ''Id'', CborText (user_id user))]
       @ (if user_roles user \<noteq> [] then [(CborText ''Roles'', CborArray (map CborText (user_roles user)))] else [])
       @ (case user_fingerprint user of None \<Rightarrow> [] | Some f \<Rightarrow> [(CborText ''Fingerprint'', CborText f)])
       @ (if user_attributes user \<noteq> []
          then [(CborText ''Attributes'', CborMap (map (\<lambda>(k, v). (CborText k, CborText v)) (user_attributes user)))]
          else []))"

definition user_attribute :: "'z nn_lib_scheme \<Rightarrow> string \<Rightarrow> attributes" where
  "user_attribute nn userId = snd (sm_insert nn [] ''IAM:UserId'' userId)"

definition user_role_attributes :: "'z nn_lib_scheme \<Rightarrow> string \<Rightarrow> string \<Rightarrow> attributes" where
  "user_role_attributes nn userId roleId = snd (sm_insert nn (user_attribute nn userId) ''IAM:RoleId'' roleId)"

definition get_user_handle_request :: "'z nn_lib_scheme \<Rightarrow> iam_request \<Rightarrow> heap \<Rightarrow> iam_act" where
  "get_user_handle_request nn rq h iam =
     (case rq_parameter rq ''user'' of
        None \<Rightarrow> emit [ErrorResponse 500 None] iam
      | Some userId \<Rightarrow>
          obind (nm_iam_check_access nn iam (rq_fingerprint rq) ''IAM:GetUser'' (Some (user_attribute nn userId))) (\<lambda>ok.
            if \<not> ok then emit access_denied iam
            else case nm_iam_find_user iam userId of
              None \<Rightarrow> emit [ErrorResponse 404 None] iam
            | Some user \<Rightarrow> respond_payload rq h (encode_user user) iam))"

definition encode_users :: "nm_iam \<Rightarrow> cbor" where
  "encode_users iam = CborArray (map (\<lambda>user. CborText (user_id user)) (users iam))"

definition list_users_handle_request :: "'z nn_lib_scheme \<Rightarrow> iam_request \<Rightarrow> heap \<Rightarrow> iam_act" where
  "list_users_handle_request nn rq h iam =
     obind (nm_iam_check_access nn iam (rq_fingerprint rq) ''IAM:ListUsers'' None) (\<lambda>ok.
       if \<not> ok then emit access_denied iam else respond_payload rq h (encode_users iam) iam)"

definition encode_roles :: "nm_iam \<Rightarrow> cbor" where
  "encode_roles iam = CborArray (map (\<lambda>role. CborText (role_id role)) (roles iam))"

definition list_roles_handle_request :: "'z nn_lib_scheme \<Rightarrow> iam_request \<Rightarrow> heap \<Rightarrow> iam_act" where
  "list_roles_handle_request nn rq h iam =
     obind (nm_iam_check_access nn iam (rq_fingerprint rq) ''IAM:ListRoles'' None) (\<lambda>ok.
       if \<not> ok then emit access_denied iam else respond_payload rq h (encode_roles iam) iam)"

definition delete_user_handle_request :: "'z nn_lib_scheme \<Rightarrow> iam_request \<Rightarrow> iam_act" where
  "delete_user_handle_request nn rq iam =
     (case rq_parameter rq ''user'' of
        None \<Rightarrow> emit [ErrorResponse 500 None] iam
      | Some userId \<Rightarrow>
          obind (nm_iam_check_access nn iam (rq_fingerprint rq) ''IAM:DeleteUser'' (Some (user_attribute nn userId))) (\<lambda>ok.
            if \<not> ok then emit access_denied iam
            else case nm_iam_delete_user iam userId of (iam', calls) \<Rightarrow>
              emit (map IamCall calls @ [SetCode 202, ResponseReady]) iam'))"

definition add_role_to_user_handle_request :: "'z nn_lib_scheme \<Rightarrow> iam_request \<Rightarrow> iam_act" where
  "add_role_to_user_handle_request nn rq iam =
     (case (rq_parameter rq ''user'', rq_parameter rq ''role'') of
        (Some userId, Some roleId) \<Rightarrow>
          obind (nm_iam_check_access nn iam (rq_fingerprint rq) ''IAM:AddRoleToUser''
                   (Some (user_role_attributes nn userId roleId))) (\<lambda>ok.
            if \<not> ok then emit access_denied iam
            else case nm_iam_add_role_to_user nn iam userId roleId of (added, iam', calls) \<Rightarrow>
              emit (map IamCall calls @ [SetCode (if \<not> added then 404 else 201), ResponseReady]) iam')
      | _ \<Rightarrow> emit [ErrorResponse 500 None] iam)"

definition remove_role_from_user_handle_request :: "'z nn_lib_scheme \<Rightarrow> iam_request \<Rightarrow> iam_act" where
  "remove_role_from_user_handle_request nn rq iam =
     (case (rq_parameter rq ''user'', rq_parameter rq ''role'') of
        (Some userId, Some roleId) \<Rightarrow>
          obind (nm_iam_check_access nn iam (rq_fingerprint rq) ''IAM:RemoveRoleFromUser''
                   (Some (user_role_attributes nn userId roleId))) (\<lambda>ok.
            if \<not> ok then emit access_denied iam
            else case nm_iam_remove_role_from_user nn iam userId roleId of (iam', calls) \<Rightarrow>
              emit (map IamCall calls @ [SetCode 202, ResponseReady]) iam')
      | _ \<Rightarrow> emit [ErrorResponse 500 None] iam)"

text \<open>The decoded name is passed to the pairing, which does not use it.\<close>

definition pairing_finish :: "'z nn_lib_scheme \<Rightarrow> iam_request \<Rightarrow> heap \<Rightarrow> iam_act" where
  "pairing_finish nn rq h iam =
     obind (nm_iam_pair_new_client nn iam (rq_fingerprint rq) (rq_new_token rq) h) (\<lambda>((user, iam', calls), h').
       emit (map IamCall calls
             @ (if user = None then [ErrorResponse 500 (Some ''Server error'')] else [SetCode 201, ResponseReady])) iam')"

definition pairing_local_handle_request ::
    "'v tinycbor \<Rightarrow> 'z nn_lib_scheme \<Rightarrow> iam_request \<Rightarrow> heap \<Rightarrow> iam_act" where
  "pairing_local_handle_request T nn rq h iam =
     obind (nm_iam_check_access nn iam (rq_fingerprint rq) ''Pairing:Local'' None) (\<lambda>ok.
       if \<not> ok \<or> \<not> rq_local rq then emit access_denied iam
       else if rq_fingerprint rq = None then emit [ErrorResponse 500 (Some ''Server error'')] iam
       else case nm_iam_cbor_init_parser T rq of
         (None, calls) \<Rightarrow> emit (calls @ [ErrorResponse 400 (Some ''Bad request'')]) iam
       | (Some v, calls) \<Rightarrow>
           andThen (emit calls) (\<lambda>iam.
             obind (nm_iam_cbor_decode_kv_string T v ''Name'' None h) (\<lambda>(_, h1). pairing_finish nn rq h1 iam)) iam)"

definition decode_password ::
    "'v tinycbor \<Rightarrow> 'v \<Rightarrow> heap \<Rightarrow> ((bool \<times> string option) \<times> heap) outcome" where
  "decode_password T v h =
     obind (nm_iam_cbor_decode_string T v None h) (\<lambda>((ok, password), h1).
       if ok then Inr ((True, password), h1)
       else nm_iam_cbor_decode_kv_string T v ''Password'' password h1)"

definition pair_with_password ::
    "'v tinycbor \<Rightarrow> 'z nn_lib_scheme \<Rightarrow> iam_request \<Rightarrow> heap \<Rightarrow> 'v \<Rightarrow> iam_act" where
  "pair_with_password T nn rq h v iam =
     obind (decode_password T v h) (\<lambda>((found, password), h1).
       if \<not> found then emit [ErrorResponse 400 (Some ''Missing password'')] iam
       else obind (nm_iam_cbor_decode_kv_string T v ''Name'' None h1) (\<lambda>(_, h2).
         obind (deref password) (\<lambda>p.
         obind (deref (pairingPassword iam)) (\<lambda>expected.
           if p \<noteq> expected then emit [ErrorResponse 401 (Some ''Wrong Password'')] iam
           else pairing_finish nn rq h2 iam))))"

definition pairing_password_handle_request ::
    "'v tinycbor \<Rightarrow> 'z nn_lib_scheme \<Rightarrow> iam_request \<Rightarrow> heap \<Rightarrow> iam_act" where
  "pairing_password_handle_request T nn rq h iam =
     obind (nm_iam_check_access nn iam (rq_fingerprint rq) ''Pairing:Password'' None) (\<lambda>ok.
       if \<not> ok then emit access_denied iam
       else if rq_fingerprint rq = None then emit [ErrorResponse 500 (Some ''Server error'')] iam
       else case nm_iam_cbor_init_parser T rq of
         (None, calls) \<Rightarrow> emit (calls @ [ErrorResponse 400 (Some ''Bad request'')]) iam
       | (Some v, calls) \<Rightarrow> andThen (emit calls) (pair_with_password T nn rq h v) iam)"

section \<open>The dispatch of requests\<close>

datatype iam_endpoint =
    IsPaired | PairingGet | ClientSettings | GetUser | ListUsers | ListRoles
  | DeleteUser | AddRoleToUser | RemoveRoleFromUser | PairingLocal | PairingPassword

text \<open>The handler registered for each endpoint.\<close>

fun requestHandler ::
    "'v tinycbor \<Rightarrow> 'z nn_lib_scheme \<Rightarrow> iam_endpoint \<Rightarrow> iam_request \<Rightarrow> heap \<Rightarrow> iam_act" where
  "requestHandler T nn IsPaired rq h = is_paired_handle_request nn rq"
| "requestHandler T nn PairingGet rq h = pairing_get_handle_request nn rq h"
| "requestHandler T nn ClientSettings rq h = client_settings_handle_request nn rq h"
| "requestHandler T nn GetUser rq h = get_user_handle_request nn rq h"
| "requestHandler T nn ListUsers rq h = list_users_handle_request nn rq h"
| "requestHandler T nn ListRoles rq h = list_roles_handle_request nn rq h"
| "requestHandler T nn DeleteUser rq h = delete_user_handle_request nn rq"
| "requestHandler T nn AddRoleToUser rq h = add_role_to_user_handle_request nn rq"
| "requestHandler T nn RemoveRoleFromUser rq h = remove_role_from_user_handle_request nn rq"
| "requestHandler T nn PairingLocal rq h = pairing_local_handle_request T nn rq h"
| "requestHandler T nn PairingPassword rq h = pairing_password_handle_request T nn rq h"

text \<open>
  The callback of a listener: an error ends the endpoint, a request is handled and freed, and the
  endpoint listens again.
\<close>

datatype listener_call = Handled "coap_call list" | RequestFree | StartListen

definition request_callback ::
    "'v tinycbor \<Rightarrow> 'z nn_lib_scheme \<Rightarrow> iam_endpoint \<Rightarrow> np_error_code \<Rightarrow> iam_request \<Rightarrow> heap
       \<Rightarrow> (nm_iam, listener_call) act" where
  "request_callback T nn e ec rq h iam =
     (if ec \<noteq> NABTO_EC_OK then emit [] iam
      else obind (requestHandler T nn e rq h iam) (\<lambda>(iam', calls).
        emit [Handled calls, RequestFree, StartListen] iam'))"

text \<open>The verdict on an authorization request with the given attributes.\<close>

definition auth_handle_request ::
    "'z nn_lib_scheme \<Rightarrow> string option \<Rightarrow> string \<Rightarrow> (string \<times> string) list \<Rightarrow> nm_iam \<Rightarrow> bool outcome" where
  "auth_handle_request nn fingerprint action attrs iam =
     nm_iam_check_access nn iam fingerprint action
       (Some (foldl (\<lambda>m (key, v). snd (sm_insert nn m key v)) [] attrs))"

section \<open>Specification\<close>

text \<open>The action that grants a request, and the attributes it is granted with.\<close>

fun endpoint_action :: "iam_endpoint \<Rightarrow> string" where
  "endpoint_action IsPaired = ''Pairing:Get''"
| "endpoint_action PairingGet = ''Pairing:Get''"
| "endpoint_action ClientSettings = ''Pairing:Get''"
| "endpoint_action GetUser = ''IAM:GetUser''"
| "endpoint_action ListUsers = ''IAM:ListUsers''"
| "endpoint_action ListRoles = ''IAM:ListRoles''"
| "endpoint_action DeleteUser = ''IAM:DeleteUser''"
| "endpoint_action AddRoleToUser = ''IAM:AddRoleToUser''"
| "endpoint_action RemoveRoleFromUser = ''IAM:RemoveRoleFromUser''"
| "endpoint_action PairingLocal = ''Pairing:Local''"
| "endpoint_action PairingPassword = ''Pairing:Password''"

fun endpoint_parameters :: "iam_endpoint \<Rightarrow> string list" where
  "endpoint_parameters GetUser = [''user'']"
| "endpoint_parameters DeleteUser = [''user'']"
| "endpoint_parameters AddRoleToUser = [''user'', ''role'']"
| "endpoint_parameters RemoveRoleFromUser = [''user'', ''role'']"
| "endpoint_parameters _ = []"

definition parameters_given :: "iam_endpoint \<Rightarrow> iam_request \<Rightarrow> bool" where
  "parameters_given e rq \<longleftrightarrow> list_all (\<lambda>p. rq_parameter rq p \<noteq> None) (endpoint_parameters e)"

definition endpoint_attributes :: "'z nn_lib_scheme \<Rightarrow> iam_endpoint \<Rightarrow> iam_request \<Rightarrow> attributes option" where
  "endpoint_attributes nn e rq =
     (case endpoint_parameters e of
        [] \<Rightarrow> None
      | [_] \<Rightarrow> Some (user_attribute nn (the (rq_parameter rq ''user'')))
      | _ \<Rightarrow> Some (user_role_attributes nn (the (rq_parameter rq ''user'')) (the (rq_parameter rq ''role''))))"

definition access_granted :: "'z nn_lib_scheme \<Rightarrow> iam_endpoint \<Rightarrow> iam_request \<Rightarrow> nm_iam \<Rightarrow> bool outcome" where
  "access_granted nn e rq iam =
     nm_iam_check_access nn iam (rq_fingerprint rq) (endpoint_action e) (endpoint_attributes nn e rq)"

text \<open>The calls that send a response to the client.\<close>

fun is_final :: "coap_call \<Rightarrow> bool" where
  "is_final (ErrorResponse _ _) = True"
| "is_final ResponseReady = True"
| "is_final _ = False"

definition responses :: "coap_call list \<Rightarrow> nat" where
  "responses calls = length (filter is_final calls)"

definition unchanged :: "nm_iam \<Rightarrow> (nm_iam \<times> coap_call list) outcome \<Rightarrow> bool" where
  "unchanged iam r = (case r of Inl _ \<Rightarrow> True | Inr (iam', _) \<Rightarrow> iam' = iam)"

definition demo_pairing_iam :: nm_iam where
  "demo_pairing_iam = nm_iam_init
     \<lparr>roles := [\<lparr>role_id = ''Unpaired'', role_policies = [''P'']\<rparr>, \<lparr>role_id = ''Admin'', role_policies = [''P'']\<rparr>,
        \<lparr>role_id = ''User'', role_policies = [''P'']\<rparr>],
      policies := [\<lparr>policy_id = ''P'', policy_statements =
        [\<lparr>st_effect = NM_EFFECT_ALLOW, st_actions = [''Pairing:Password'', ''Pairing:Local''], st_conditions = []\<rparr>]\<rparr>],
      pairingPassword := Some ''pw''\<rparr>"

definition demo_request :: iam_request where
  "demo_request = \<lparr>rq_fingerprint = Some ''ff'', rq_local = True, rq_parameter = (\<lambda>_. None),
     rq_content_format = Some APPLICATION_CBOR, rq_payload = Some [0], rq_new_token = Some ''tok'', rq_set_payload_ok = True\<rparr>"

definition demo_payload :: cbor where
  "demo_payload = CborMap [(CborText ''Password'', CborText ''pw'')]"

definition answers :: "nat \<Rightarrow> (nm_iam \<times> coap_call list) outcome \<Rightarrow> bool" where
  "answers n r = (case r of Inl _ \<Rightarrow> True | Inr (_, calls) \<Rightarrow> responses calls = n)"

text \<open>The payload of a pairing request that reaches the parser is rejected by it.\<close>

definition rejected_pairing :: "'v tinycbor \<Rightarrow> 'z nn_lib_scheme \<Rightarrow> iam_endpoint \<Rightarrow> iam_request \<Rightarrow> nm_iam \<Rightarrow> bool" where
  "rejected_pairing T nn e rq iam \<longleftrightarrow> e \<in> {PairingLocal, PairingPassword} \<and> access_granted nn e rq iam = Inr True
     \<and> rq_fingerprint rq \<noteq> None \<and> (e = PairingLocal \<longrightarrow> rq_local rq) \<and> fst (nm_iam_cbor_init_parser T rq) = None"

fun iam_serve ::
    "'v tinycbor \<Rightarrow> 'z nn_lib_scheme \<Rightarrow> (iam_endpoint \<times> iam_request) list \<Rightarrow> nm_iam \<Rightarrow> nm_iam outcome" where
  "iam_serve T nn [] iam = Inr iam"
| "iam_serve T nn ((e, rq) # rqs) iam =
     obind (requestHandler T nn e rq [] iam) (\<lambda>(iam', _). iam_serve T nn rqs iam')"

definition keeps_users :: "(nm_iam \<times> coap_call list) outcome \<Rightarrow> bool" where
  "keeps_users r = (case r of Inl _ \<Rightarrow> True | Inr (iam, _) \<Rightarrow> iam_inv iam)"

section \<open>Access control of the endpoints\<close>

named_theorems handler_defs \<open>the handlers of the endpoints\<close>

declare is_paired_handle_request_def [handler_defs] pairing_get_handle_request_def [handler_defs]
  client_settings_handle_request_def [handler_defs] get_user_handle_request_def [handler_defs]
  list_users_handle_request_def [handler_defs] list_roles_handle_request_def [handler_defs]
  delete_user_handle_request_def [handler_defs] add_role_to_user_handle_request_def [handler_defs]
  remove_role_from_user_handle_request_def [handler_defs] pairing_local_handle_request_def [handler_defs]
  pairing_password_handle_request_def [handler_defs]

lemmas endpoint_defs = access_granted_def endpoint_attributes_def parameters_given_def

text \<open>
  C19. A request whose access check fails is answered with a single 403 response and changes nothing,
  for every endpoint.
\<close>

theorem iam_denied_request:
  assumes "parameters_given e rq" "access_granted nn e rq iam = Inr False"
  shows "requestHandler T nn e rq h iam = Inr (iam, [ErrorResponse 403 (Some ''Access Denied'')])"
  using assms
  by (cases e) (auto simp: handler_defs endpoint_defs emit_def access_denied_def split: option.split)

theorem iam_denied_request_witness:
  "requestHandler (cbor_by_item CborInvalid) nn_by_lists DeleteUser
     \<lparr>rq_fingerprint = Some ''ff'', rq_local = True, rq_parameter = (\<lambda>_. Some ''1''), rq_content_format = None,
      rq_payload = None, rq_new_token = None, rq_set_payload_ok = True\<rparr> [] demo_iam
   = Inr (demo_iam, [ErrorResponse 403 (Some ''Access Denied'')])"
  by (rule iam_denied_request; code_simp)

lemma respond_payload_state: "\<exists>calls. respond_payload rq h p iam = Inr (iam, calls)"
  by (cases "alloc h") (simp add: respond_payload_def emit_def)

lemma unchanged_simps [simp]: "unchanged iam (Inl e)" "unchanged iam (Inr (iam', calls)) \<longleftrightarrow> iam' = iam"
  "unchanged iam (emit calls iam)" "unchanged iam (respond_payload rq h p iam)"
  using respond_payload_state [of rq h p iam] by (auto simp: unchanged_def emit_def)

lemma unchanged_obind: "unchanged iam (obind m f) \<longleftrightarrow> (\<forall>x. m = Inr x \<longrightarrow> unchanged iam (f x))"
  by (cases m) auto

lemma reading_endpoints:
  "e \<notin> {DeleteUser, AddRoleToUser, RemoveRoleFromUser, PairingLocal, PairingPassword} \<Longrightarrow>
   unchanged iam (requestHandler T nn e rq h iam)"
  by (cases e) (simp_all add: handler_defs unchanged_obind split: option.split)

lemma denied_unchanged:
  "access_granted nn e rq iam \<noteq> Inr True \<Longrightarrow> unchanged iam (requestHandler T nn e rq h iam)"
  by (cases e) (auto simp: handler_defs endpoint_defs unchanged_obind split: option.split)

lemma remote_unchanged: "\<not> rq_local rq \<Longrightarrow> unchanged iam (pairing_local_handle_request T nn rq h iam)"
  by (simp add: handler_defs unchanged_obind)

lemma unchanged_emit_then: "unchanged iam (andThen (emit calls) g iam) \<longleftrightarrow> unchanged iam (g iam)"
  by (cases "g iam") (auto simp: andThen_def emit_def)

lemma pair_wrong_password:
  assumes "\<not> (\<exists>p h'. decode_password T v h = Inr ((True, Some p), h') \<and> pairingPassword iam = Some p)"
  shows "unchanged iam (pair_with_password T nn rq h v iam)"
  using assms by (auto simp: pair_with_password_def unchanged_obind deref_def split: option.splits)

lemma wrong_password_unchanged:
  assumes "\<not> (\<exists>v p h'. fst (nm_iam_cbor_init_parser T rq) = Some v
         \<and> decode_password T v h = Inr ((True, Some p), h') \<and> pairingPassword iam = Some p)"
  shows "unchanged iam (pairing_password_handle_request T nn rq h iam)"
proof (cases "nm_iam_cbor_init_parser T rq")
  case (Pair v calls)
  then show ?thesis
    using assms pair_wrong_password [of T _ h iam nn rq]
    by (cases v) (simp_all add: handler_defs unchanged_obind unchanged_emit_then)
qed

text \<open>
  C4. Users are changed only by requests that are entitled to it: when a request changes the state of
  the module, it is one of the five changing endpoints and the client has access to its action; local
  pairing happens only on a local connection, and password pairing only when the payload holds the
  pairing password of the device.
\<close>

theorem iam_change_needs_access:
  assumes "requestHandler T nn e rq h iam = Inr (iam', calls)" "iam' \<noteq> iam"
  shows "access_granted nn e rq iam = Inr True
    \<and> e \<in> {DeleteUser, AddRoleToUser, RemoveRoleFromUser, PairingLocal, PairingPassword}
    \<and> (e = PairingLocal \<longrightarrow> rq_local rq)
    \<and> (e = PairingPassword \<longrightarrow> (\<exists>v p h'. fst (nm_iam_cbor_init_parser T rq) = Some v
         \<and> decode_password T v h = Inr ((True, Some p), h') \<and> pairingPassword iam = Some p))"
proof -
  have ch: "\<not> unchanged iam (requestHandler T nn e rq h iam)" using assms by (simp add: unchanged_def)
  then have "access_granted nn e rq iam = Inr True" using denied_unchanged by blast
  moreover have "e \<in> {DeleteUser, AddRoleToUser, RemoveRoleFromUser, PairingLocal, PairingPassword}"
    using ch reading_endpoints by blast
  moreover have "rq_local rq" if "e = PairingLocal"
    using ch remote_unchanged [of rq iam T nn h] that by auto
  moreover have "\<exists>v p h'. fst (nm_iam_cbor_init_parser T rq) = Some v
         \<and> decode_password T v h = Inr ((True, Some p), h') \<and> pairingPassword iam = Some p" if "e = PairingPassword"
    using ch wrong_password_unchanged [of T rq h iam nn] that by auto
  ultimately show ?thesis by blast
qed

theorem iam_change_needs_access_witness:
  "case requestHandler (cbor_by_item demo_payload) nn_by_lists PairingPassword demo_request [] demo_pairing_iam of
     Inl _ \<Rightarrow> False
   | Inr (iam', calls) \<Rightarrow> iam' \<noteq> demo_pairing_iam
       \<and> access_granted nn_by_lists PairingPassword demo_request demo_pairing_iam = Inr True"
proof -
  let ?r = "requestHandler (cbor_by_item demo_payload) nn_by_lists PairingPassword demo_request [] demo_pairing_iam"
  have "(case ?r of Inl _ \<Rightarrow> False | Inr (iam', calls) \<Rightarrow> length (users iam') = 1)" by code_simp
  then obtain iam' calls where r: "?r = Inr (iam', calls)" and "length (users iam') = 1"
    by (auto split: sum.splits)
  then have "iam' \<noteq> demo_pairing_iam" by (auto simp: demo_pairing_iam_def nm_iam_init_def)
  then show ?thesis using iam_change_needs_access [OF r] r by simp
qed

section \<open>Responses\<close>

lemma responses_simps [simp]:
  "responses [] = 0" "responses (c # cs) = (if is_final c then 1 else 0) + responses cs"
  "responses (cs @ ds) = responses cs + responses ds" "responses (map IamCall os) = 0"
  by (simp_all add: responses_def)

lemma answers_simps [simp]:
  "answers n (Inl e)" "answers n (Inr (iam, calls)) \<longleftrightarrow> responses calls = n"
  "answers n (emit calls iam) \<longleftrightarrow> responses calls = n" "answers (Suc 0) (respond_payload rq [] p iam)"
  by (simp_all add: answers_def emit_def respond_payload_def)

lemma answers_obind: "answers n (obind m f) \<longleftrightarrow> (\<forall>x. m = Inr x \<longrightarrow> answers n (f x))"
  by (cases m) auto

lemma answers_emit_then: "responses calls = 0 \<Longrightarrow> answers n (andThen (emit calls) g iam) \<longleftrightarrow> answers n (g iam)"
  by (cases "g iam") (auto simp: andThen_def emit_def)

lemma answers_finish: "answers (Suc 0) (pairing_finish nn rq h iam)"
  by (auto simp: pairing_finish_def answers_obind)

lemma init_parser_calls:
  "nm_iam_cbor_init_parser T rq = (None, calls) \<Longrightarrow> responses calls = 1"
  "nm_iam_cbor_init_parser T rq = (Some v, calls) \<Longrightarrow> calls = []"
  by (auto simp: nm_iam_cbor_init_parser_def split: if_splits option.splits)

lemma pairing_answers:
  "answers (if rejected_pairing T nn PairingLocal rq iam then 2 else 1) (pairing_local_handle_request T nn rq h iam)"
  "answers (if rejected_pairing T nn PairingPassword rq iam then 2 else 1) (pairing_password_handle_request T nn rq h iam)"
proof -
  have pw: "answers (Suc 0) (pair_with_password T nn rq h v iam)" for v
    by (auto simp: pair_with_password_def answers_obind answers_finish)
  have lo: "answers (Suc 0) (obind (nm_iam_cbor_decode_kv_string T v ''Name'' None h) (\<lambda>(_, h1). pairing_finish nn rq h1 iam))" for v
    by (auto simp: answers_obind answers_finish)
  obtain v calls where p: "nm_iam_cbor_init_parser T rq = (v, calls)" by fastforce
  show "answers (if rejected_pairing T nn PairingLocal rq iam then 2 else 1) (pairing_local_handle_request T nn rq h iam)"
    using p init_parser_calls [of T rq] lo
    by (cases v; auto simp: handler_defs endpoint_defs rejected_pairing_def answers_obind answers_emit_then access_denied_def)
  show "answers (if rejected_pairing T nn PairingPassword rq iam then 2 else 1) (pairing_password_handle_request T nn rq h iam)"
    using p init_parser_calls [of T rq] pw
    by (cases v; auto simp: handler_defs endpoint_defs rejected_pairing_def answers_obind answers_emit_then access_denied_def)
qed

text \<open>
  C32. When memory is available, every request is answered exactly once, with one exception: a pairing
  request that passes the access checks and whose content format or payload is rejected gets two
  error responses.
\<close>

theorem iam_responses:
  assumes "requestHandler T nn e rq [] iam = Inr (iam', calls)"
  shows "responses calls = (if rejected_pairing T nn e rq iam then 2 else 1)"
proof -
  have "answers (if rejected_pairing T nn e rq iam then 2 else 1) (requestHandler T nn e rq [] iam)"
  proof (cases e)
    case PairingLocal
    then show ?thesis using pairing_answers(1) [of T nn rq iam] by simp
  next
    case PairingPassword
    then show ?thesis using pairing_answers(2) [of T nn rq iam] by simp
  qed (auto simp: handler_defs rejected_pairing_def answers_obind access_denied_def split: option.split prod.split)
  then show ?thesis using assms by simp
qed

theorem iam_responses_witness:
  "case requestHandler (cbor_by_item demo_payload) nn_by_lists PairingPassword (demo_request\<lparr>rq_payload := None\<rparr>) [] demo_pairing_iam of
     Inl _ \<Rightarrow> False | Inr (iam', calls) \<Rightarrow> responses calls = 2"
proof -
  let ?rq = "demo_request\<lparr>rq_payload := None\<rparr>"
  let ?r = "requestHandler (cbor_by_item demo_payload) nn_by_lists PairingPassword ?rq [] demo_pairing_iam"
  have "\<not> isl ?r" by code_simp
  then obtain iam' calls where r: "?r = Inr (iam', calls)" by (cases ?r) auto
  have "rejected_pairing (cbor_by_item demo_payload) nn_by_lists PairingPassword ?rq demo_pairing_iam" by code_simp
  then show ?thesis using iam_responses [OF r] r by simp
qed

section \<open>Sequences of requests\<close>

lemma decode_heap: "nm_iam_cbor_decode_string T v str [] = Inr (r, h) \<Longrightarrow> h = []"
  by (auto simp: nm_iam_cbor_decode_string_def obind_eq_Inr_iff split: if_splits option.splits)

lemma decode_kv_heap: "nm_iam_cbor_decode_kv_string T v k str [] = Inr (r, h) \<Longrightarrow> h = []"
  by (auto simp: nm_iam_cbor_decode_kv_string_def dest: decode_heap split: if_splits)

lemma decode_password_heap: "decode_password T v [] = Inr (r, h) \<Longrightarrow> h = []"
  by (auto simp: decode_password_def obind_eq_Inr_iff dest: decode_heap decode_kv_heap split: if_splits)

lemma keeps_users_simps [simp]: "keeps_users (Inl e)" "keeps_users (Inr (iam, calls)) = iam_inv iam"
  "keeps_users (emit cs iam) = iam_inv iam"
  by (simp_all add: keeps_users_def emit_def)

lemma keeps_users_obind: "keeps_users (obind m f) \<longleftrightarrow> (\<forall>x. m = Inr x \<longrightarrow> keeps_users (f x))"
  by (cases m) auto

lemma unchanged_keeps: "iam_inv iam \<Longrightarrow> unchanged iam r \<Longrightarrow> keeps_users r"
  by (cases r) auto

lemma keeps_users_emit_then: "keeps_users (andThen (emit calls) g iam) \<longleftrightarrow> keeps_users (g iam)"
  by (cases "g iam") (auto simp: andThen_def emit_def)

lemma finish_keeps:
  assumes "iam_inv iam" "nn_memory_available nn" "nn_string_set_laws nn"
  shows "keeps_users (pairing_finish nn rq [] iam)"
  using iam_inv_pair [OF assms, of "rq_fingerprint rq" "rq_new_token rq"]
  by (auto simp: pairing_finish_def)

lemma pairing_keeps:
  assumes "iam_inv iam" "nn_memory_available nn" "nn_string_set_laws nn"
  shows "keeps_users (pairing_local_handle_request T nn rq [] iam)"
    "keeps_users (pairing_password_handle_request T nn rq [] iam)"
proof -
  note fin = finish_keeps [OF assms, of rq]
  have pw: "keeps_users (pair_with_password T nn rq [] v iam)" for v
    using fin assms(1) by (auto simp: pair_with_password_def keeps_users_obind dest!: decode_password_heap decode_kv_heap)
  have lo: "keeps_users (obind (nm_iam_cbor_decode_kv_string T v ''Name'' None []) (\<lambda>(_, h1). pairing_finish nn rq h1 iam))" for v
    using fin by (auto simp: keeps_users_obind dest!: decode_kv_heap)
  show "keeps_users (pairing_local_handle_request T nn rq [] iam)"
    using assms(1) lo by (auto simp: handler_defs keeps_users_obind keeps_users_emit_then split: prod.split option.split)
  show "keeps_users (pairing_password_handle_request T nn rq [] iam)"
    using assms(1) pw by (auto simp: handler_defs keeps_users_obind keeps_users_emit_then split: prod.split option.split)
qed

lemma handler_keeps:
  assumes "iam_inv iam" "nn_memory_available nn" "nn_string_set_laws nn"
  shows "keeps_users (requestHandler T nn e rq [] iam)"
proof (cases e)
  case DeleteUser
  have "iam_inv (fst (nm_iam_delete_user iam u))" for u using iam_inv_apply [OF assms, of "IamDelete u"] by simp
  then show ?thesis
    using DeleteUser assms(1) by (auto simp: handler_defs keeps_users_obind split: option.split prod.split) (metis fst_conv)
next
  case AddRoleToUser
  have "iam_inv (fst (snd (nm_iam_add_role_to_user nn iam u r)))" for u r
    using iam_inv_apply [OF assms, of "IamAddRole u r"] by simp
  then show ?thesis
    using AddRoleToUser assms(1)
    by (auto simp: handler_defs keeps_users_obind split: option.split prod.split) (metis fst_conv snd_conv)
next
  case RemoveRoleFromUser
  have "iam_inv (fst (nm_iam_remove_role_from_user nn iam u r))" for u r
    using iam_inv_apply [OF assms, of "IamRemoveRole u r"] by simp
  then show ?thesis
    using RemoveRoleFromUser assms(1)
    by (auto simp: handler_defs keeps_users_obind split: option.split prod.split) (metis fst_conv)
next
  case PairingLocal
  then show ?thesis using pairing_keeps(1) [OF assms] by simp
next
  case PairingPassword
  then show ?thesis using pairing_keeps(2) [OF assms] by simp
qed (use unchanged_keeps [OF assms(1) reading_endpoints [of e iam T nn rq "[]"]] in simp_all)

text \<open>
  Over any sequence of requests to the endpoints, whoever sends them, the identifiers of the users
  stay unique and every user keeps a fingerprint that no other user has.
\<close>

lemma iam_serve_users_unique:
  assumes "iam_inv iam" "nn_memory_available nn" "nn_string_set_laws nn" "iam_serve T nn rqs iam = Inr iam'"
  shows "distinct (map user_id (users iam')) \<and> distinct (map user_fingerprint (users iam'))
     \<and> None \<notin> set (map user_fingerprint (users iam'))"
proof -
  have "iam_inv iam'"
    using assms(1,4)
  proof (induction rqs arbitrary: iam)
    case (Cons x rqs)
    obtain e rq where x: "x = (e, rq)" by fastforce
    then show ?case
      using Cons handler_keeps [OF Cons.prems(1) assms(2,3), of T e rq]
      by (cases "requestHandler T nn e rq [] iam") auto
  qed simp
  then show ?thesis by (simp add: iam_inv_def)
qed

end
