(* ===== verification/NcRendezvous.thy ===== *)
theory NcRendezvous
  imports NcPacket NcCoap
begin

text \<open>
  Rendezvous packets: the queue of packets to send (\<^verbatim>\<open>src/core/nc_rendezvous.c\<close>) and the CoAP resource
  that asks the device to send them (\<^verbatim>\<open>src/core/nc_rendezvous_coap.c\<close>). A UDP socket of the device is
  known by a number of type \<open>udp_dispatch_ref\<close>; sending is an output, and its completion is the
  event \<open>nc_rendezvous_packet_sent\<close>.
\<close>

section \<open>The send queue\<close>

type_synonym udp_dispatch_ref = nat

definition NABTO_PROTOCOL_PREFIX_RENDEZVOUS :: u8 where "NABTO_PROTOCOL_PREFIX_RENDEZVOUS = 241"
definition CT_RENDEZVOUS_CLIENT_REQUEST :: u8 where "CT_RENDEZVOUS_CLIENT_REQUEST = 0x01"
definition CT_RENDEZVOUS_CLIENT_RESPONSE :: u8 where "CT_RENDEZVOUS_CLIENT_RESPONSE = 0x02"
definition CT_RENDEZVOUS_DEVICE_REQUEST :: u8 where "CT_RENDEZVOUS_DEVICE_REQUEST = 0x03"

definition NC_RENDEZVOUS_SEND_QUEUE_LENGTH :: nat where "NC_RENDEZVOUS_SEND_QUEUE_LENGTH = 10"

record nc_rendezvous_send_packet =
  rp_type :: u8
  rp_connectionId :: "u8 list"
  rp_ep :: np_udp_endpoint

record nc_rendezvous_context =
  rdv_pl :: bool
  rdv_udpDispatch :: "udp_dispatch_ref option"
  packetList :: "nc_rendezvous_send_packet list"
  packetIndex :: u8
  sendingDevReqs :: bool

datatype rendezvous_output =
    RendezvousSendTo udp_dispatch_ref np_udp_endpoint "u8 list"
  | RendezvousCompletionEventDeinit
  | RendezvousBufferFree

type_synonym rendezvous_act = "(nc_rendezvous_context, rendezvous_output) act"

definition packet_zero :: nc_rendezvous_send_packet where
  "packet_zero = \<lparr>rp_type = 0, rp_connectionId = replicate 14 0,
     rp_ep = \<lparr>ep_ip = ip_zero, ep_port = 0\<rparr>\<rparr>"

text \<open>The arguments are the results of allocating the buffer and of creating the completion event.\<close>

definition nc_rendezvous_init :: "bool \<Rightarrow> np_error_code \<Rightarrow> np_error_code \<times> nc_rendezvous_context" where
  "nc_rendezvous_init allocated event_ec =
     (let ctx = \<lparr>rdv_pl = False, rdv_udpDispatch = None, packetList = replicate NC_RENDEZVOUS_SEND_QUEUE_LENGTH packet_zero,
                packetIndex = 0, sendingDevReqs = False\<rparr> in
      if \<not> allocated then (NABTO_EC_OUT_OF_MEMORY, ctx)
      else if event_ec \<noteq> NABTO_EC_OK then (event_ec, ctx)
      else (NABTO_EC_OK, ctx\<lparr>rdv_pl := True, packetIndex := 0, sendingDevReqs := False\<rparr>))"

definition nc_rendezvous_deinit :: rendezvous_act where
  "nc_rendezvous_deinit ctx =
     emit (if rdv_pl ctx then [RendezvousCompletionEventDeinit, RendezvousBufferFree] else []) ctx"

definition nc_rendezvous_set_udp_dispatch :: "udp_dispatch_ref \<Rightarrow> nc_rendezvous_context \<Rightarrow> nc_rendezvous_context" where
  "nc_rendezvous_set_udp_dispatch udpDispatch ctx = ctx\<lparr>rdv_udpDispatch := Some udpDispatch\<rparr>"

definition nc_rendezvous_remove_udp_dispatch :: "nc_rendezvous_context \<Rightarrow> nc_rendezvous_context" where
  "nc_rendezvous_remove_udp_dispatch ctx = ctx\<lparr>rdv_udpDispatch := None\<rparr>"

definition nc_rendezvous_send_device_request :: rendezvous_act where
  "nc_rendezvous_send_device_request ctx =
     (case rdv_udpDispatch ctx of
        None \<Rightarrow> emit [] ctx
      | Some udpDispatch \<Rightarrow>
          if sendingDevReqs ctx then emit [] ctx
          else if \<not> rdv_pl ctx then Inl NullPointer
          else if packetIndex ctx = 0 then emit [] ctx
          else
            let i = packetIndex ctx - 1 in
            obind (rd (packetList ctx) (unat i)) (\<lambda>packet.
              emit [RendezvousSendTo udpDispatch (rp_ep packet)
                      (NABTO_PROTOCOL_PREFIX_RENDEZVOUS # rp_connectionId packet @ [0, rp_type packet])]
                (ctx\<lparr>packetIndex := i, sendingDevReqs := True\<rparr>)))"

definition nc_rendezvous_packet_sent :: "np_error_code \<Rightarrow> rendezvous_act" where
  "nc_rendezvous_packet_sent ec ctx = nc_rendezvous_send_device_request (ctx\<lparr>sendingDevReqs := False\<rparr>)"

definition nc_rendezvous_send_rendezvous :: "nc_rendezvous_send_packet \<Rightarrow> rendezvous_act" where
  "nc_rendezvous_send_rendezvous packet ctx =
     (if unat (packetIndex ctx) \<ge> NC_RENDEZVOUS_SEND_QUEUE_LENGTH then emit [] ctx
      else if rdv_udpDispatch ctx = None then emit [] ctx
      else if unat (packetIndex ctx) \<ge> length (packetList ctx) then Inl OutOfBounds
      else
        nc_rendezvous_send_device_request
          (ctx\<lparr>packetList := (packetList ctx)[unat (packetIndex ctx) := packet],
               packetIndex := packetIndex ctx + 1\<rparr>))"

text \<open>\<open>connectionId\<close> points to the bytes given; fourteen of them are copied.\<close>

definition nc_rendezvous_handle_client_request :: "np_udp_endpoint \<Rightarrow> u8 list \<Rightarrow> rendezvous_act" where
  "nc_rendezvous_handle_client_request ep connectionId ctx =
     (if length connectionId < 14 then Inl OutOfBounds
      else nc_rendezvous_send_rendezvous
             \<lparr>rp_type = CT_RENDEZVOUS_CLIENT_RESPONSE, rp_connectionId = take 14 connectionId, rp_ep = ep\<rparr> ctx)"

section \<open>The CoAP resource\<close>

text \<open>
  The iteration over an array and the copying of byte strings, in addition to the reading functions
  of \<open>tinycbor\<close>. The value after \<open>cbor_value_advance\<close> is what the call leaves in it; the code does not
  look at its error.
\<close>

record 'v tinycbor_array = "'v tinycbor" +
  cbor_is_array :: "'v \<Rightarrow> bool"
  cbor_enter_container :: "'v \<Rightarrow> 'v"
  cbor_at_end :: "'v \<Rightarrow> bool"
  cbor_advance :: "'v \<Rightarrow> 'v"
  cbor_bytes_length :: "'v \<Rightarrow> nat option"
  cbor_copy_bytes :: "'v \<Rightarrow> nat \<Rightarrow> u8 list \<Rightarrow> u8 list"

text \<open>
  One turn of the loop: the packets of the map \<open>ep\<close>. The packet is a local variable that keeps what the
  turns before wrote into it; without a definite length the length is read uninitialised.
\<close>

definition rendezvous_ep ::
    "'v tinycbor_array \<Rightarrow> 'v \<Rightarrow> nc_rendezvous_send_packet \<Rightarrow> nc_rendezvous_context
       \<Rightarrow> (nc_rendezvous_send_packet \<times> nc_rendezvous_context \<times> rendezvous_output list) outcome" where
  "rendezvous_ep T ep packet ctx =
     (let ip = cbor_map_find T ep ''Ip''; port = cbor_map_find T ep ''Port'' in
      if cbor_is_bytes T ip \<and> cbor_is_uint T port then
        let e = (rp_ep packet)\<lparr>ep_port := ucast (cbor_get_uint64 T port)\<rparr> in
        (case cbor_bytes_length T ip of
           None \<Rightarrow> Inl Uninitialized
         | Some ipLength \<Rightarrow>
             if ipLength = 4 \<or> ipLength = 16 then
               let a = (ep_ip e)\<lparr>ip_type := (if ipLength = 4 then NABTO_IPV4 else NABTO_IPV6),
                                 ip_bytes := cbor_copy_bytes T ip ipLength (ip_bytes (ep_ip e))\<rparr>;
                   p = packet\<lparr>rp_ep := e\<lparr>ep_ip := a\<rparr>\<rparr>
               in obind (nc_rendezvous_send_rendezvous p ctx) (\<lambda>(ctx', out). Inr (p, ctx', out))
             else Inr (packet\<lparr>rp_ep := e\<rparr>, ctx, []))
      else Inr (packet, ctx, []))"

text \<open>The loop over the array; \<open>None\<close> when it does not return.\<close>

partial_function (option) rendezvous_loop ::
    "'v tinycbor_array \<Rightarrow> 'v \<Rightarrow> nc_rendezvous_send_packet \<Rightarrow> nc_rendezvous_context \<Rightarrow> rendezvous_output list
       \<Rightarrow> (bool \<times> nc_rendezvous_context \<times> rendezvous_output list) outcome option" where
  "rendezvous_loop T ep packet ctx out =
     (if cbor_at_end T ep then Some (Inr (True, ctx, out))
      else if cbor_is_map T ep then
        (case rendezvous_ep T ep packet ctx of
           Inl f \<Rightarrow> Some (Inl f)
         | Inr (packet', ctx', out') \<Rightarrow> rendezvous_loop T (cbor_advance T ep) packet' ctx' (out @ out'))
      else Some (Inr (False, ctx, out)))"

text \<open>
  \<open>packet0\<close> is the uninitialised packet on the stack, \<open>connectionId\<close> the identifier of the connection of
  the request.
\<close>

definition handle_rendezvous_payload ::
    "'v tinycbor_array \<Rightarrow> nc_rendezvous_send_packet \<Rightarrow> u8 list \<Rightarrow> u8 list \<Rightarrow> nc_rendezvous_context
       \<Rightarrow> (bool \<times> nc_rendezvous_context \<times> rendezvous_output list) outcome option" where
  "handle_rendezvous_payload T packet0 connectionId payload ctx =
     (let packet = packet0\<lparr>rp_type := CT_RENDEZVOUS_DEVICE_REQUEST, rp_connectionId := connectionId\<rparr>;
          array = cbor_parser_init T payload in
      if \<not> cbor_is_array T array then Some (Inr (False, ctx, []))
      else rendezvous_loop T (cbor_enter_container T array) packet ctx [])"

text \<open>The code of the response, and what was sent before it.\<close>

definition nc_rendezvous_handle_coap_p2p_rendezvous ::
    "'v tinycbor_array \<Rightarrow> nc_rendezvous_send_packet \<Rightarrow> u8 list \<Rightarrow> u8 list option \<Rightarrow> nc_rendezvous_context
       \<Rightarrow> (u16 \<times> nc_rendezvous_context \<times> rendezvous_output list) outcome option" where
  "nc_rendezvous_handle_coap_p2p_rendezvous T packet0 connectionId payload ctx =
     (case payload of
        None \<Rightarrow> Some (Inr (400, ctx, []))
      | Some p \<Rightarrow>
          (case handle_rendezvous_payload T packet0 connectionId p ctx of
             None \<Rightarrow> None
           | Some r \<Rightarrow> Some (obind r (\<lambda>(ok, ctx', out). Inr (if ok then 204 else 400, ctx', out)))))"

section \<open>Specification\<close>

text \<open>
  The queue as the callers see it: a bounded stack of waiting packets, of which at most one is being
  sent. A packet on the wire is the rendezvous prefix, the connection identifier, a channel byte of
  zero and the type.
\<close>

record rendezvous_stack =
  waiting :: "nc_rendezvous_send_packet list"
  busy :: bool
  socket :: "udp_dispatch_ref option"

definition rendezvous_bytes :: "nc_rendezvous_send_packet \<Rightarrow> u8 list" where
  "rendezvous_bytes p = [241] @ rp_connectionId p @ [0] @ [rp_type p]"

definition transmit :: "rendezvous_stack \<Rightarrow> rendezvous_stack \<times> rendezvous_output list" where
  "transmit s =
     (case (socket s, busy s, waiting s) of
        (Some d, False, p # ps) \<Rightarrow>
          (s\<lparr>waiting := ps, busy := True\<rparr>, [RendezvousSendTo d (rp_ep p) (rendezvous_bytes p)])
      | _ \<Rightarrow> (s, []))"

datatype rendezvous_event =
    ClientRequest np_udp_endpoint "u8 list"
  | DeviceRequest nc_rendezvous_send_packet
  | PacketSent np_error_code
  | SetSocket udp_dispatch_ref
  | RemoveSocket

fun rendezvous_step :: "rendezvous_event \<Rightarrow> rendezvous_act" where
  "rendezvous_step (ClientRequest ep cid) = nc_rendezvous_handle_client_request ep cid"
| "rendezvous_step (DeviceRequest p) = nc_rendezvous_send_rendezvous p"
| "rendezvous_step (PacketSent ec) = nc_rendezvous_packet_sent ec"
| "rendezvous_step (SetSocket d) = modify (nc_rendezvous_set_udp_dispatch d)"
| "rendezvous_step RemoveSocket = modify nc_rendezvous_remove_udp_dispatch"

definition push_packet ::
    "nc_rendezvous_send_packet \<Rightarrow> rendezvous_stack \<Rightarrow> rendezvous_stack \<times> rendezvous_output list" where
  "push_packet p s =
     (if length (waiting s) < 10 \<and> socket s \<noteq> None then transmit (s\<lparr>waiting := p # waiting s\<rparr>) else (s, []))"

fun rendezvous_spec :: "rendezvous_event \<Rightarrow> rendezvous_stack \<Rightarrow> rendezvous_stack \<times> rendezvous_output list" where
  "rendezvous_spec (ClientRequest ep cid) s = push_packet \<lparr>rp_type = 2, rp_connectionId = cid, rp_ep = ep\<rparr> s"
| "rendezvous_spec (DeviceRequest p) s = push_packet p s"
| "rendezvous_spec (PacketSent ec) s = transmit (s\<lparr>busy := False\<rparr>)"
| "rendezvous_spec (SetSocket d) s = (s\<lparr>socket := Some d\<rparr>, [])"
| "rendezvous_spec RemoveSocket s = (s\<lparr>socket := None\<rparr>, [])"

fun rendezvous_event_ok :: "rendezvous_event \<Rightarrow> bool" where
  "rendezvous_event_ok (ClientRequest ep cid) \<longleftrightarrow> length cid = 14"
| "rendezvous_event_ok _ \<longleftrightarrow> True"

definition rendezvous_inv :: "nc_rendezvous_context \<Rightarrow> bool" where
  "rendezvous_inv ctx \<longleftrightarrow> rdv_pl ctx \<and> length (packetList ctx) = 10 \<and> unat (packetIndex ctx) \<le> 10"

definition rendezvous_abs :: "nc_rendezvous_context \<Rightarrow> rendezvous_stack" where
  "rendezvous_abs ctx =
     \<lparr>waiting = rev (take (unat (packetIndex ctx)) (packetList ctx)), busy = sendingDevReqs ctx,
      socket = rdv_udpDispatch ctx\<rparr>"

text \<open>
  Arrays of items as an instance of the reading functions: a value is the list of the items from the
  current one on. With \<open>stuck\<close> the call that advances fails and leaves the value as it is.
\<close>

fun bytes_of :: "cbor \<Rightarrow> u8 list" where
  "bytes_of (CborBytes b) = b"
| "bytes_of _ = []"

definition cbor_by_items :: "bool \<Rightarrow> cbor list \<Rightarrow> cbor list tinycbor_array" where
  "cbor_by_items stuck items =
     \<lparr>cbor_parser_init = (\<lambda>_. [CborArray items]),
      cbor_is_map = (\<lambda>v. case v of CborMap _ # _ \<Rightarrow> True | _ \<Rightarrow> False),
      cbor_is_uint = (\<lambda>v. case v of CborUint _ # _ \<Rightarrow> True | _ \<Rightarrow> False),
      cbor_is_integer = (\<lambda>v. case v of CborUint _ # _ \<Rightarrow> True | CborInt _ # _ \<Rightarrow> True | _ \<Rightarrow> False),
      cbor_is_text = (\<lambda>v. case v of CborText _ # _ \<Rightarrow> True | _ \<Rightarrow> False),
      cbor_is_bytes = (\<lambda>v. case v of CborBytes _ # _ \<Rightarrow> True | _ \<Rightarrow> False),
      cbor_map_find = (\<lambda>v k. case v of CborMap kvs # _ \<Rightarrow> [find_text kvs k] | _ \<Rightarrow> [CborInvalid]),
      cbor_get_uint64 = (\<lambda>v. case v of CborUint n # _ \<Rightarrow> n | _ \<Rightarrow> 0),
      cbor_get_int = (\<lambda>v. case v of CborUint n # _ \<Rightarrow> uint n | CborInt i # _ \<Rightarrow> i | _ \<Rightarrow> 0),
      cbor_get_string_length = (\<lambda>v. Some (length (text_of (hd v)))),
      cbor_calculate_string_length = (\<lambda>v. Some (length (text_of (hd v)))),
      cbor_copy_text = (\<lambda>v. copy_text (text_of (hd v))),
      cbor_copy_ok = (\<lambda>v n. length (text_of (hd v)) \<le> n),
      cbor_is_array = (\<lambda>v. case v of CborArray _ # _ \<Rightarrow> True | _ \<Rightarrow> False),
      cbor_enter_container = (\<lambda>v. case v of CborArray xs # _ \<Rightarrow> xs | _ \<Rightarrow> []),
      cbor_at_end = (\<lambda>v. v = []),
      cbor_advance = (\<lambda>v. if stuck then v else tl v),
      cbor_bytes_length = (\<lambda>v. Some (length (bytes_of (hd v)))),
      cbor_copy_bytes = (\<lambda>v n buf. take n (bytes_of (hd v)) @ drop n buf)\<rparr>"

definition demo_endpoint :: cbor where
  "demo_endpoint = CborMap [(CborText ''Ip'', CborBytes [10, 0, 0, 1]), (CborText ''Port'', CborUint 5592)]"

text \<open>The values the loop over the array of the CoAP payload visits come to an end.\<close>

inductive iteration_ends :: "'v tinycbor_array \<Rightarrow> 'v \<Rightarrow> bool" for T where
  at_end: "cbor_at_end T ep \<Longrightarrow> iteration_ends T ep"
| no_map: "\<not> cbor_is_map T ep \<Longrightarrow> iteration_ends T ep"
| advance: "iteration_ends T (cbor_advance T ep) \<Longrightarrow> iteration_ends T ep"

section \<open>The queue is a bounded stack\<close>

lemma push_pop_index:
  fixes i :: u8
  assumes "unat i < 10"
  shows "unat (i + 1) = Suc (unat i)" "i + 1 - 1 = i" "i + 1 \<noteq> 0"
proof -
  show "unat (i + 1) = Suc (unat i)"
    using assms by (simp add: unat_word_ariths)
  then show "i + 1 \<noteq> 0" by auto
qed simp

lemma send_device_request_refines:
  assumes "rendezvous_inv ctx"
  shows "\<exists>ctx'. nc_rendezvous_send_device_request ctx = Inr (ctx', snd (transmit (rendezvous_abs ctx)))
    \<and> rendezvous_abs ctx' = fst (transmit (rendezvous_abs ctx)) \<and> rendezvous_inv ctx'"
proof (cases "packetIndex ctx = 0 \<or> sendingDevReqs ctx \<or> rdv_udpDispatch ctx = None")
  case True
  with assms show ?thesis
    by (auto simp: nc_rendezvous_send_device_request_def transmit_def rendezvous_abs_def rendezvous_inv_def
        emit_def split: option.splits bool.splits)
next
  case False
  define i where "i = unat (packetIndex ctx) - 1"
  from False have pos: "0 < unat (packetIndex ctx)"
    by (simp add: unat_gt_0)
  then have i: "unat (packetIndex ctx - 1) = i"
    using False by (simp add: i_def unat_minus_one)
  have lt: "i < length (packetList ctx)" "Suc i = unat (packetIndex ctx)"
    using assms pos by (auto simp: i_def rendezvous_inv_def)
  then have "rev (take (unat (packetIndex ctx)) (packetList ctx)) = packetList ctx ! i # rev (take i (packetList ctx))"
    using take_Suc_conv_app_nth [OF lt(1)] by simp
  with False assms i lt show ?thesis
    by (auto simp: nc_rendezvous_send_device_request_def transmit_def rendezvous_abs_def rendezvous_inv_def
        rendezvous_bytes_def NABTO_PROTOCOL_PREFIX_RENDEZVOUS_def emit_def Let_def)
qed

lemma send_rendezvous_refines:
  assumes "rendezvous_inv ctx"
  shows "\<exists>ctx'. nc_rendezvous_send_rendezvous p ctx = Inr (ctx', snd (push_packet p (rendezvous_abs ctx)))
    \<and> rendezvous_abs ctx' = fst (push_packet p (rendezvous_abs ctx)) \<and> rendezvous_inv ctx'"
proof (cases "unat (packetIndex ctx) < 10 \<and> rdv_udpDispatch ctx \<noteq> None")
  case True
  define c where "c = ctx\<lparr>packetList := (packetList ctx)[unat (packetIndex ctx) := p],
    packetIndex := packetIndex ctx + 1\<rparr>"
  have "rendezvous_inv c"
    using assms True push_pop_index [of "packetIndex ctx"] by (auto simp: c_def rendezvous_inv_def)
  moreover have "rendezvous_abs c = (rendezvous_abs ctx)\<lparr>waiting := p # waiting (rendezvous_abs ctx)\<rparr>"
    using assms True push_pop_index [of "packetIndex ctx"]
    by (simp add: c_def rendezvous_abs_def rendezvous_inv_def take_Suc_conv_app_nth)
  moreover have "nc_rendezvous_send_rendezvous p ctx = nc_rendezvous_send_device_request c"
    using assms True
    by (auto simp: nc_rendezvous_send_rendezvous_def NC_RENDEZVOUS_SEND_QUEUE_LENGTH_def c_def rendezvous_inv_def)
  moreover have "push_packet p (rendezvous_abs ctx)
      = transmit ((rendezvous_abs ctx)\<lparr>waiting := p # waiting (rendezvous_abs ctx)\<rparr>)"
    using assms True by (simp add: push_packet_def rendezvous_abs_def rendezvous_inv_def)
  ultimately show ?thesis
    using send_device_request_refines [of c] by simp
next
  case False
  then show ?thesis
    using assms
    by (auto simp: nc_rendezvous_send_rendezvous_def NC_RENDEZVOUS_SEND_QUEUE_LENGTH_def push_packet_def
        rendezvous_abs_def rendezvous_inv_def emit_def)
qed

interpretation rdv: refinement rendezvous_event_ok rendezvous_inv rendezvous_abs rendezvous_step rendezvous_spec
proof
  fix ctx l
  assume inv: "rendezvous_inv ctx" and ok: "rendezvous_event_ok l"
  show "\<exists>ctx'. rendezvous_step l ctx = Inr (ctx', snd (rendezvous_spec l (rendezvous_abs ctx)))
    \<and> rendezvous_abs ctx' = fst (rendezvous_spec l (rendezvous_abs ctx)) \<and> rendezvous_inv ctx'"
  proof (cases l)
    case (ClientRequest ep cid)
    then show ?thesis
      using ok send_rendezvous_refines [OF inv]
      by (simp add: nc_rendezvous_handle_client_request_def CT_RENDEZVOUS_CLIENT_RESPONSE_def)
  next
    case (PacketSent ec)
    moreover have "rendezvous_inv (ctx\<lparr>sendingDevReqs := False\<rparr>)"
      "rendezvous_abs (ctx\<lparr>sendingDevReqs := False\<rparr>) = (rendezvous_abs ctx)\<lparr>busy := False\<rparr>"
      using inv by (simp_all add: rendezvous_inv_def rendezvous_abs_def)
    ultimately show ?thesis
      using send_device_request_refines [of "ctx\<lparr>sendingDevReqs := False\<rparr>"]
      by (simp add: nc_rendezvous_packet_sent_def)
  qed (use inv send_rendezvous_refines in \<open>auto simp: modify_def nc_rendezvous_set_udp_dispatch_def
      nc_rendezvous_remove_udp_dispatch_def rendezvous_inv_def rendezvous_abs_def\<close>)
qed

lemma rendezvous_init_inv:
  "nc_rendezvous_init True NABTO_EC_OK = (NABTO_EC_OK, ctx) \<Longrightarrow>
     rendezvous_inv ctx \<and> rendezvous_abs ctx = \<lparr>waiting = [], busy = False, socket = None\<rparr>"
  by (auto simp: nc_rendezvous_init_def rendezvous_inv_def rendezvous_abs_def NC_RENDEZVOUS_SEND_QUEUE_LENGTH_def)

text \<open>
  C37. The rendezvous module refines a bounded stack: over any sequence of client requests, device
  requests, completed sends and changes of the socket, starting from a successful init, it never
  leaves its packet array, at most ten packets wait while at most one is being sent, and the bytes
  and addresses handed to the socket are exactly those the stack prescribes.
\<close>

theorem nc_rendezvous_refines_stack:
  assumes "nc_rendezvous_init True NABTO_EC_OK = (NABTO_EC_OK, ctx)" "list_all rendezvous_event_ok ls"
  shows "\<exists>ctx'. run_acts rendezvous_step ls ctx
      = Inr (ctx', snd (run_spec rendezvous_spec ls \<lparr>waiting = [], busy = False, socket = None\<rparr>))
    \<and> rendezvous_abs ctx' = fst (run_spec rendezvous_spec ls \<lparr>waiting = [], busy = False, socket = None\<rparr>)
    \<and> length (waiting (rendezvous_abs ctx')) \<le> 10"
  using rdv.run_refines [of ctx ls] rendezvous_init_inv [OF assms(1)] assms(2)
  by (auto simp: rendezvous_inv_def rendezvous_abs_def)

theorem nc_rendezvous_refines_stack_witness:
  "\<exists>ctx'. run_acts rendezvous_step
      [SetSocket 7, ClientRequest (rp_ep packet_zero) (replicate 14 9), DeviceRequest packet_zero, PacketSent NABTO_EC_OK]
      (snd (nc_rendezvous_init True NABTO_EC_OK))
    = Inr (ctx', [RendezvousSendTo 7 (rp_ep packet_zero) (241 # replicate 14 9 @ [0, 2]),
                  RendezvousSendTo 7 (rp_ep packet_zero) (241 # replicate 14 0 @ [0, 0])])"
proof -
  have "nc_rendezvous_init True NABTO_EC_OK = (NABTO_EC_OK, snd (nc_rendezvous_init True NABTO_EC_OK))"
    by (simp add: nc_rendezvous_init_def)
  from nc_rendezvous_refines_stack [OF this, of "[SetSocket 7, ClientRequest (rp_ep packet_zero) (replicate 14 9),
      DeviceRequest packet_zero, PacketSent NABTO_EC_OK]"]
  show ?thesis
    by (auto simp: push_packet_def transmit_def rendezvous_bytes_def packet_zero_def)
qed

section \<open>The loop over the requested endpoints\<close>

lemma rendezvous_ep_total:
  assumes "rendezvous_inv ctx" "\<And>v. cbor_bytes_length T v \<noteq> None"
  shows "\<exists>p' ctx' out'. rendezvous_ep T ep p ctx = Inr (p', ctx', out') \<and> rendezvous_inv ctx'"
proof -
  obtain n where n: "cbor_bytes_length T (cbor_map_find T ep ''Ip'') = Some n"
    using assms(2) by fastforce
  have send: "\<exists>p' ctx' out'. obind (nc_rendezvous_send_rendezvous q ctx) (\<lambda>(c, out). Inr (q, c, out))
      = Inr (p', ctx', out') \<and> rendezvous_inv ctx'" for q
    using send_rendezvous_refines [OF assms(1), of q] by auto
  show ?thesis
    unfolding rendezvous_ep_def Let_def n option.case
    using assms(1) send by (simp only: split: if_splits) blast
qed

lemma rendezvous_loop_returns:
  assumes "iteration_ends T ep" "\<And>v. cbor_bytes_length T v \<noteq> None" "rendezvous_inv ctx"
  shows "\<exists>ok ctx' out'. rendezvous_loop T ep p ctx out = Some (Inr (ok, ctx', out'))"
  using assms(1,3)
proof (induction arbitrary: p ctx out rule: iteration_ends.induct)
  case (advance ep)
  obtain p' c' o' where ep: "rendezvous_ep T ep p ctx = Inr (p', c', o')" "rendezvous_inv c'"
    using rendezvous_ep_total [OF advance.prems assms(2)] by blast
  obtain ok c2 o2 where "rendezvous_loop T (cbor_advance T ep) p' c' (out @ o') = Some (Inr (ok, c2, o2))"
    using advance.IH [OF ep(2)] by blast
  then show ?case
    by (subst rendezvous_loop.simps) (auto simp: ep(1))
next
  case (no_map ep)
  then show ?case
    by (subst rendezvous_loop.simps) (auto split: sum.splits dest: rendezvous_ep_total [OF _ assms(2)])
next
  case (at_end ep)
  then show ?case
    by (subst rendezvous_loop.simps) auto
qed

lemma rendezvous_loop_ends:
  assumes "rendezvous_loop T ep p ctx out = Some (Inr r)"
  shows "iteration_ends T ep"
proof -
  have "\<forall>r. y = Inr r \<longrightarrow> iteration_ends T ep" if "rendezvous_loop T ep p ctx out = Some y" for y
  proof (rule rendezvous_loop.raw_induct [where P = "\<lambda>T ep p ctx out y. \<forall>r. y = Inr r \<longrightarrow> iteration_ends T ep", rotated])
    show "rendezvous_loop T ep p ctx out = Some y" by (rule that)
  next
    fix loop and T :: "'a tinycbor_array" and ep p ctx out y
    assume IH: "\<And>T ep p ctx out y. loop T ep p ctx out = Some y \<Longrightarrow> \<forall>r. y = Inr r \<longrightarrow> iteration_ends T ep"
      and body: "(if cbor_at_end T ep then Some (Inr (True, ctx, out))
        else if cbor_is_map T ep then
          (case rendezvous_ep T ep p ctx of
             Inl f \<Rightarrow> Some (Inl f)
           | Inr (packet', ctx', out') \<Rightarrow> loop T (cbor_advance T ep) packet' ctx' (out @ out'))
        else Some (Inr (False, ctx, out))) = Some y"
    from body show "\<forall>r. y = Inr r \<longrightarrow> iteration_ends T ep"
      using IH by (auto intro: iteration_ends.intros split: if_splits sum.splits prod.splits)
  qed
  with assms show ?thesis by blast
qed



end
