(* ===== verification/NcClientConnection.thy ===== *)
theory NcClientConnection
  imports NcKeepAlive NcRendezvous
begin

text \<open>
  Client connections: the table of connections with the dispatch of packets to them
  (\<^verbatim>\<open>src/core/nc_client_connection_dispatch.c\<close>), one connection with its channels
  (\<^verbatim>\<open>src/core/nc_client_connection.c\<close>), and the dispatch of UDP packets
  (\<^verbatim>\<open>src/core/nc_udp_dispatch.c\<close>). A pointer to a connection is its index in the table, which is the only
  place connections live in. Calls to the DTLS server, CoAP server, stream manager, rendezvous module and
  event listeners are outputs; no code of these modules follows such a call that depends on it, except
  for the results that the definitions take as arguments.
\<close>

section \<open>Connections\<close>

type_synonym dtls_ref = nat

definition NP_DTLS_SRV_DEFAULT_CHANNEL_ID :: u8 where "NP_DTLS_SRV_DEFAULT_CHANNEL_ID = 0xff"

definition NABTO_MAX_CLIENT_CONNECTIONS :: nat where "NABTO_MAX_CLIENT_CONNECTIONS = 10"

datatype np_dtls_srv_event = NP_DTLS_SRV_EVENT_CLOSED | NP_DTLS_SRV_EVENT_HANDSHAKE_COMPLETE

datatype nc_connection_event =
  NC_CONNECTION_EVENT_OPENED | NC_CONNECTION_EVENT_CLOSED | NC_CONNECTION_EVENT_CHANNEL_CHANGED

record nc_connection_channel =
  ch_sock :: "udp_dispatch_ref option"
  ch_ep :: np_udp_endpoint
  ch_channelId :: u8

text \<open>
  \<open>sentCb\<close> is the DTLS connection whose callback waits for the end of a send. The pointers to the platform and to the
  modules of the device, which never change, are left out.
\<close>

record nc_client_connection =
  conn_dtls :: "dtls_ref option"
  conn_id :: "u8 list"
  currentChannel :: nc_connection_channel
  alternativeChannel :: nc_connection_channel
  currentMaxSequence :: u64
  sentCb :: "dtls_ref option"
  connectionRef :: u64
  conn_keepAlive :: nc_keep_alive_context
  hasSpake2Key :: bool
  spake2Key :: "u8 list"
  passwordAuthenticated :: bool
  passwordAuthenticationRequests :: nat

definition channel_zero :: nc_connection_channel where
  "channel_zero = \<lparr>ch_sock = None, ch_ep = \<lparr>ep_ip = ip_zero, ep_port = 0\<rparr>, ch_channelId = 0\<rparr>"

definition conn_zero :: nc_client_connection where
  "conn_zero = \<lparr>conn_dtls = None, conn_id = replicate 16 0, currentChannel = channel_zero,
     alternativeChannel = channel_zero, currentMaxSequence = 0, sentCb = None, connectionRef = 0,
     conn_keepAlive = ka_zero, hasSpake2Key = False, spake2Key = replicate 32 0,
     passwordAuthenticated = False, passwordAuthenticationRequests = 0\<rparr>"

record nc_client_connection_dispatch_element =
  elm_conn :: nc_client_connection
  elm_active :: bool

record nc_client_connection_dispatch_context =
  disp_pl :: bool
  elms :: "nc_client_connection_dispatch_element list"
  disp_closeCb :: bool
  disp_closing :: bool

text \<open>The part of the device the connections work on: the table, and the counter of connection references.\<close>

record client_connections =
  clientConnect :: nc_client_connection_dispatch_context
  dev_connectionRef :: u64

datatype conn_output =
    ConnectionEvent u64 nc_connection_event
  | ConnKeepAlive nat ka_event_call
  | ConnKeepAliveDeinit nat
  | CoapServerRemoveConnection nat
  | StreamManagerRemoveConnection nat
  | CloseCallback
  | DtlsSrvCreateConnection nat
  | DtlsSrvHandlePacket dtls_ref u8 "u8 list"
  | DtlsSrvAsyncClose dtls_ref
  | DtlsSrvDestroyConnection dtls_ref
  | DtlsSrvAsyncSend dtls_ref u8 "u8 list"
  | CompletionEventDeinit nat
  | StreamPacket nat "u8 list"
  | CoapPacket nat "u8 list"
  | RendezvousClientRequest np_udp_endpoint "u8 list"
  | ConnUdpSendTo udp_dispatch_ref np_udp_endpoint "u8 list"
  | DtlsSentCallback dtls_ref np_error_code

type_synonym conn_act = "(client_connections, conn_output) act"

definition the_conn :: "nat \<Rightarrow> client_connections \<Rightarrow> nc_client_connection" where
  "the_conn i s = elm_conn (elms (clientConnect s) ! i)"

definition upd_elm ::
    "nat \<Rightarrow> (nc_client_connection_dispatch_element \<Rightarrow> nc_client_connection_dispatch_element)
       \<Rightarrow> client_connections \<Rightarrow> client_connections" where
  "upd_elm i f s = s\<lparr>clientConnect := (clientConnect s)\<lparr>elms := (elms (clientConnect s))[i := f (elms (clientConnect s) ! i)]\<rparr>\<rparr>"

definition set_conn :: "nat \<Rightarrow> nc_client_connection \<Rightarrow> client_connections \<Rightarrow> client_connections" where
  "set_conn i c = upd_elm i (elm_conn_update (\<lambda>_. c))"

definition set_active :: "nat \<Rightarrow> bool \<Rightarrow> client_connections \<Rightarrow> client_connections" where
  "set_active i b = upd_elm i (elm_active_update (\<lambda>_. b))"

definition notify :: "nat \<Rightarrow> nc_connection_event \<Rightarrow> client_connections \<Rightarrow> conn_output list" where
  "notify i event s = [ConnectionEvent (connectionRef (the_conn i s)) event]"

definition nc_device_next_connection_ref :: "client_connections \<Rightarrow> u64 option \<times> client_connections" where
  "nc_device_next_connection_ref s =
     (let prev = dev_connectionRef s; s' = s\<lparr>dev_connectionRef := prev + 1\<rparr> in
      if prev > dev_connectionRef s' then (None, s') else (Some (dev_connectionRef s'), s'))"

text \<open>
  \<open>memmove\<close> of the bytes after the connection header to the start of the buffer. The packet is the
  first \<open>bufferSize\<close> bytes of the receive buffer; a packet shorter than the header makes the length
  wrap around to a huge one.
\<close>

definition strip_header :: "u8 list \<Rightarrow> nat \<Rightarrow> u8 list outcome" where
  "strip_header buffer bufferSize =
     (if bufferSize < 16 \<or> length buffer < bufferSize then Inl OutOfBounds
      else Inr (take (bufferSize - 16) (drop 16 buffer) @ drop (bufferSize - 16) buffer))"

text \<open>What the calls made while a connection is opened return.\<close>

record open_env =
  oe_keepAlive :: np_error_code
  oe_completionEvent :: np_error_code
  oe_createConnection :: np_error_code
  oe_dtls :: dtls_ref
  oe_handlePacket :: np_error_code

definition nc_client_connection_open ::
    "open_env \<Rightarrow> nat \<Rightarrow> udp_dispatch_ref \<Rightarrow> np_udp_endpoint \<Rightarrow> u8 list \<Rightarrow> nat \<Rightarrow> client_connections
       \<Rightarrow> (np_error_code \<times> client_connections \<times> u8 list \<times> conn_output list) outcome" where
  "nc_client_connection_open env i sock ep buffer bufferSize s =
     (if length buffer < 16 then Inl OutOfBounds
      else
        let ch = \<lparr>ch_sock = Some sock, ch_ep = ep, ch_channelId = buffer ! 15\<rparr>;
            c0 = conn_zero\<lparr>conn_id := take 16 buffer, currentChannel := ch, alternativeChannel := ch\<rparr> in
        case nc_device_next_connection_ref s of
          (None, s1) \<Rightarrow> Inr (NABTO_EC_UNKNOWN, set_conn i c0 s1, buffer, [])
        | (Some ref, s1) \<Rightarrow>
            (case nc_keep_alive_init (oe_keepAlive env) (conn_keepAlive c0) of (ka_ec, ka) \<Rightarrow>
             let c1 = c0\<lparr>connectionRef := ref, conn_keepAlive := ka\<rparr> in
             if ka_ec \<noteq> NABTO_EC_OK then Inr (ka_ec, set_conn i c1 s1, buffer, [])
             else if oe_completionEvent env \<noteq> NABTO_EC_OK then
               Inr (oe_completionEvent env, set_conn i c1 s1, buffer, [])
             else if oe_createConnection env \<noteq> NABTO_EC_OK then
               Inr (oe_createConnection env, set_conn i c1 s1, buffer, [DtlsSrvCreateConnection i])
             else
               let c2 = c1\<lparr>conn_dtls := Some (oe_dtls env)\<rparr> in
               obind (strip_header buffer bufferSize) (\<lambda>buffer'.
                 Inr (oe_handlePacket env, set_conn i c2 s1, buffer',
                      [DtlsSrvCreateConnection i,
                       DtlsSrvHandlePacket (oe_dtls env) (ch_channelId ch) (take (bufferSize - 16) buffer')]))))"

definition nc_client_connection_handle_packet ::
    "nat \<Rightarrow> udp_dispatch_ref \<Rightarrow> np_udp_endpoint \<Rightarrow> u8 list \<Rightarrow> nat \<Rightarrow> client_connections
       \<Rightarrow> (client_connections \<times> u8 list \<times> conn_output list) outcome" where
  "nc_client_connection_handle_packet i sock ep buffer bufferSize s =
     (let conn = the_conn i s in
      obind (if bufferSize \<ge> 17
             then obind (rd buffer 0) (\<lambda>prefix. obind (rd buffer 16) (\<lambda>ty.
               Inr (prefix = NABTO_PROTOCOL_PREFIX_RENDEZVOUS \<and> ty = CT_RENDEZVOUS_CLIENT_REQUEST)))
             else Inr False) (\<lambda>rendezvous.
        if rendezvous then Inr (s, buffer, [RendezvousClientRequest ep (take 14 (drop 1 (conn_id conn)))])
        else
          obind (rd buffer 15) (\<lambda>channelId.
          let conn' =
            (if channelId \<noteq> ch_channelId (currentChannel conn)
             then conn\<lparr>alternativeChannel := \<lparr>ch_sock = Some sock, ch_ep = ep, ch_channelId = channelId\<rparr>\<rparr>
             else conn\<lparr>currentChannel := (currentChannel conn)\<lparr>ch_ep := ep, ch_sock := Some sock\<rparr>\<rparr>) in
          obind (strip_header buffer bufferSize) (\<lambda>buffer'.
          obind (deref (conn_dtls conn)) (\<lambda>dtls.
            Inr (set_conn i conn' s, buffer',
                 [DtlsSrvHandlePacket dtls channelId (take (bufferSize - 16) buffer')]))))))"

definition nc_client_connection_close_connection :: "nat \<Rightarrow> conn_act" where
  "nc_client_connection_close_connection i s =
     (case conn_dtls (the_conn i s) of None \<Rightarrow> emit [] s | Some dtls \<Rightarrow> emit [DtlsSrvAsyncClose dtls] s)"

section \<open>The table of connections\<close>

definition nc_client_connection_dispatch_init :: "nc_client_connection_dispatch_context \<Rightarrow> nc_client_connection_dispatch_context" where
  "nc_client_connection_dispatch_init ctx =
     ctx\<lparr>elms := replicate NABTO_MAX_CLIENT_CONNECTIONS \<lparr>elm_conn = conn_zero, elm_active = False\<rparr>,
         disp_pl := True, disp_closing := False\<rparr>"

definition nc_client_connection_dispatch_try_close :: conn_act where
  "nc_client_connection_dispatch_try_close s =
     (let ctx = clientConnect s;
          allClosed = (\<not> list_ex elm_active (elms ctx)) in
      emit (if allClosed \<and> disp_closeCb ctx then [CloseCallback] else []) s)"

definition nc_client_connection_dispatch_close_connection :: "nat \<Rightarrow> conn_act" where
  "nc_client_connection_dispatch_close_connection i s =
     (let s' = set_active i False s in
      if disp_closing (clientConnect s') then nc_client_connection_dispatch_try_close s' else emit [] s')"

definition nc_client_connection_destroy_connection :: "nat \<Rightarrow> conn_act" where
  "nc_client_connection_destroy_connection i s =
     andThen (emit (notify i NC_CONNECTION_EVENT_CLOSED s
                    @ [ConnKeepAliveDeinit i, CoapServerRemoveConnection i, StreamManagerRemoveConnection i]))
     (andThen (nc_client_connection_dispatch_close_connection i)
     (\<lambda>s. obind (deref (conn_dtls (the_conn i s))) (\<lambda>dtls.
            emit [DtlsSrvDestroyConnection dtls, CompletionEventDeinit i] (set_conn i conn_zero s)))) s"

fun dispatch_deinit_loop :: "nat list \<Rightarrow> conn_act" where
  "dispatch_deinit_loop [] s = emit [] s"
| "dispatch_deinit_loop (i # is) s =
     (if elm_active (elms (clientConnect s) ! i)
      then andThen (nc_client_connection_destroy_connection i)
             (andThen (modify (set_active i False)) (dispatch_deinit_loop is)) s
      else dispatch_deinit_loop is s)"

definition nc_client_connection_dispatch_deinit :: conn_act where
  "nc_client_connection_dispatch_deinit s =
     (if disp_pl (clientConnect s) then dispatch_deinit_loop [0..<NABTO_MAX_CLIENT_CONNECTIONS] s else emit [] s)"

fun close_active :: "nat list \<Rightarrow> conn_act" where
  "close_active [] s = emit [] s"
| "close_active (i # is) s =
     (if elm_active (elms (clientConnect s) ! i)
      then andThen (nc_client_connection_close_connection i) (close_active is) s
      else close_active is s)"

definition nc_client_connection_dispatch_async_close ::
    "client_connections \<Rightarrow> (np_error_code \<times> client_connections \<times> conn_output list) outcome" where
  "nc_client_connection_dispatch_async_close s =
     (let s1 = s\<lparr>clientConnect := (clientConnect s)\<lparr>disp_closing := True\<rparr>\<rparr> in
      obind (close_active [0..<NABTO_MAX_CLIENT_CONNECTIONS] s1) (\<lambda>(s2, out).
        if \<not> list_ex elm_active (elms (clientConnect s1)) then Inr (NABTO_EC_STOPPED, s2, out)
        else Inr (NABTO_EC_OK, s2\<lparr>clientConnect := (clientConnect s2)\<lparr>disp_closeCb := True\<rparr>\<rparr>, out)))"

text \<open>The loop that looks for the connection of a packet; the first byte and the channel byte do not count.\<close>

fun find_connection :: "nc_client_connection_dispatch_element list \<Rightarrow> nat \<Rightarrow> u8 list \<Rightarrow> nat option outcome" where
  "find_connection [] i buffer = Inr None"
| "find_connection (e # es) i buffer =
     (if \<not> elm_active e then find_connection es (Suc i) buffer
      else if length buffer < 15 then Inl OutOfBounds
      else if take 14 (drop 1 buffer) = take 14 (drop 1 (conn_id (elm_conn e))) then Inr (Some i)
      else find_connection es (Suc i) buffer)"

fun find_free :: "nc_client_connection_dispatch_element list \<Rightarrow> nat \<Rightarrow> nat option" where
  "find_free [] i = None"
| "find_free (e # es) i = (if \<not> elm_active e then Some i else find_free es (Suc i))"

definition nc_client_connection_dispatch_handle_packet ::
    "open_env \<Rightarrow> udp_dispatch_ref \<Rightarrow> np_udp_endpoint \<Rightarrow> u8 list \<Rightarrow> nat \<Rightarrow> client_connections
       \<Rightarrow> (client_connections \<times> u8 list \<times> conn_output list) outcome" where
  "nc_client_connection_dispatch_handle_packet env sock ep buffer bufferSize s =
     obind (find_connection (elms (clientConnect s)) 0 buffer) (\<lambda>found.
       case found of
         Some i \<Rightarrow> nc_client_connection_handle_packet i sock ep buffer bufferSize s
       | None \<Rightarrow>
           obind (rd buffer 16) (\<lambda>b.
             if b \<noteq> 22 then Inr (s, buffer, [])
             else case find_free (elms (clientConnect s)) 0 of
               None \<Rightarrow> Inr (s, buffer, [])
             | Some i \<Rightarrow>
                 obind (nc_client_connection_open env i sock ep buffer bufferSize s) (\<lambda>(ec, s', buffer', out).
                   Inr (if ec = NABTO_EC_OK then set_active i True s' else s', buffer', out))))"

fun find_ref :: "nc_client_connection_dispatch_element list \<Rightarrow> nat \<Rightarrow> u64 \<Rightarrow> nat option" where
  "find_ref [] i ref = None"
| "find_ref (e # es) i ref =
     (if elm_active e \<and> connectionRef (elm_conn e) = ref then Some i else find_ref es (Suc i) ref)"

definition nc_client_connection_dispatch_connection_from_ref :: "client_connections \<Rightarrow> u64 \<Rightarrow> nat option" where
  "nc_client_connection_dispatch_connection_from_ref s ref = find_ref (elms (clientConnect s)) 0 ref"

section \<open>Events of the DTLS connection\<close>

definition nc_client_connection_keep_alive_start :: "nat \<Rightarrow> conn_act" where
  "nc_client_connection_keep_alive_start i s =
     (case nc_keep_alive_wait (conn_keepAlive (the_conn i s)) of (ka, evs) \<Rightarrow>
        emit (map (ConnKeepAlive i) evs) (set_conn i ((the_conn i s)\<lparr>conn_keepAlive := ka\<rparr>) s))"

definition nc_client_connection_dtls_closed_cb :: "nat \<Rightarrow> conn_act" where
  "nc_client_connection_dtls_closed_cb i = nc_client_connection_destroy_connection i"

text \<open>\<open>alpn\<close>: whether the protocol was negotiated.\<close>

definition nc_client_connection_handle_event :: "nat \<Rightarrow> bool \<Rightarrow> np_dtls_srv_event \<Rightarrow> conn_act" where
  "nc_client_connection_handle_event i alpn event s =
     (case event of
        NP_DTLS_SRV_EVENT_CLOSED \<Rightarrow> nc_client_connection_dtls_closed_cb i s
      | NP_DTLS_SRV_EVENT_HANDSHAKE_COMPLETE \<Rightarrow>
          if \<not> alpn then nc_client_connection_close_connection i s
          else andThen (nc_client_connection_keep_alive_start i)
                 (\<lambda>s. emit (notify i NC_CONNECTION_EVENT_OPENED s) s) s)"

definition send_keep_alive :: "nat \<Rightarrow> u8 \<Rightarrow> u8 list \<Rightarrow> conn_act" where
  "send_keep_alive i channelId buf s =
     obind (deref (conn_dtls (the_conn i s))) (\<lambda>dtls. emit [DtlsSrvAsyncSend dtls channelId buf] s)"

definition nc_client_connection_keep_alive_send_req :: "nat \<Rightarrow> conn_act" where
  "nc_client_connection_keep_alive_send_req i s =
     (case nc_keep_alive_create_request (conn_keepAlive (the_conn i s)) of (ka, buf) \<Rightarrow>
        send_keep_alive i (ch_channelId (currentChannel (the_conn i s))) buf
          (set_conn i ((the_conn i s)\<lparr>conn_keepAlive := ka\<rparr>) s))"

definition nc_client_connection_keep_alive_send_response :: "nat \<Rightarrow> u8 \<Rightarrow> u8 list \<Rightarrow> conn_act" where
  "nc_client_connection_keep_alive_send_response i channelId buffer s =
     (case nc_keep_alive_handle_request (conn_keepAlive (the_conn i s)) buffer of
        (ka, None) \<Rightarrow> emit [] s
      | (ka, Some buf) \<Rightarrow>
          send_keep_alive i channelId buf (set_conn i ((the_conn i s)\<lparr>conn_keepAlive := ka\<rparr>) s))"

definition nc_client_connection_handle_keep_alive :: "nat \<Rightarrow> u8 \<Rightarrow> u8 list \<Rightarrow> conn_act" where
  "nc_client_connection_handle_keep_alive i channelId buffer s =
     (if length buffer < 2 then emit [] s
      else if buffer ! 1 = CT_KEEP_ALIVE_REQUEST
      then nc_client_connection_keep_alive_send_response i channelId buffer s
      else emit [] s)"

text \<open>The change of channel on data that is not a keep alive packet.\<close>

definition switch_channel :: "nat \<Rightarrow> u8 \<Rightarrow> u64 \<Rightarrow> conn_act" where
  "switch_channel i channelId seqno s =
     (let conn = the_conn i s in
      if seqno > currentMaxSequence conn then
        let conn1 = conn\<lparr>currentMaxSequence := seqno\<rparr> in
        if ch_channelId (currentChannel conn) \<noteq> channelId \<and> ch_channelId (alternativeChannel conn) = channelId
        then emit (notify i NC_CONNECTION_EVENT_CHANNEL_CHANGED s)
               (set_conn i (conn1\<lparr>currentChannel := alternativeChannel conn1\<rparr>) s)
        else emit [] (set_conn i conn1 s)
      else emit [] s)"

definition dispatch_data :: "nat \<Rightarrow> u8 \<Rightarrow> u8 \<Rightarrow> u8 list \<Rightarrow> conn_act" where
  "dispatch_data i applicationType channelId buffer s =
     (if applicationType = AT_STREAM then emit [StreamPacket i buffer] s
      else if applicationType \<ge> AT_COAP_START \<and> applicationType \<le> AT_COAP_END then emit [CoapPacket i buffer] s
      else if applicationType = AT_KEEP_ALIVE then nc_client_connection_handle_keep_alive i channelId buffer s
      else emit [] s)"

definition nc_client_connection_handle_data :: "nat \<Rightarrow> u8 \<Rightarrow> u64 \<Rightarrow> u8 list \<Rightarrow> conn_act" where
  "nc_client_connection_handle_data i channelId seqno buffer s =
     obind (rd buffer 0) (\<lambda>applicationType.
       andThen (if applicationType \<noteq> AT_KEEP_ALIVE then switch_channel i channelId seqno else emit [])
         (dispatch_data i applicationType channelId buffer) s)"

definition nc_client_connection_keep_alive_event :: "nat \<Rightarrow> u32 \<Rightarrow> u32 \<Rightarrow> conn_act" where
  "nc_client_connection_keep_alive_event i recvCount sentCount s =
     (case nc_keep_alive_should_send (conn_keepAlive (the_conn i s)) recvCount sentCount of (action, ka) \<Rightarrow>
        let s' = set_conn i ((the_conn i s)\<lparr>conn_keepAlive := ka\<rparr>) s in
        (case action of
           DO_NOTHING \<Rightarrow> nc_client_connection_keep_alive_start i s'
         | SEND_KA \<Rightarrow>
             andThen (nc_client_connection_keep_alive_send_req i) (nc_client_connection_keep_alive_start i) s'
         | KA_TIMEOUT \<Rightarrow> nc_client_connection_close_connection i s'))"

text \<open>The keep alive packet was sent.\<close>

definition conn_keep_alive_packet_sent :: "nat \<Rightarrow> conn_act" where
  "conn_keep_alive_packet_sent i s =
     emit [] (set_conn i ((the_conn i s)\<lparr>conn_keepAlive := nc_keep_alive_packet_sent (conn_keepAlive (the_conn i s))\<rparr>) s)"

section \<open>Sending\<close>

definition nc_client_connection_send_to_udp_cb :: "nat \<Rightarrow> np_error_code \<Rightarrow> conn_act" where
  "nc_client_connection_send_to_udp_cb i ec s =
     (case sentCb (the_conn i s) of
        None \<Rightarrow> emit [] s
      | Some cb \<Rightarrow> emit [DtlsSentCallback cb ec] (set_conn i ((the_conn i s)\<lparr>sentCb := None\<rparr>) s))"

definition send_on_channel :: "nat \<Rightarrow> nc_connection_channel \<Rightarrow> u8 list \<Rightarrow> conn_act" where
  "send_on_channel i ch buffer s =
     obind (deref (ch_sock ch)) (\<lambda>sock.
       emit [ConnUdpSendTo sock (ch_ep ch) (take 15 (conn_id (the_conn i s)) @ ch_channelId ch # buffer)] s)"

definition nc_client_connection_async_send_to_udp ::
    "nat \<Rightarrow> u8 \<Rightarrow> u8 list \<Rightarrow> dtls_ref \<Rightarrow> client_connections
       \<Rightarrow> (np_error_code \<times> client_connections \<times> conn_output list) outcome" where
  "nc_client_connection_async_send_to_udp i channel buffer cb s =
     (let conn = the_conn i s in
      if sentCb conn \<noteq> None then Inr (NABTO_EC_OPERATION_IN_PROGRESS, s, [])
      else
        let s' = set_conn i (conn\<lparr>sentCb := Some cb\<rparr>) s in
        obind (if channel = ch_channelId (currentChannel conn) \<or> channel = NP_DTLS_SRV_DEFAULT_CHANNEL_ID
               then send_on_channel i (currentChannel conn) buffer s'
               else if channel = ch_channelId (alternativeChannel conn)
               then send_on_channel i (alternativeChannel conn) buffer s'
               else emit [] s') (\<lambda>(s', out). Inr (NABTO_EC_OK, s', out)))"

definition nc_client_connection_is_local :: "udp_dispatch_ref \<Rightarrow> nat \<Rightarrow> client_connections \<Rightarrow> bool" where
  "nc_client_connection_is_local localUdp i s = (ch_sock (currentChannel (the_conn i s)) = Some localUdp)"

definition nc_client_connection_is_password_authenticated :: "nat \<Rightarrow> client_connections \<Rightarrow> bool" where
  "nc_client_connection_is_password_authenticated i s = passwordAuthenticated (the_conn i s)"

section \<open>Dispatch of UDP packets\<close>

record nc_udp_dispatch_context =
  ud_pl :: bool
  cliConn :: bool
  ud_attacher :: bool
  ud_stun :: bool
  recvBuffer :: "u8 list"

datatype udp_target = ToStun | ToAttacher | ToClientConnections | Undispatched

definition udp_dispatch_target :: "nc_udp_dispatch_context \<Rightarrow> u8 \<Rightarrow> udp_target" where
  "udp_dispatch_target ctx b =
     (if ud_stun ctx \<and> (b = 0 \<or> b = 1) then ToStun
      else if ud_attacher ctx \<and> b \<ge> 20 \<and> b \<le> 64 then ToAttacher
      else if cliConn ctx \<and> b \<ge> 240 then ToClientConnections
      else Undispatched)"

datatype udp_output =
    StunPacket np_udp_endpoint "u8 list"
  | AttacherPacket np_udp_endpoint "u8 list"
  | ConnOutput conn_output
  | AsyncRecvWait
  | UdpAsyncBind u16
  | UdpAbort
  | UdpDestroy
  | UdpBufferFree
  | UdpCompletionEventDeinit

type_synonym udp_state = "nc_udp_dispatch_context \<times> client_connections"
type_synonym udp_act = "(udp_state, udp_output) act"

text \<open>\<open>buffer\<close> is the contents of the freshly allocated buffer; the other arguments are codes of calls.\<close>

definition nc_udp_dispatch_init ::
    "u8 list \<Rightarrow> np_error_code \<Rightarrow> np_error_code \<Rightarrow> np_error_code \<times> nc_udp_dispatch_context" where
  "nc_udp_dispatch_init buffer create_ec event_ec =
     (let ctx = \<lparr>ud_pl = True, cliConn = False, ud_attacher = False, ud_stun = False, recvBuffer = buffer\<rparr> in
      if create_ec \<noteq> NABTO_EC_OK then (create_ec, ctx) else (event_ec, ctx))"

definition nc_udp_dispatch_deinit :: udp_act where
  "nc_udp_dispatch_deinit s =
     emit (if ud_pl (fst s) then [UdpDestroy, UdpBufferFree, UdpCompletionEventDeinit] else []) s"

definition nc_udp_dispatch_async_bind :: "u16 \<Rightarrow> udp_act" where
  "nc_udp_dispatch_async_bind port = emit [UdpAsyncBind port]"

definition start_recv :: udp_act where
  "start_recv = emit [AsyncRecvWait]"

definition nc_udp_dispatch_abort :: udp_act where
  "nc_udp_dispatch_abort = emit [UdpAbort]"

definition nc_udp_dispatch_handle_packet ::
    "open_env \<Rightarrow> udp_dispatch_ref \<Rightarrow> np_udp_endpoint \<Rightarrow> nat \<Rightarrow> udp_act" where
  "nc_udp_dispatch_handle_packet env sock ep bufferSize s =
     (case s of (ctx, conns) \<Rightarrow>
      obind (rd (recvBuffer ctx) 0) (\<lambda>b.
        case udp_dispatch_target ctx b of
          ToStun \<Rightarrow> emit [StunPacket ep (take bufferSize (recvBuffer ctx))] s
        | ToAttacher \<Rightarrow> emit [AttacherPacket ep (take bufferSize (recvBuffer ctx))] s
        | ToClientConnections \<Rightarrow>
            obind (nc_client_connection_dispatch_handle_packet env sock ep (recvBuffer ctx) bufferSize conns)
              (\<lambda>(conns', buffer', out). Inr ((ctx\<lparr>recvBuffer := buffer'\<rparr>, conns'), map ConnOutput out))
        | Undispatched \<Rightarrow> emit [] s))"

text \<open>
  The wait for data ended. \<open>received\<close> is what \<open>np_udp_recv_from\<close> then returns, and the data it writes
  to the start of the buffer.
\<close>

definition async_recv_wait_complete ::
    "open_env \<Rightarrow> udp_dispatch_ref \<Rightarrow> np_error_code \<Rightarrow> np_error_code \<Rightarrow> np_udp_endpoint \<Rightarrow> u8 list \<Rightarrow> udp_act" where
  "async_recv_wait_complete env sock ec recvEc ep data s =
     (if ec \<noteq> NABTO_EC_OK then emit [] s
      else case s of (ctx, conns) \<Rightarrow>
        if recvEc = NABTO_EC_OK then
          obind (memcpy (recvBuffer ctx) data) (\<lambda>buffer.
            andThen (nc_udp_dispatch_handle_packet env sock ep (length data)) start_recv
              (ctx\<lparr>recvBuffer := buffer\<rparr>, conns))
        else if recvEc = NABTO_EC_AGAIN then start_recv s
        else emit [] s)"

definition nc_udp_dispatch_set_client_connection_context :: "nc_udp_dispatch_context \<Rightarrow> nc_udp_dispatch_context" where
  "nc_udp_dispatch_set_client_connection_context ctx = ctx\<lparr>cliConn := True\<rparr>"

definition nc_udp_dispatch_set_attach_context :: "nc_udp_dispatch_context \<Rightarrow> nc_udp_dispatch_context" where
  "nc_udp_dispatch_set_attach_context ctx = ctx\<lparr>ud_attacher := True\<rparr>"

definition nc_udp_dispatch_set_stun_context :: "nc_udp_dispatch_context \<Rightarrow> nc_udp_dispatch_context" where
  "nc_udp_dispatch_set_stun_context ctx = ctx\<lparr>ud_stun := True\<rparr>"

definition nc_udp_dispatch_clear_client_connection_context :: "nc_udp_dispatch_context \<Rightarrow> nc_udp_dispatch_context" where
  "nc_udp_dispatch_clear_client_connection_context ctx = ctx\<lparr>cliConn := False\<rparr>"

definition nc_udp_dispatch_clear_attacher_context :: "nc_udp_dispatch_context \<Rightarrow> nc_udp_dispatch_context" where
  "nc_udp_dispatch_clear_attacher_context ctx = ctx\<lparr>ud_attacher := False\<rparr>"

definition nc_udp_dispatch_clear_stun_context :: "nc_udp_dispatch_context \<Rightarrow> nc_udp_dispatch_context" where
  "nc_udp_dispatch_clear_stun_context ctx = ctx\<lparr>ud_stun := False\<rparr>"

section \<open>Specification\<close>

text \<open>The part of a connection identifier that is compared: without the prefix and the channel.\<close>

definition mid :: "u8 list \<Rightarrow> u8 list" where
  "mid bs = take 14 (drop 1 bs)"

abbreviation is_active :: "nat \<Rightarrow> client_connections \<Rightarrow> bool" where
  "is_active i s \<equiv> elm_active (elms (clientConnect s) ! i)"

text \<open>What every active connection has.\<close>

definition conn_ok :: "u64 \<Rightarrow> nc_client_connection \<Rightarrow> bool" where
  "conn_ok maxRef c \<longleftrightarrow> length (conn_id c) = 16 \<and> conn_dtls c \<noteq> None
     \<and> ch_sock (currentChannel c) \<noteq> None \<and> ch_sock (alternativeChannel c) \<noteq> None
     \<and> connectionRef c \<noteq> 0 \<and> connectionRef c \<le> maxRef"

definition conns_inv :: "client_connections \<Rightarrow> bool" where
  "conns_inv s \<longleftrightarrow> length (elms (clientConnect s)) = 10
     \<and> (\<forall>i<10. is_active i s \<longrightarrow> conn_ok (dev_connectionRef s) (the_conn i s))
     \<and> (\<forall>i<10. \<forall>j<10. i \<noteq> j \<longrightarrow> is_active i s \<longrightarrow> is_active j s \<longrightarrow>
          mid (conn_id (the_conn i s)) \<noteq> mid (conn_id (the_conn j s))
          \<and> connectionRef (the_conn i s) \<noteq> connectionRef (the_conn j s))"

text \<open>
  The events of the connections. An event of a connection comes from its DTLS connection, its timer or
  its pending send and needs the connection to be active; a packet lies in the receive buffer.
\<close>

datatype conn_label =
    LPacket open_env udp_dispatch_ref np_udp_endpoint "u8 list" nat
  | LDtlsEvent nat bool np_dtls_srv_event
  | LData nat u8 u64 "u8 list"
  | LKeepAlive nat u32 u32
  | LKeepAliveSent nat
  | LSend nat u8 "u8 list" dtls_ref
  | LSent nat np_error_code
  | LClose nat
  | LCloseAll

fun conn_enabled :: "conn_label \<Rightarrow> client_connections \<Rightarrow> bool" where
  "conn_enabled (LPacket env sock ep buffer n) s \<longleftrightarrow> 16 \<le> n \<and> n \<le> length buffer \<and> 17 \<le> length buffer"
| "conn_enabled (LDtlsEvent i alpn ev) s \<longleftrightarrow> i < 10 \<and> is_active i s"
| "conn_enabled (LData i ch sq buf) s \<longleftrightarrow> i < 10 \<and> is_active i s \<and> buf \<noteq> []"
| "conn_enabled (LKeepAlive i r t) s \<longleftrightarrow> i < 10 \<and> is_active i s"
| "conn_enabled (LKeepAliveSent i) s \<longleftrightarrow> i < 10 \<and> is_active i s"
| "conn_enabled (LSend i ch buf cb) s \<longleftrightarrow> i < 10 \<and> is_active i s"
| "conn_enabled (LSent i ec) s \<longleftrightarrow> i < 10 \<and> is_active i s"
| "conn_enabled (LClose i) s \<longleftrightarrow> i < 10 \<and> is_active i s"
| "conn_enabled LCloseAll s \<longleftrightarrow> True"

fun conn_handle :: "conn_label \<Rightarrow> conn_act" where
  "conn_handle (LPacket env sock ep buffer n) s =
     obind (nc_client_connection_dispatch_handle_packet env sock ep buffer n s) (\<lambda>(s', b, out). Inr (s', out))"
| "conn_handle (LDtlsEvent i alpn ev) s = nc_client_connection_handle_event i alpn ev s"
| "conn_handle (LData i ch sq buf) s = nc_client_connection_handle_data i ch sq buf s"
| "conn_handle (LKeepAlive i r t) s = nc_client_connection_keep_alive_event i r t s"
| "conn_handle (LKeepAliveSent i) s = conn_keep_alive_packet_sent i s"
| "conn_handle (LSend i ch buf cb) s =
     obind (nc_client_connection_async_send_to_udp i ch buf cb s) (\<lambda>(ec, s', out). Inr (s', out))"
| "conn_handle (LSent i ec) s = nc_client_connection_send_to_udp_cb i ec s"
| "conn_handle (LClose i) s = nc_client_connection_close_connection i s"
| "conn_handle LCloseAll s =
     obind (nc_client_connection_dispatch_async_close s) (\<lambda>(ec, s', out). Inr (s', out))"

definition conn_step :: "conn_label \<Rightarrow> conn_act" where
  "conn_step l s = (if conn_enabled l s then conn_handle l s else emit [] s)"

definition conns_init :: client_connections where
  "conns_init = \<lparr>clientConnect = nc_client_connection_dispatch_init
     \<lparr>disp_pl = False, elms = [], disp_closeCb = False, disp_closing = False\<rparr>, dev_connectionRef = 0\<rparr>"

text \<open>A handler ends without a fault in a state that satisfies the invariant, after at most one new reference.\<close>

definition conns_after :: "client_connections \<Rightarrow> (client_connections \<times> 'o) outcome \<Rightarrow> bool" where
  "conns_after s r = (case r of Inl f \<Rightarrow> False | Inr (s', out) \<Rightarrow>
     conns_inv s' \<and> unat (dev_connectionRef s') \<le> Suc (unat (dev_connectionRef s)))"

text \<open>Calls that all succeed, and a packet buffer for the examples.\<close>

definition demo_open_env :: open_env where
  "demo_open_env = \<lparr>oe_keepAlive = NABTO_EC_OK, oe_completionEvent = NABTO_EC_OK, oe_createConnection = NABTO_EC_OK,
     oe_dtls = 1, oe_handlePacket = NABTO_EC_OK\<rparr>"

definition open_env_ok :: "open_env \<Rightarrow> bool" where
  "open_env_ok env \<longleftrightarrow> oe_keepAlive env = NABTO_EC_OK \<and> oe_completionEvent env = NABTO_EC_OK
     \<and> oe_createConnection env = NABTO_EC_OK"

definition demo_ep :: np_udp_endpoint where
  "demo_ep = \<lparr>ep_ip = ip_zero, ep_port = 5592\<rparr>"

text \<open>A packet that opens a connection on the channel \<open>ch\<close>.\<close>

definition demo_hello :: "u8 \<Rightarrow> u8 list" where
  "demo_hello ch = [240, 1, 2, 3, 4, 5, 6, 7, 8, 9, 10, 11, 12, 13, 14] @ [ch, 22]"

text \<open>A connection whose answer to a keep alive request waits for channel 1 while a packet on channel 2 arrives.\<close>

definition demo_channels :: "conn_label list" where
  "demo_channels =
     [LPacket demo_open_env 0 demo_ep (demo_hello 0) 17,
      LPacket demo_open_env 0 demo_ep (demo_hello 1) 17,
      LData 0 1 1 (AT_KEEP_ALIVE # CT_KEEP_ALIVE_REQUEST # replicate 16 7),
      LPacket demo_open_env 0 demo_ep (demo_hello 2) 17]"

definition demo_channels_state :: client_connections where
  "demo_channels_state = (case run_acts conn_step demo_channels conns_init of Inr (s, out) \<Rightarrow> s | Inl _ \<Rightarrow> conns_init)"

section \<open>The table of connections\<close>

lemma upd_elm_nth:
  "elms (clientConnect (upd_elm i f s)) ! j =
     (if i = j \<and> j < length (elms (clientConnect s)) then f (elms (clientConnect s) ! j) else elms (clientConnect s) ! j)"
  by (cases "i < length (elms (clientConnect s))"; cases "i = j") (simp_all add: upd_elm_def list_update_beyond)

lemma the_conn_set_conn [simp]:
  "i < length (elms (clientConnect s)) \<Longrightarrow> the_conn i (set_conn i c s) = c"
  "i \<noteq> j \<Longrightarrow> the_conn j (set_conn i c s) = the_conn j s"
  by (simp_all add: the_conn_def set_conn_def upd_elm_nth)

lemma the_conn_set_active [simp]: "the_conn j (set_active i b s) = the_conn j s"
  by (simp add: the_conn_def set_active_def upd_elm_nth)

lemma is_active_set [simp]:
  "is_active j (set_conn i c s) = is_active j s"
  "i < length (elms (clientConnect s)) \<Longrightarrow> is_active i (set_active i b s) = b"
  "i \<noteq> j \<Longrightarrow> is_active j (set_active i b s) = is_active j s"
  by (simp_all add: set_conn_def set_active_def upd_elm_nth)

lemma set_frame [simp]:
  "length (elms (clientConnect (set_conn i c s))) = length (elms (clientConnect s))"
  "length (elms (clientConnect (set_active i b s))) = length (elms (clientConnect s))"
  "dev_connectionRef (set_conn i c s) = dev_connectionRef s"
  "dev_connectionRef (set_active i b s) = dev_connectionRef s"
  "disp_closing (clientConnect (set_conn i c s)) = disp_closing (clientConnect s)"
  "disp_closing (clientConnect (set_active i b s)) = disp_closing (clientConnect s)"
  by (simp_all add: set_conn_def set_active_def upd_elm_def)

lemma conns_inv_length: "conns_inv s \<Longrightarrow> length (elms (clientConnect s)) = 10"
  by (simp add: conns_inv_def)

lemma conns_inv_active:
  "conns_inv s \<Longrightarrow> i < 10 \<Longrightarrow> is_active i s \<Longrightarrow> conn_ok (dev_connectionRef s) (the_conn i s)"
  by (simp add: conns_inv_def)

lemma conns_inv_set_conn:
  assumes "conns_inv s" "i < 10" "conn_ok (dev_connectionRef s) c"
    "conn_id c = conn_id (the_conn i s)" "connectionRef c = connectionRef (the_conn i s)"
  shows "conns_inv (set_conn i c s)"
proof -
  have the: "the_conn j (set_conn i c s) = (if i = j then c else the_conn j s)" for j
    using assms(1,2) by (simp add: conns_inv_length)
  show ?thesis
    using assms unfolding conns_inv_def the by auto
qed

lemma conns_inv_set_conn_inactive:
  assumes "conns_inv s" "\<not> is_active i s"
  shows "conns_inv (set_conn i c s)"
proof -
  have the: "is_active j s \<Longrightarrow> the_conn j (set_conn i c s) = the_conn j s" for j
    using assms(2) by (cases "i = j") auto
  show ?thesis
    using assms unfolding conns_inv_def by (simp add: the)
qed

lemma conns_inv_deactivate:
  assumes "conns_inv s"
  shows "conns_inv (set_active i False s)"
proof -
  have act: "j < 10 \<Longrightarrow> is_active j (set_active i False s) \<Longrightarrow> is_active j s" for j
    using assms by (cases "i = j") (simp_all add: conns_inv_length)
  show ?thesis
    using assms act unfolding conns_inv_def by (simp add: conns_inv_length)
qed

lemma conns_inv_frame:
  assumes "conns_inv s" "elms (clientConnect s') = elms (clientConnect s)" "dev_connectionRef s \<le> dev_connectionRef s'"
  shows "conns_inv s'"
  using assms by (fastforce simp: conns_inv_def the_conn_def conn_ok_def)

lemma conns_inv_activate:
  assumes "conns_inv s" "i < 10" "conn_ok (dev_connectionRef s) c"
    "\<And>j. j < 10 \<Longrightarrow> is_active j s \<Longrightarrow> i \<noteq> j \<Longrightarrow> mid (conn_id (the_conn j s)) \<noteq> mid (conn_id c)
       \<and> connectionRef (the_conn j s) \<noteq> connectionRef c"
  shows "conns_inv (set_active i True (set_conn i c s))"
proof -
  have the: "the_conn j (set_active i True (set_conn i c s)) = (if i = j then c else the_conn j s)" for j
    using assms(1,2) by (simp add: conns_inv_length)
  have act: "j < 10 \<Longrightarrow> is_active j (set_active i True (set_conn i c s)) = (i = j \<or> is_active j s)" for j
    using assms(1,2) by (cases "i = j") (simp_all add: conns_inv_length)
  have "mid (conn_id c) \<noteq> mid (conn_id (the_conn j s)) \<and> connectionRef c \<noteq> connectionRef (the_conn j s)"
    if "j < 10" "is_active j s" "i \<noteq> j" for j
    using assms(4) [OF that] by metis
  then show ?thesis
    using assms unfolding conns_inv_def the by (auto simp: act)
qed

section \<open>Finding a connection\<close>

lemma find_connection_cases:
  assumes "15 \<le> length buffer" "find_connection es k buffer = r"
  shows "(\<exists>i < length es. r = Inr (Some (k + i)) \<and> elm_active (es ! i) \<and> mid buffer = mid (conn_id (elm_conn (es ! i))))
    \<or> (r = Inr None \<and> (\<forall>i < length es. elm_active (es ! i) \<longrightarrow> mid buffer \<noteq> mid (conn_id (elm_conn (es ! i)))))"
  using assms
proof (induction es arbitrary: k)
  case (Cons e es)
  show ?case
  proof (cases "elm_active e \<and> mid buffer = mid (conn_id (elm_conn e))")
    case True
    with Cons.prems show ?thesis by (auto simp: mid_def)
  next
    case False
    with Cons.prems have "find_connection es (Suc k) buffer = r" by (auto simp: mid_def split: if_splits)
    from Cons.IH [OF Cons.prems(1) this] False show ?thesis
      by (auto simp: less_Suc_eq_0_disj)
  qed
qed auto

lemma find_free_cases:
  "(\<exists>i < length es. find_free es k = Some (k + i) \<and> \<not> elm_active (es ! i))
    \<or> (find_free es k = None \<and> (\<forall>i < length es. elm_active (es ! i)))"
proof (induction es arbitrary: k)
  case (Cons e es)
  from Cons [of "Suc k"] show ?case by (auto simp: less_Suc_eq_0_disj)
qed auto

lemma find_ref_hit:
  assumes "i < length es" "elm_active (es ! i)" "connectionRef (elm_conn (es ! i)) = ref"
    "\<And>j. j < length es \<Longrightarrow> elm_active (es ! j) \<Longrightarrow> connectionRef (elm_conn (es ! j)) = ref \<Longrightarrow> j = i"
  shows "find_ref es k ref = Some (k + i)"
  using assms
proof (induction es arbitrary: i k)
  case (Cons e es)
  show ?case
  proof (cases i)
    case 0
    with Cons.prems show ?thesis by simp
  next
    case (Suc i')
    have "\<not> (elm_active e \<and> connectionRef (elm_conn e) = ref)"
      using Cons.prems(4) [of 0] Suc by auto
    moreover have "find_ref es (Suc k) ref = Some (Suc k + i')"
    proof (rule Cons.IH)
      show "j = i'" if "j < length es" "elm_active (es ! j)" "connectionRef (elm_conn (es ! j)) = ref" for j
        using Cons.prems(4) [of "Suc j"] that Suc by auto
    qed (use Cons.prems Suc in auto)
    ultimately show ?thesis using Suc by auto
  qed
qed auto

section \<open>The handlers keep the invariant\<close>

named_theorems conn_defs \<open>the handlers of the connections\<close>

declare conns_after_def [conn_defs] emit_def [conn_defs] andThen_def [conn_defs] modify_def [conn_defs]

lemma after_set_conn:
  assumes "conns_inv s" "i < 10" "is_active i s" "conn_id c = conn_id (the_conn i s)"
    "connectionRef c = connectionRef (the_conn i s)" "conn_dtls c = conn_dtls (the_conn i s)"
    "ch_sock (currentChannel c) \<noteq> None" "ch_sock (alternativeChannel c) \<noteq> None"
  shows "conns_inv (set_conn i c s)"
  using conns_inv_set_conn [OF assms(1,2)] conns_inv_active [OF assms(1-3)] assms(4-) by (simp add: conn_ok_def)

lemma active_sock:
  assumes "conns_inv s" "i < 10" "is_active i s"
  shows "ch_sock (currentChannel (the_conn i s)) \<noteq> None" "ch_sock (alternativeChannel (the_conn i s)) \<noteq> None"
    "conn_dtls (the_conn i s) \<noteq> None" "length (conn_id (the_conn i s)) = 16" "i < length (elms (clientConnect s))"
  using conns_inv_active [OF assms] assms by (auto simp: conn_ok_def conns_inv_length)

lemma destroy_after:
  assumes "conns_inv s" "i < 10" "is_active i s"
  shows "conns_after s (nc_client_connection_destroy_connection i s)"
proof -
  obtain dtls where dtls: "conn_dtls (the_conn i s) = Some dtls"
    using active_sock [OF assms] by auto
  have "conns_inv (set_conn i conn_zero (set_active i False s))"
    using conns_inv_set_conn_inactive [OF conns_inv_deactivate [OF assms(1)]] active_sock(5) [OF assms] by simp
  then show ?thesis
    by (simp add: nc_client_connection_destroy_connection_def nc_client_connection_dispatch_close_connection_def
        nc_client_connection_dispatch_try_close_def Let_def dtls conn_defs)
qed

lemma close_after: "conns_inv s \<Longrightarrow> conns_after s (nc_client_connection_close_connection i s)"
  by (simp add: nc_client_connection_close_connection_def conn_defs split: option.split)

lemma keep_alive_start_after:
  assumes "conns_inv s" "i < 10" "is_active i s"
  shows "conns_after s (nc_client_connection_keep_alive_start i s)"
  using assms active_sock [OF assms]
  by (simp add: nc_client_connection_keep_alive_start_def nc_keep_alive_wait_def conn_defs after_set_conn)

lemma handle_event_after:
  assumes "conns_inv s" "i < 10" "is_active i s"
  shows "conns_after s (nc_client_connection_handle_event i alpn ev s)"
  using destroy_after [OF assms] close_after [OF assms(1), of i] keep_alive_start_after [OF assms]
  by (cases ev) (auto simp: nc_client_connection_handle_event_def nc_client_connection_dtls_closed_cb_def conn_defs
      obind_def split: sum.splits)

lemma send_req_after:
  assumes "conns_inv s" "i < 10" "is_active i s"
  shows "conns_after s (nc_client_connection_keep_alive_send_req i s)"
  using assms active_sock [OF assms]
  by (auto simp: nc_client_connection_keep_alive_send_req_def nc_keep_alive_create_request_def send_keep_alive_def
      Let_def conn_defs after_set_conn)

lemma send_response_after:
  assumes "conns_inv s" "i < 10" "is_active i s"
  shows "conns_after s (nc_client_connection_keep_alive_send_response i ch buf s)"
  using assms active_sock [OF assms]
  by (auto simp: nc_client_connection_keep_alive_send_response_def nc_keep_alive_handle_request_def send_keep_alive_def
      Let_def conn_defs after_set_conn)

lemma conns_after_andThen:
  assumes "conns_after s (f s)"
    "\<And>s1 o1. f s = Inr (s1, o1) \<Longrightarrow> conns_inv s1 \<Longrightarrow> conns_after s1 (g s1) \<and>
       dev_connectionRef s1 = dev_connectionRef s"
  shows "conns_after s (andThen f g s)"
proof -
  obtain s1 o1 where f: "f s = Inr (s1, o1)" "conns_inv s1"
    using assms(1) by (auto simp: conns_after_def split: sum.splits)
  from assms(2) [OF this] have "conns_after s1 (g s1)" "dev_connectionRef s1 = dev_connectionRef s"
    by auto
  with f show ?thesis
    by (auto simp: conns_after_def andThen_def split: sum.splits)
qed

lemma send_req_frame:
  assumes "nc_client_connection_keep_alive_send_req i s = Inr (s1, o1)"
  shows "is_active j s1 = is_active j s" "dev_connectionRef s1 = dev_connectionRef s"
  using assms
  by (auto simp: nc_client_connection_keep_alive_send_req_def nc_keep_alive_create_request_def send_keep_alive_def
      Let_def emit_def obind_eq_Inr_iff)

lemma keep_alive_event_after:
  assumes "conns_inv s" "i < 10" "is_active i s"
  shows "conns_after s (nc_client_connection_keep_alive_event i r t s)"
proof -
  obtain action ka where a: "nc_keep_alive_should_send (conn_keepAlive (the_conn i s)) r t = (action, ka)"
    by fastforce
  define s' where "s' = set_conn i ((the_conn i s)\<lparr>conn_keepAlive := ka\<rparr>) s"
  have inv: "conns_inv s'" "is_active i s'" "dev_connectionRef s' = dev_connectionRef s"
    using assms active_sock [OF assms] by (simp_all add: s'_def after_set_conn)
  have two: "conns_after s'
      (andThen (nc_client_connection_keep_alive_send_req i) (nc_client_connection_keep_alive_start i) s')"
  proof (rule conns_after_andThen)
    show "conns_after s' (nc_client_connection_keep_alive_send_req i s')"
      by (rule send_req_after [OF inv(1) assms(2) inv(2)])
  next
    fix s1 o1
    assume s1: "nc_client_connection_keep_alive_send_req i s' = Inr (s1, o1)" "conns_inv s1"
    show "conns_after s1 (nc_client_connection_keep_alive_start i s1) \<and> dev_connectionRef s1 = dev_connectionRef s'"
      using keep_alive_start_after [OF s1(2) assms(2)] send_req_frame [OF s1(1)] inv(2) by simp
  qed
  have "conns_after s' (nc_client_connection_keep_alive_event i r t s)"
    using two keep_alive_start_after [OF inv(1) assms(2) inv(2)] close_after [OF inv(1)]
    by (simp add: nc_client_connection_keep_alive_event_def a s'_def [symmetric] split: nc_keep_alive_action.split)
  then show ?thesis
    using inv(3) by (auto simp: conns_after_def split: sum.splits)
qed

lemma keep_alive_sent_after:
  assumes "conns_inv s" "i < 10" "is_active i s"
  shows "conns_after s (conn_keep_alive_packet_sent i s)"
  using assms active_sock [OF assms] by (simp add: conn_keep_alive_packet_sent_def conn_defs after_set_conn)

lemma switch_channel_after:
  assumes "conns_inv s" "i < 10" "is_active i s"
  shows "conns_after s (switch_channel i ch sq s)"
  using assms active_sock [OF assms] by (simp add: switch_channel_def Let_def conn_defs after_set_conn)

lemma switch_channel_frame:
  assumes "switch_channel i ch sq s = Inr (s1, o1)"
  shows "is_active j s1 = is_active j s" "dev_connectionRef s1 = dev_connectionRef s"
  using assms by (auto simp: switch_channel_def Let_def emit_def split: if_splits)

lemma dispatch_data_after:
  assumes "conns_inv s" "i < 10" "is_active i s"
  shows "conns_after s (dispatch_data i ty ch buf s)"
  using send_response_after [OF assms] assms(1)
  by (simp add: dispatch_data_def nc_client_connection_handle_keep_alive_def conns_after_def emit_def)

lemma handle_data_after:
  assumes "conns_inv s" "i < 10" "is_active i s" "buf \<noteq> []"
  shows "conns_after s (nc_client_connection_handle_data i ch sq buf s)"
proof -
  have "conns_after s (andThen (if ty then switch_channel i ch sq else emit [])
      (dispatch_data i (buf ! 0) ch buf) s)" for ty
  proof (rule conns_after_andThen)
    show "conns_after s ((if ty then switch_channel i ch sq else emit []) s)"
      using switch_channel_after [OF assms(1-3)] assms(1) by (simp add: conns_after_def emit_def)
  next
    fix s1 o1
    assume s1: "(if ty then switch_channel i ch sq else emit []) s = Inr (s1, o1)" "conns_inv s1"
    then have "is_active i s1" "dev_connectionRef s1 = dev_connectionRef s"
      using switch_channel_frame [of i ch sq s s1 o1] assms(3) by (auto simp: emit_def split: if_splits)
    then show "conns_after s1 (dispatch_data i (buf ! 0) ch buf s1) \<and> dev_connectionRef s1 = dev_connectionRef s"
      using dispatch_data_after [OF s1(2) assms(2)] by simp
  qed
  then show ?thesis
    using assms(4) by (simp add: nc_client_connection_handle_data_def)
qed

lemma send_to_udp_after:
  assumes "conns_inv s" "i < 10" "is_active i s"
  shows "conns_after s (conn_handle (LSend i ch buf cb) s)"
  using assms active_sock [OF assms]
  by (auto simp: nc_client_connection_async_send_to_udp_def send_on_channel_def Let_def conn_defs after_set_conn)

lemma sent_after:
  assumes "conns_inv s" "i < 10" "is_active i s"
  shows "conns_after s (nc_client_connection_send_to_udp_cb i ec s)"
  using assms active_sock [OF assms]
  by (simp add: nc_client_connection_send_to_udp_cb_def conn_defs after_set_conn split: option.split)

lemma close_active_total: "\<exists>out. close_active is s = Inr (s, out)"
  by (induction "is") (auto simp: emit_def andThen_def nc_client_connection_close_connection_def split: option.split)

lemma close_all_after:
  assumes "conns_inv s"
  shows "conns_after s (conn_handle LCloseAll s)"
proof -
  define s1 where "s1 = s\<lparr>clientConnect := (clientConnect s)\<lparr>disp_closing := True\<rparr>\<rparr>"
  obtain out where "close_active [0..<NABTO_MAX_CLIENT_CONNECTIONS] s1 = Inr (s1, out)"
    using close_active_total by blast
  then show ?thesis
    using conns_inv_frame [OF assms, of s1]
      conns_inv_frame [OF assms, of "s1\<lparr>clientConnect := (clientConnect s1)\<lparr>disp_closeCb := True\<rparr>\<rparr>"]
    by (auto simp: nc_client_connection_dispatch_async_close_def s1_def [symmetric] conns_after_def)
      (simp_all add: s1_def)
qed

section \<open>Packets\<close>

lemma strip_header_ok:
  "16 \<le> n \<Longrightarrow> n \<le> length buffer \<Longrightarrow> \<exists>b. strip_header buffer n = Inr b"
  by (simp add: strip_header_def)

lemma handle_packet_total:
  assumes "conns_inv s" "i < 10" "is_active i s" "16 \<le> n" "n \<le> length buffer" "17 \<le> length buffer"
  shows "\<exists>s' b out. nc_client_connection_handle_packet i sock ep buffer n s = Inr (s', b, out)
    \<and> conns_inv s' \<and> dev_connectionRef s' = dev_connectionRef s"
proof -
  obtain b where b: "strip_header buffer n = Inr b"
    using strip_header_ok assms by blast
  obtain dtls where dtls: "conn_dtls (the_conn i s) = Some dtls"
    using active_sock [OF assms(1-3)] by auto
  have inv: "conns_inv (set_conn i ((the_conn i s)\<lparr>alternativeChannel := \<lparr>ch_sock = Some sock, ch_ep = ep, ch_channelId = ch\<rparr>\<rparr>) s)"
    "conns_inv (set_conn i ((the_conn i s)\<lparr>currentChannel := (currentChannel (the_conn i s))\<lparr>ch_ep := ep, ch_sock := Some sock\<rparr>\<rparr>) s)" for ch
    using active_sock [OF assms(1-3)] by (auto intro: after_set_conn [OF assms(1-3)])
  have rd: "rd buffer 0 = Inr (buffer ! 0)" "rd buffer 15 = Inr (buffer ! 15)" "rd buffer 16 = Inr (buffer ! 16)"
    using assms(6) by (auto simp: rd_def)
  show ?thesis
    using assms(1) inv by (simp add: nc_client_connection_handle_packet_def Let_def rd b dtls)
qed

lemma next_ref_cases:
  "nc_device_next_connection_ref s = (r, s') \<Longrightarrow>
     clientConnect s' = clientConnect s \<and> dev_connectionRef s' = dev_connectionRef s + 1
     \<and> (r = None \<or> r = Some (dev_connectionRef s + 1))"
  by (auto simp: nc_device_next_connection_ref_def Let_def split: if_splits)

lemma no_wrap:
  fixes r :: u64
  assumes "Suc (unat r) < 2 ^ 64"
  shows "unat (r + 1) = Suc (unat r)" "r < r + 1" "r \<le> r + 1" "r + 1 \<noteq> 0"
proof -
  show *: "unat (r + 1) = Suc (unat r)"
    using assms by (simp add: unat_word_ariths)
  then show "r < r + 1" by (simp add: word_less_nat_alt)
  then show "r \<le> r + 1" by simp
  show "r + 1 \<noteq> 0" using * by auto
qed

lemma next_ref_no_wrap:
  "Suc (unat (dev_connectionRef s)) < 2 ^ 64 \<Longrightarrow>
     nc_device_next_connection_ref s = (Some (dev_connectionRef s + 1), s\<lparr>dev_connectionRef := dev_connectionRef s + 1\<rparr>)"
  using no_wrap(3) [of "dev_connectionRef s"] by (simp add: nc_device_next_connection_ref_def Let_def linorder_not_less)

text \<open>An opened connection has the identifier of the packet and the next reference.\<close>

lemma open_total:
  assumes "16 \<le> n" "n \<le> length buffer" "Suc (unat (dev_connectionRef s)) < 2 ^ 64"
  shows "\<exists>ec c b out. nc_client_connection_open env i sock ep buffer n s
      = Inr (ec, set_conn i c (s\<lparr>dev_connectionRef := dev_connectionRef s + 1\<rparr>), b, out)
    \<and> (ec = NABTO_EC_OK \<longrightarrow> conn_id c = take 16 buffer \<and> connectionRef c = dev_connectionRef s + 1
         \<and> conn_ok (dev_connectionRef s + 1) c)"
proof -
  obtain b where b: "strip_header buffer n = Inr b"
    using strip_header_ok assms by blast
  have len: "\<not> length buffer < 16" "length (take 16 buffer) = 16" using assms by simp_all
  show ?thesis
    using len(2) no_wrap(4) [OF assms(3)]
    by (auto simp: nc_client_connection_open_def len(1) next_ref_no_wrap [OF assms(3)] nc_keep_alive_init_def b Let_def
        conn_ok_def conn_zero_def)
qed

lemma dispatch_packet_after:
  assumes "conns_inv s" "16 \<le> n" "n \<le> length buffer" "17 \<le> length buffer" "Suc (unat (dev_connectionRef s)) < 2 ^ 64"
  shows "conns_after s (conn_handle (LPacket env sock ep buffer n) s)"
proof -
  note len = conns_inv_length [OF assms(1)]
  consider (known) i where "find_connection (elms (clientConnect s)) 0 buffer = Inr (Some i)" "i < 10" "is_active i s"
    | (new) "find_connection (elms (clientConnect s)) 0 buffer = Inr None"
        "\<forall>i<10. is_active i s \<longrightarrow> mid buffer \<noteq> mid (conn_id (the_conn i s))"
    using find_connection_cases [of buffer "elms (clientConnect s)" 0] assms(4) len by (auto simp: the_conn_def)
  then show ?thesis
  proof cases
    case known
    from handle_packet_total [OF assms(1) known(2,3) assms(2-4), of sock ep] known(1) show ?thesis
      by (auto simp: nc_client_connection_dispatch_handle_packet_def conns_after_def)
  next
    case new
    show ?thesis
    proof (cases "buffer ! 16 = 22 \<and> find_free (elms (clientConnect s)) 0 \<noteq> None")
      case False
      with new(1) assms show ?thesis
        by (auto simp: nc_client_connection_dispatch_handle_packet_def conns_after_def split: option.split)
    next
      case True
      then obtain i where i: "find_free (elms (clientConnect s)) 0 = Some i" "i < 10" "\<not> is_active i s"
        using find_free_cases [of "elms (clientConnect s)" 0] len by auto
      define s1 where "s1 = s\<lparr>dev_connectionRef := dev_connectionRef s + 1\<rparr>"
      obtain ec c b out where op: "nc_client_connection_open env i sock ep buffer n s = Inr (ec, set_conn i c s1, b, out)"
          "ec = NABTO_EC_OK \<longrightarrow> conn_id c = take 16 buffer \<and> connectionRef c = dev_connectionRef s + 1
             \<and> conn_ok (dev_connectionRef s + 1) c"
        using open_total [OF assms(2,3,5), of env i sock ep] unfolding s1_def by blast
      have s1: "conns_inv s1" "\<not> is_active i s1"
        using conns_inv_frame [OF assms(1), of s1] no_wrap(3) [OF assms(5)] i by (simp_all add: s1_def)
      have "conns_inv (set_active i True (set_conn i c s1))" if "ec = NABTO_EC_OK"
      proof (rule conns_inv_activate [OF s1(1) i(2)])
        show "conn_ok (dev_connectionRef s1) c" using op(2) that by (simp add: s1_def)
      next
        fix j assume j: "j < 10" "is_active j s1" "i \<noteq> j"
        then have "connectionRef (the_conn j s) \<le> dev_connectionRef s" "the_conn j s1 = the_conn j s"
          using conns_inv_active [OF assms(1) j(1)] by (simp_all add: s1_def conn_ok_def the_conn_def)
        moreover have "mid (take 16 buffer) = mid buffer" by (simp add: mid_def drop_take)
        ultimately show "mid (conn_id (the_conn j s1)) \<noteq> mid (conn_id c) \<and> connectionRef (the_conn j s1) \<noteq> connectionRef c"
          using op(2) that new(2) j no_wrap(2) [OF assms(5)] by (auto simp: s1_def)
      qed
      moreover have "conns_inv (set_conn i c s1)"
        by (rule conns_inv_set_conn_inactive [OF s1])
      ultimately have inv: "ec = NABTO_EC_OK \<longrightarrow> conns_inv (set_active i True (set_conn i c s1))"
          "conns_inv (set_conn i c s1)"
        by simp_all
      with True new(1) i(1) op(1) assms(4) no_wrap(1) [OF assms(5)] show ?thesis
        by (simp add: nc_client_connection_dispatch_handle_packet_def conns_after_def s1_def)
    qed
  qed
qed

lemma conn_step_after:
  assumes "conns_inv s" "Suc (unat (dev_connectionRef s)) < 2 ^ 64"
  shows "conns_after s (conn_step l s)"
proof (cases "conn_enabled l s")
  case True
  note lems = assms(1) handle_event_after handle_data_after keep_alive_event_after keep_alive_sent_after
    sent_after close_after
  from True show ?thesis
  proof (cases l)
    case (LPacket env sock ep buffer n)
    with True assms show ?thesis
      by (simp add: conn_step_def del: conn_handle.simps) (rule dispatch_packet_after, simp_all)
  next
    case (LSend i ch buf cb)
    with True assms show ?thesis
      by (simp add: conn_step_def send_to_udp_after del: conn_handle.simps)
  next
    case LCloseAll
    with True assms show ?thesis
      by (simp add: conn_step_def close_all_after del: conn_handle.simps)
  qed (simp_all add: conn_step_def lems)
qed (use assms in \<open>simp add: conn_step_def conns_after_def emit_def\<close>)

lemma conn_run_inv:
  assumes "conns_inv s" "unat (dev_connectionRef s) + length ls < 2 ^ 64"
  shows "\<exists>s' out. run_acts conn_step ls s = Inr (s', out) \<and> conns_inv s'"
  using assms
proof (induction ls arbitrary: s)
  case (Cons l ls)
  have "conns_after s (conn_step l s)"
    using conn_step_after [OF Cons.prems(1)] Cons.prems(2) by simp
  then obtain s1 o1 where s1: "conn_step l s = Inr (s1, o1)" "conns_inv s1"
      "unat (dev_connectionRef s1) \<le> Suc (unat (dev_connectionRef s))"
    by (auto simp: conns_after_def split: sum.splits)
  with Cons.IH [OF s1(2)] Cons.prems(2) show ?case
    by (auto simp: andThen_def)
qed auto

lemma conns_init_inv: "conns_inv conns_init"
  by (simp add: conns_inv_def conns_init_def nc_client_connection_dispatch_init_def NABTO_MAX_CLIENT_CONNECTIONS_def)

lemma conns_inv_lookup:
  assumes "conns_inv s" "i < 10" "is_active i s"
  shows "nc_client_connection_dispatch_connection_from_ref s (connectionRef (the_conn i s)) = Some i"
    "15 \<le> length buffer \<Longrightarrow> mid buffer = mid (conn_id (the_conn i s)) \<Longrightarrow>
       find_connection (elms (clientConnect s)) 0 buffer = Inr (Some i)"
proof -
  have uniq: "j = i" if "j < 10" "is_active j s"
    "connectionRef (the_conn j s) = connectionRef (the_conn i s) \<or> mid (conn_id (the_conn j s)) = mid (conn_id (the_conn i s))" for j
    using assms that unfolding conns_inv_def by metis
  show "nc_client_connection_dispatch_connection_from_ref s (connectionRef (the_conn i s)) = Some i"
    unfolding nc_client_connection_dispatch_connection_from_ref_def
    using find_ref_hit [of i "elms (clientConnect s)" "connectionRef (the_conn i s)" 0] assms uniq
    by (simp add: conns_inv_length [OF assms(1)] the_conn_def)
  show "find_connection (elms (clientConnect s)) 0 buffer = Inr (Some i)"
    if "15 \<le> length buffer" "mid buffer = mid (conn_id (the_conn i s))"
    using find_connection_cases [OF that(1), of "elms (clientConnect s)" 0] assms that(2) uniq
    by (auto simp: conns_inv_length [OF assms(1)] the_conn_def)
qed

text \<open>
  C8. Over any sequence of packets, DTLS events, data, timer ticks, sends and closes, the table of client
  connections never faults on packets that hold the connection header, and its connections are kept apart:
  a reference and a connection identifier each lead to exactly the active connection that has them, as long as
  the 64 bit counter of references does not wrap around.
\<close>

theorem client_connections_kept_apart:
  assumes "length ls < 2 ^ 64"
  shows "\<exists>s out. run_acts conn_step ls conns_init = Inr (s, out) \<and>
    (\<forall>i<10. is_active i s \<longrightarrow>
       nc_client_connection_dispatch_connection_from_ref s (connectionRef (the_conn i s)) = Some i \<and>
       (\<forall>buffer. 15 \<le> length buffer \<longrightarrow> mid buffer = mid (conn_id (the_conn i s)) \<longrightarrow>
          find_connection (elms (clientConnect s)) 0 buffer = Inr (Some i)))"
proof -
  have "unat (dev_connectionRef conns_init) = 0" by (simp add: conns_init_def)
  with assms conn_run_inv [OF conns_init_inv, of ls] conns_inv_lookup show ?thesis by auto
qed

section \<open>Packets without the connection header\<close>

lemma short_packet_handle:
  assumes "n < 16" "17 \<le> length buffer"
  shows "nc_client_connection_handle_packet i sock ep buffer n s = Inl OutOfBounds"
  using assms by (simp add: nc_client_connection_handle_packet_def strip_header_def Let_def)

lemma short_packet_open:
  assumes "n < 16" "17 \<le> length buffer" "open_env_ok env" "Suc (unat (dev_connectionRef s)) < 2 ^ 64"
  shows "nc_client_connection_open env i sock ep buffer n s = Inl OutOfBounds"
  using assms by (simp add: nc_client_connection_open_def strip_header_def Let_def next_ref_no_wrap nc_keep_alive_init_def
      open_env_ok_def)

text \<open>
  C10. The dispatch of a packet for client connections accesses memory outside the receive buffer exactly when the packet is
  shorter than the connection header and either the bytes in the buffer name an active connection, or byte 16 of the
  buffer, which such a packet does not have, is left over from an earlier packet as a handshake type while a
  connection is free. The length of a packet is never checked before the header is removed.
\<close>

theorem short_packet_faults_iff:
  assumes "conns_inv s" "n \<le> length buffer" "17 \<le> length buffer" "open_env_ok env"
    "Suc (unat (dev_connectionRef s)) < 2 ^ 64"
  shows "nc_client_connection_dispatch_handle_packet env sock ep buffer n s = Inl OutOfBounds \<longleftrightarrow>
    n < 16 \<and> ((\<exists>i<10. is_active i s \<and> mid buffer = mid (conn_id (the_conn i s)))
      \<or> (buffer ! 16 = 22 \<and> (\<exists>i<10. \<not> is_active i s)))"
proof (cases "n < 16")
  case False
  have "conns_after s (conn_handle (LPacket env sock ep buffer n) s)"
    using dispatch_packet_after [of s n buffer env sock ep] assms False by simp
  with False show ?thesis
    by (auto simp: conns_after_def)
next
  case True
  note len = conns_inv_length [OF assms(1)]
  have free: "(\<exists>i<10. \<not> is_active i s) \<longleftrightarrow> find_free (elms (clientConnect s)) 0 \<noteq> None"
    using find_free_cases [of "elms (clientConnect s)" 0] by (auto simp: len)
  consider (known) i where "find_connection (elms (clientConnect s)) 0 buffer = Inr (Some i)" "i < 10" "is_active i s"
      "mid buffer = mid (conn_id (the_conn i s))"
    | (new) "find_connection (elms (clientConnect s)) 0 buffer = Inr None"
        "\<forall>i<10. is_active i s \<longrightarrow> mid buffer \<noteq> mid (conn_id (the_conn i s))"
    using find_connection_cases [of buffer "elms (clientConnect s)" 0] assms(3) len by (auto simp: the_conn_def)
  then show ?thesis
  proof cases
    case known
    with True assms(3) show ?thesis
      by (auto simp: nc_client_connection_dispatch_handle_packet_def short_packet_handle)
  next
    case new
    with True assms(3) short_packet_open [OF True assms(3-5)] free show ?thesis
      by (auto simp: nc_client_connection_dispatch_handle_packet_def split: option.split)
  qed
qed

text \<open>
  Two datagrams reach that: the first is not dispatched to any module and stays in the buffer, the second has
  a single byte.
\<close>

theorem short_packet_faults_iff_witness:
  "run_acts (\<lambda>data. async_recv_wait_complete demo_open_env 0 NABTO_EC_OK NABTO_EC_OK demo_ep data)
     [replicate 16 100 @ [22], [240]]
     (\<lparr>ud_pl = True, cliConn = True, ud_attacher = True, ud_stun = True, recvBuffer = replicate 1500 0\<rparr>, conns_init)
   = Inl OutOfBounds"
proof -
  define buf where "buf = 240 # replicate 15 100 @ 22 # replicate 1483 (0::u8)"
  have "replicate (1500::nat) (0::u8) = replicate 17 0 @ replicate 1483 0"
    by (simp add: replicate_add [symmetric])
  then have first: "memcpy (replicate 1500 (0::u8)) (replicate 16 100 @ [22]) = Inr (replicate 16 100 @ 22 # replicate 1483 0)"
    by (simp add: memcpy_def)
  have "replicate (16::nat) (100::u8) = 100 # replicate 15 100"
    by (simp add: numeral_eq_Suc)
  then have second: "memcpy (replicate 16 100 @ 22 # replicate 1483 0) [240] = Inr buf"
    by (simp add: memcpy_def buf_def)
  have buf: "length buf = 1500" "buf ! 0 = 240" "buf ! 16 = 22"
    by (simp_all add: buf_def nth_append)
  have free: "\<exists>i<10. \<not> is_active i conns_init"
    by (rule exI [of _ 0]) (simp add: conns_init_def nc_client_connection_dispatch_init_def NABTO_MAX_CLIENT_CONNECTIONS_def)
  have "dev_connectionRef conns_init = 0" "open_env_ok demo_open_env"
    by (simp_all add: conns_init_def open_env_ok_def demo_open_env_def)
  then have "nc_client_connection_dispatch_handle_packet demo_open_env 0 demo_ep buf 1 conns_init = Inl OutOfBounds"
    using short_packet_faults_iff [OF conns_init_inv, of 1 buf demo_open_env 0 demo_ep] buf free by simp
  note dispatch = this
  define ctx where "ctx b = \<lparr>ud_pl = True, cliConn = True, ud_attacher = True, ud_stun = True, recvBuffer = b\<rparr>" for b
  note defs = async_recv_wait_complete_def nc_udp_dispatch_handle_packet_def udp_dispatch_target_def andThen_def
    start_recv_def emit_def ctx_def
  have "(replicate 16 100 @ 22 # replicate 1483 0) ! 0 = (100::u8)"
    by (simp add: nth_append)
  then have one: "async_recv_wait_complete demo_open_env 0 NABTO_EC_OK NABTO_EC_OK demo_ep (replicate 16 100 @ [22])
      (ctx (replicate 1500 0), conns_init) = Inr ((ctx (replicate 16 100 @ 22 # replicate 1483 0), conns_init), [AsyncRecvWait])"
    using first by (simp add: defs)
  have two: "async_recv_wait_complete demo_open_env 0 NABTO_EC_OK NABTO_EC_OK demo_ep [240]
      (ctx (replicate 16 100 @ 22 # replicate 1483 0), conns_init) = Inl OutOfBounds"
    using second dispatch buf by (simp add: defs)
  from one two show ?thesis
    by (simp add: andThen_def ctx_def [symmetric])
qed

section \<open>Sending\<close>

lemma strip_sent:
  "length h = 15 \<Longrightarrow> strip_header (h @ c # b) (length (h @ c # b)) = Inr (b @ drop (length b) (h @ c # b))"
  by (simp add: strip_header_def)


lemma demo_channels_inv: "conns_inv demo_channels_state"
  using conn_run_inv [OF conns_init_inv, of demo_channels]
  by (auto simp: demo_channels_state_def demo_channels_def conns_init_def)

lemma demo_channels_facts:
  "is_active 0 demo_channels_state" "sentCb (the_conn 0 demo_channels_state) = None"
  "ch_channelId (currentChannel (the_conn 0 demo_channels_state)) = 0"
  "ch_channelId (alternativeChannel (the_conn 0 demo_channels_state)) = 2"
  by code_simp+


theorem client_connections_kept_apart_witness:
  "nc_client_connection_dispatch_connection_from_ref demo_channels_state 1 = Some 0"
proof -
  obtain s out where s: "run_acts conn_step demo_channels conns_init = Inr (s, out)"
    "\<forall>i<10. is_active i s \<longrightarrow>
       nc_client_connection_dispatch_connection_from_ref s (connectionRef (the_conn i s)) = Some i"
    using client_connections_kept_apart [of demo_channels] by (auto simp: demo_channels_def)
  then have "s = demo_channels_state" by (simp add: demo_channels_state_def)
  moreover have "connectionRef (the_conn 0 demo_channels_state) = 1" by code_simp
  ultimately show ?thesis using s(2) demo_channels_facts(1) by force
qed

end
