(* ===== verification/NmMbedtls.thy ===== *)
theory NmMbedtls
  imports NcClientConnection NnLib
begin

text \<open>
  The DTLS server connections (\<^verbatim>\<open>src/modules/mbedtls/nm_mbedtls_srv.c\<close>), the DTLS client
  (\<^verbatim>\<open>src/modules/mbedtls/nm_mbedtls_cli.c\<close>) and their timer (\<^verbatim>\<open>src/modules/mbedtls/nm_mbedtls_timer.c\<close>).
  The library \<^verbatim>\<open>mbedtls\<close> and the linked lists are not part of the repository. A call of the library is a record of what it
  does to the module: the packets it hands to the send function, whether it takes the received packet,
  and what it returns. Callbacks into other modules are outputs.
\<close>

section \<open>Calls of the library\<close>

datatype sslState = CONNECTING | DATA | CLOSING

text \<open>
  The results the modules tell apart: a count that is not negative, and the errors by name.
  \<open>SSL_ALERT_ACCESS_DENIED\<close> is the fatal alert whose second byte is that of an access denied.
\<close>

datatype ssl_ret =
    SSL_COUNT nat | SSL_WANT_READ | SSL_WANT_WRITE | SSL_TIMEOUT | SSL_PEER_CLOSE_NOTIFY
  | SSL_BAD_INPUT_DATA | SSL_ALERT_ACCESS_DENIED | SSL_ERROR

text \<open>
  \<open>call_sends\<close> are the packets in the order they are handed to the send function, each with the code the
  sender of the connection would return for it. \<open>call_in_ctr\<close> are the eight bytes of the counter of the
  record that was read.
\<close>

record ssl_call =
  call_sends :: "(u8 list \<times> np_error_code) list"
  call_reads :: bool
  call_ret :: ssl_ret
  call_data :: "u8 list"
  call_in_ctr :: "u8 list"

text \<open>The eight bytes as an integer of the host, which has the least significant byte first.\<close>

definition host_uint64 :: "u8 list \<Rightarrow> u64" where
  "host_uint64 bs = foldr (\<lambda>b acc. ucast b OR push_bit 8 acc) bs 0"

definition NABTO_COMMUNICATION_BUFFER_LENGTH :: nat where "NABTO_COMMUNICATION_BUFFER_LENGTH = 1500"

section \<open>Server connections\<close>

text \<open>The callback of a send context with its data is a number; \<open>None\<close> is the null pointer.\<close>

record np_dtls_srv_send_context =
  send_buffer :: "u8 list"
  send_channelId :: u8
  send_cb :: "nat option"

record 'l np_dtls_srv_connection =
  srv_state :: sslState
  srv_currentChannelId :: u8
  srv_recvBuffer :: "u8 list"
  srv_sslSendBufferSize :: nat
  srv_closeCb :: bool
  srv_recvCount :: u32
  srv_sentCount :: u32
  srv_sendList :: 'l
  srv_deferredEvent :: np_dtls_srv_event
  srv_sending :: bool
  srv_channelId :: u8

datatype srv_event_ref = StartSendEvent | DeferredEventEvent | CloseEv

datatype srv_output =
    SrvSender u8 "u8 list"
  | SrvDataHandler u8 u64 "u8 list"
  | SrvEventHandler np_dtls_srv_event
  | SrvCloseCallback np_error_code
  | SrvSendCallback nat np_error_code
  | SrvTimerCancel
  | SrvPost srv_event_ref
  | SrvPostMaybeDouble srv_event_ref
  | SrvCancel srv_event_ref
  | SrvFree

type_synonym 'l srv_act = "('l np_dtls_srv_connection, srv_output) act"

text \<open>The connection that is created when all the calls that create its parts succeed.\<close>

definition nm_mbedtls_srv_create_connection ::
    "('l, np_dtls_srv_send_context) nn_llist \<Rightarrow> 'l np_dtls_srv_connection" where
  "nm_mbedtls_srv_create_connection L =
     \<lparr>srv_state = CONNECTING, srv_currentChannelId = 0, srv_recvBuffer = [], srv_sslSendBufferSize = 0,
      srv_closeCb = False, srv_recvCount = 0, srv_sentCount = 0, srv_sendList = ll_init L,
      srv_deferredEvent = NP_DTLS_SRV_EVENT_CLOSED, srv_sending = False,
      srv_channelId = NP_DTLS_SRV_DEFAULT_CHANNEL_ID\<rparr>"

definition nm_mbedtls_srv_get_packet_count :: "'l np_dtls_srv_connection \<Rightarrow> u32 \<times> u32" where
  "nm_mbedtls_srv_get_packet_count ctx = (srv_recvCount ctx, srv_sentCount ctx)"

definition nm_mbedtls_srv_mbedtls_send :: "u8 list \<Rightarrow> np_error_code \<Rightarrow> 'l srv_act" where
  "nm_mbedtls_srv_mbedtls_send buffer ec ctx =
     (if srv_sending ctx then emit [] ctx
      else if length buffer > NABTO_COMMUNICATION_BUFFER_LENGTH then Inl OutOfBounds
      else if ec \<noteq> NABTO_EC_OK then
        emit [SrvSender (srv_channelId ctx) buffer] (ctx\<lparr>srv_sending := False, srv_sslSendBufferSize := 0\<rparr>)
      else
        emit [SrvSender (srv_channelId ctx) buffer]
          (ctx\<lparr>srv_sending := True, srv_sslSendBufferSize := length buffer\<rparr>))"

fun srv_sends :: "(u8 list \<times> np_error_code) list \<Rightarrow> 'l srv_act" where
  "srv_sends [] ctx = emit [] ctx"
| "srv_sends ((buffer, ec) # ps) ctx = andThen (nm_mbedtls_srv_mbedtls_send buffer ec) (srv_sends ps) ctx"

text \<open>What a call of the library does before it returns.\<close>

definition srv_ssl_call :: "ssl_call \<Rightarrow> 'l srv_act" where
  "srv_ssl_call call ctx =
     srv_sends (call_sends call) (if call_reads call then ctx\<lparr>srv_recvBuffer := []\<rparr> else ctx)"

definition deferred_event_callback :: "np_dtls_srv_event \<Rightarrow> 'l srv_act" where
  "deferred_event_callback event ctx =
     emit [SrvPost DeferredEventEvent] (ctx\<lparr>srv_deferredEvent := event\<rparr>)"

definition srv_close_deferred :: "'l srv_act" where
  "srv_close_deferred ctx = deferred_event_callback NP_DTLS_SRV_EVENT_CLOSED (ctx\<lparr>srv_state := CLOSING\<rparr>)"

definition srv_handshake_done :: "ssl_ret \<Rightarrow> 'l srv_act" where
  "srv_handshake_done ret ctx =
     (case ret of
        SSL_WANT_READ \<Rightarrow> emit [] ctx
      | SSL_WANT_WRITE \<Rightarrow> emit [] ctx
      | SSL_COUNT n \<Rightarrow>
          if n = 0 then deferred_event_callback NP_DTLS_SRV_EVENT_HANDSHAKE_COMPLETE (ctx\<lparr>srv_state := DATA\<rparr>)
          else andThen (emit [SrvTimerCancel]) srv_close_deferred ctx
      | _ \<Rightarrow> andThen (emit [SrvTimerCancel]) srv_close_deferred ctx)"

definition srv_read_done :: "ssl_call \<Rightarrow> 'l srv_act" where
  "srv_read_done call ctx =
     (case call_ret call of
        SSL_COUNT n \<Rightarrow>
          if n = 0 then emit [] (ctx\<lparr>srv_state := CLOSING\<rparr>)
          else emit [SrvDataHandler (srv_currentChannelId ctx) (host_uint64 (call_in_ctr call)) (call_data call)]
                 (ctx\<lparr>srv_recvCount := srv_recvCount ctx + 1\<rparr>)
      | SSL_WANT_READ \<Rightarrow> emit [] ctx
      | SSL_WANT_WRITE \<Rightarrow> emit [] ctx
      | _ \<Rightarrow> srv_close_deferred ctx)"

definition nm_mbedtls_srv_do_one :: "ssl_call \<Rightarrow> 'l srv_act" where
  "nm_mbedtls_srv_do_one call ctx =
     (case srv_state ctx of
        CONNECTING \<Rightarrow> andThen (srv_ssl_call call) (srv_handshake_done (call_ret call)) ctx
      | DATA \<Rightarrow> andThen (srv_ssl_call call) (srv_read_done call) ctx
      | CLOSING \<Rightarrow> emit [] ctx)"

definition nm_mbedtls_srv_handle_packet :: "u8 \<Rightarrow> u8 list \<Rightarrow> ssl_call \<Rightarrow> 'l srv_act" where
  "nm_mbedtls_srv_handle_packet channelId buffer call ctx =
     andThen (nm_mbedtls_srv_do_one call)
       (modify (\<lambda>ctx. ctx\<lparr>srv_channelId := NP_DTLS_SRV_DEFAULT_CHANNEL_ID, srv_recvBuffer := []\<rparr>))
       (ctx\<lparr>srv_currentChannelId := channelId, srv_recvBuffer := buffer, srv_channelId := channelId\<rparr>)"

definition nm_mbedtls_srv_do_event_callback :: "'l srv_act" where
  "nm_mbedtls_srv_do_event_callback ctx =
     emit (if srv_state ctx = CLOSING \<and> srv_sending ctx then [SrvPost DeferredEventEvent]
           else [SrvEventHandler (srv_deferredEvent ctx)]) ctx"

definition nm_mbedtls_srv_start_send :: "'l srv_act" where
  "nm_mbedtls_srv_start_send = emit [SrvPostMaybeDouble StartSendEvent]"

definition srv_write_done :: "np_dtls_srv_send_context \<Rightarrow> ssl_ret \<Rightarrow> 'l srv_act" where
  "srv_write_done next ret ctx =
     (case send_cb next of
        None \<Rightarrow> emit [] (ctx\<lparr>srv_sentCount := srv_sentCount ctx + 1\<rparr>)
      | Some cb \<Rightarrow>
          (case ret of
             SSL_BAD_INPUT_DATA \<Rightarrow> emit [SrvSendCallback cb NABTO_EC_MALFORMED_PACKET] ctx
           | SSL_COUNT n \<Rightarrow>
               emit [SrvSendCallback cb NABTO_EC_OK] (ctx\<lparr>srv_sentCount := srv_sentCount ctx + 1\<rparr>)
           | _ \<Rightarrow> emit [SrvSendCallback cb NABTO_EC_UNKNOWN] ctx))"

definition nm_mbedtls_srv_start_send_deferred ::
    "('l, np_dtls_srv_send_context) nn_llist \<Rightarrow> ssl_call \<Rightarrow> 'l srv_act" where
  "nm_mbedtls_srv_start_send_deferred L call ctx =
     (if srv_sending ctx then emit [] ctx
      else case ll_items L (srv_sendList ctx) of
        [] \<Rightarrow> emit [] ctx
      | next # _ \<Rightarrow>
          andThen (srv_ssl_call call)
            (\<lambda>ctx. srv_write_done next (call_ret call) (ctx\<lparr>srv_channelId := NP_DTLS_SRV_DEFAULT_CHANNEL_ID\<rparr>))
            (ctx\<lparr>srv_sendList := ll_erase L (srv_sendList ctx) 0, srv_channelId := send_channelId next\<rparr>))"

definition nm_mbedtls_srv_async_send_data ::
    "('l, np_dtls_srv_send_context) nn_llist \<Rightarrow> np_dtls_srv_send_context \<Rightarrow> 'l np_dtls_srv_connection
       \<Rightarrow> np_error_code \<times> 'l np_dtls_srv_connection \<times> srv_output list" where
  "nm_mbedtls_srv_async_send_data L sendCtx ctx =
     (if srv_state ctx = CLOSING then (NABTO_EC_CONNECTION_CLOSING, ctx, [])
      else (NABTO_EC_OK, ctx\<lparr>srv_sendList := ll_append L (srv_sendList ctx) sendCtx\<rparr>,
            [SrvPostMaybeDouble StartSendEvent]))"

definition nm_mbedtls_srv_event_close :: "'l srv_act" where
  "nm_mbedtls_srv_event_close ctx =
     (if srv_sending ctx then emit [SrvPost CloseEv] ctx
      else emit ([SrvTimerCancel, SrvCancel CloseEv, SrvCancel StartSendEvent, SrvCancel DeferredEventEvent]
                 @ (if srv_closeCb ctx then [SrvCloseCallback NABTO_EC_OK] else []))
             (ctx\<lparr>srv_closeCb := False\<rparr>))"

text \<open>\<open>call\<close> is the call that writes the close notification.\<close>

definition nm_mbedtls_srv_async_close :: "ssl_call \<Rightarrow> 'l srv_act" where
  "nm_mbedtls_srv_async_close call ctx =
     (if srv_state ctx = CLOSING then emit [] ctx
      else andThen (srv_ssl_call call) (emit [SrvPost CloseEv])
             (ctx\<lparr>srv_closeCb := True, srv_state := CLOSING\<rparr>))"

definition nm_mbedtls_srv_connection_send_callback :: "np_error_code \<Rightarrow> ssl_call \<Rightarrow> 'l srv_act" where
  "nm_mbedtls_srv_connection_send_callback ec call ctx =
     (let c1 = ctx\<lparr>srv_sending := False\<rparr> in
      if ec \<noteq> NABTO_EC_OK then emit [] c1
      else
        let c2 = c1\<lparr>srv_sslSendBufferSize := 0\<rparr> in
        if srv_state c2 = CLOSING then emit [] c2
        else andThen (nm_mbedtls_srv_do_one call) nm_mbedtls_srv_start_send c2)"

text \<open>Removing the first element until the list is empty; the fuel is the number of elements.\<close>

fun fail_sends ::
    "('l, 'e) nn_llist \<Rightarrow> ('e \<Rightarrow> 'o) \<Rightarrow> nat \<Rightarrow> 'l \<Rightarrow> 'l \<times> 'o list" where
  "fail_sends L f 0 l = (l, [])"
| "fail_sends L f (Suc n) l =
     (case ll_items L l of
        [] \<Rightarrow> (l, [])
      | first # _ \<Rightarrow> (case fail_sends L f n (ll_erase L l 0) of (l', out) \<Rightarrow> (l', f first # out)))"

definition nm_mbedtls_srv_destroy_connection ::
    "('l, np_dtls_srv_send_context) nn_llist \<Rightarrow> 'l srv_act" where
  "nm_mbedtls_srv_destroy_connection L ctx =
     (if list_ex (\<lambda>e. send_cb e = None) (ll_items L (srv_sendList ctx)) then Inl NullPointer
      else case fail_sends L (\<lambda>e. SrvSendCallback (the (send_cb e)) NABTO_EC_CONNECTION_CLOSING)
                  (length (ll_items L (srv_sendList ctx))) (srv_sendList ctx) of
        (l, out) \<Rightarrow> emit (out @ [SrvTimerCancel, SrvFree]) (ctx\<lparr>srv_state := CLOSING, srv_sendList := l\<rparr>))"

section \<open>The client\<close>

record np_dtls_cli_send_context =
  cli_send_buffer :: "u8 list"
  cli_send_cb :: "nat option"

record 'l np_dtls_cli_context =
  cli_state :: sslState
  cli_recvBuffer :: "u8 list"
  cli_sslSendBufferSize :: nat
  cli_recvCount :: u32
  cli_sentCount :: u32
  cli_sendList :: 'l
  cli_sending :: bool
  cli_receiving :: bool
  cli_destroyed :: bool
  cli_freed :: bool

datatype cli_output =
    CliSender "u8 list"
  | CliDataHandler "u8 list"
  | CliEventHandler np_dtls_cli_event
  | CliSendCallback nat np_error_code
  | CliTimerCancel
  | CliPostStartSend
  | CliCancelStartSend
  | CliSessionReset

type_synonym 'l cli_act = "('l np_dtls_cli_context, cli_output) act"

definition nm_dtls_do_close :: "'l cli_act" where
  "nm_dtls_do_close = emit [CliTimerCancel, CliEventHandler NP_DTLS_CLI_EVENT_CLOSED]"

definition cli_drain :: "('l, np_dtls_cli_send_context) nn_llist \<Rightarrow> 'l cli_act" where
  "cli_drain L ctx =
     (if list_ex (\<lambda>e. cli_send_cb e = None) (ll_items L (cli_sendList ctx)) then Inl NullPointer
      else case fail_sends L (\<lambda>e. CliSendCallback (the (cli_send_cb e)) NABTO_EC_CONNECTION_CLOSING)
                  (length (ll_items L (cli_sendList ctx))) (cli_sendList ctx) of
        (l, out) \<Rightarrow> emit out (ctx\<lparr>cli_sendList := l\<rparr>))"

definition nm_mbedtls_cli_do_free :: "('l, np_dtls_cli_send_context) nn_llist \<Rightarrow> 'l cli_act" where
  "nm_mbedtls_cli_do_free L ctx =
     (if cli_freed ctx then Inl UseAfterFree
      else andThen (cli_drain L) (andThen (emit [CliTimerCancel]) (modify (cli_freed_update (\<lambda>_. True)))) ctx)"

text \<open>
  The send function. When the sender fails while a destroyed client closes, the client is freed although the call
  of the library that sends is still in progress.
\<close>

definition nm_dtls_mbedtls_send ::
    "('l, np_dtls_cli_send_context) nn_llist \<Rightarrow> u8 list \<Rightarrow> np_error_code \<Rightarrow> 'l cli_act" where
  "nm_dtls_mbedtls_send L buffer ec ctx =
     (if cli_freed ctx then Inl UseAfterFree
      else if cli_sslSendBufferSize ctx \<noteq> 0 then emit [] ctx
      else if length buffer > NABTO_COMMUNICATION_BUFFER_LENGTH then Inl OutOfBounds
      else if ec = NABTO_EC_OK then
        emit [CliSender buffer] (ctx\<lparr>cli_sending := True, cli_sslSendBufferSize := length buffer\<rparr>)
      else
        andThen (emit [CliSender buffer])
          (\<lambda>ctx. if cli_state ctx = CLOSING
                 then andThen nm_dtls_do_close (if cli_destroyed ctx then nm_mbedtls_cli_do_free L else emit []) ctx
                 else emit [] ctx)
          (ctx\<lparr>cli_sending := False, cli_sslSendBufferSize := 0\<rparr>))"

fun cli_sends ::
    "('l, np_dtls_cli_send_context) nn_llist \<Rightarrow> (u8 list \<times> np_error_code) list \<Rightarrow> 'l cli_act" where
  "cli_sends L [] ctx = (if cli_freed ctx then Inl UseAfterFree else emit [] ctx)"
| "cli_sends L ((buffer, ec) # ps) ctx = andThen (nm_dtls_mbedtls_send L buffer ec) (cli_sends L ps) ctx"

definition cli_ssl_call :: "('l, np_dtls_cli_send_context) nn_llist \<Rightarrow> ssl_call \<Rightarrow> 'l cli_act" where
  "cli_ssl_call L call ctx =
     cli_sends L (call_sends call) (if call_reads call then ctx\<lparr>cli_recvBuffer := []\<rparr> else ctx)"

definition cli_handshake_done :: "ssl_ret \<Rightarrow> 'l cli_act" where
  "cli_handshake_done ret ctx =
     (case ret of
        SSL_WANT_READ \<Rightarrow> emit [] ctx
      | SSL_WANT_WRITE \<Rightarrow> emit [] ctx
      | SSL_ALERT_ACCESS_DENIED \<Rightarrow>
          emit [CliTimerCancel, CliEventHandler NP_DTLS_CLI_EVENT_ACCESS_DENIED] (ctx\<lparr>cli_state := CLOSING\<rparr>)
      | SSL_COUNT n \<Rightarrow>
          if n = 0 then emit [CliEventHandler NP_DTLS_CLI_EVENT_HANDSHAKE_COMPLETE] (ctx\<lparr>cli_state := DATA\<rparr>)
          else emit [CliTimerCancel, CliEventHandler NP_DTLS_CLI_EVENT_CLOSED] (ctx\<lparr>cli_state := CLOSING\<rparr>)
      | _ \<Rightarrow> emit [CliTimerCancel, CliEventHandler NP_DTLS_CLI_EVENT_CLOSED] (ctx\<lparr>cli_state := CLOSING\<rparr>))"

definition cli_read_done :: "ssl_call \<Rightarrow> 'l cli_act" where
  "cli_read_done call ctx =
     (case call_ret call of
        SSL_COUNT n \<Rightarrow>
          if n = 0 then emit [] (ctx\<lparr>cli_state := CLOSING\<rparr>)
          else emit [CliDataHandler (call_data call)] (ctx\<lparr>cli_recvCount := cli_recvCount ctx + 1\<rparr>)
      | SSL_WANT_READ \<Rightarrow> emit [] ctx
      | SSL_WANT_WRITE \<Rightarrow> emit [] ctx
      | SSL_ALERT_ACCESS_DENIED \<Rightarrow> emit [CliTimerCancel, CliEventHandler NP_DTLS_CLI_EVENT_ACCESS_DENIED] ctx
      | _ \<Rightarrow> nm_dtls_do_close (ctx\<lparr>cli_state := CLOSING\<rparr>))"

definition nm_dtls_event_do_one :: "('l, np_dtls_cli_send_context) nn_llist \<Rightarrow> ssl_call \<Rightarrow> 'l cli_act" where
  "nm_dtls_event_do_one L call ctx =
     (case cli_state ctx of
        CONNECTING \<Rightarrow> andThen (cli_ssl_call L call) (cli_handshake_done (call_ret call)) ctx
      | DATA \<Rightarrow> andThen (cli_ssl_call L call) (cli_read_done call) ctx
      | CLOSING \<Rightarrow> emit [] ctx)"

definition nm_dtls_connect :: "('l, np_dtls_cli_send_context) nn_llist \<Rightarrow> ssl_call \<Rightarrow> 'l cli_act" where
  "nm_dtls_connect L call ctx = nm_dtls_event_do_one L call (ctx\<lparr>cli_state := CONNECTING, cli_sending := False\<rparr>)"

definition nm_mbedtls_cli_reset :: "('l, np_dtls_cli_send_context) nn_llist \<Rightarrow> 'l cli_act" where
  "nm_mbedtls_cli_reset L ctx =
     andThen (emit [CliSessionReset]) (andThen (cli_drain L)
       (\<lambda>ctx. emit [CliTimerCancel, CliCancelStartSend] (ctx\<lparr>cli_sslSendBufferSize := 0, cli_recvBuffer := []\<rparr>))) ctx"

definition nm_mbedtls_cli_destroy :: "('l, np_dtls_cli_send_context) nn_llist \<Rightarrow> 'l cli_act" where
  "nm_mbedtls_cli_destroy L ctx =
     (let c = ctx\<lparr>cli_state := CLOSING, cli_destroyed := True\<rparr> in
      if \<not> cli_sending c \<and> \<not> cli_receiving c then nm_mbedtls_cli_do_free L c else emit [] c)"

definition cli_write_done :: "np_dtls_cli_send_context \<Rightarrow> ssl_ret \<Rightarrow> 'l cli_act" where
  "cli_write_done next ret ctx =
     (case cli_send_cb next of
        None \<Rightarrow> emit [] (ctx\<lparr>cli_sentCount := cli_sentCount ctx + 1\<rparr>)
      | Some cb \<Rightarrow>
          (case ret of
             SSL_BAD_INPUT_DATA \<Rightarrow> emit [CliSendCallback cb NABTO_EC_MALFORMED_PACKET] ctx
           | SSL_COUNT n \<Rightarrow>
               emit [CliSendCallback cb NABTO_EC_OK] (ctx\<lparr>cli_sentCount := cli_sentCount ctx + 1\<rparr>)
           | _ \<Rightarrow> emit [CliSendCallback cb NABTO_EC_UNKNOWN] ctx))"

definition nm_mbedtls_cli_start_send_deferred ::
    "('l, np_dtls_cli_send_context) nn_llist \<Rightarrow> ssl_call \<Rightarrow> 'l cli_act" where
  "nm_mbedtls_cli_start_send_deferred L call ctx =
     (if cli_state ctx = CLOSING then emit [] ctx
      else if cli_sending ctx then emit [] ctx
      else case ll_items L (cli_sendList ctx) of
        [] \<Rightarrow> emit [] ctx
      | next # _ \<Rightarrow>
          andThen (cli_ssl_call L call) (andThen (cli_write_done next (call_ret call)) (emit [CliPostStartSend]))
            (ctx\<lparr>cli_sendList := ll_erase L (cli_sendList ctx) 0\<rparr>))"

definition cli_async_send_data ::
    "('l, np_dtls_cli_send_context) nn_llist \<Rightarrow> np_dtls_cli_send_context \<Rightarrow> 'l np_dtls_cli_context
       \<Rightarrow> np_error_code \<times> 'l np_dtls_cli_context \<times> cli_output list" where
  "cli_async_send_data L sendCtx ctx =
     (if cli_state ctx = CLOSING then (NABTO_EC_CONNECTION_CLOSING, ctx, [])
      else (NABTO_EC_OK, ctx\<lparr>cli_sendList := ll_append L (cli_sendList ctx) sendCtx\<rparr>, [CliPostStartSend]))"

definition dtls_cli_close :: "('l, np_dtls_cli_send_context) nn_llist \<Rightarrow> ssl_call \<Rightarrow> 'l cli_act" where
  "dtls_cli_close L call ctx =
     (if cli_state ctx \<noteq> CLOSING then
        andThen (cli_ssl_call L call) (\<lambda>ctx. if \<not> cli_sending ctx then nm_dtls_do_close ctx else emit [] ctx)
          (ctx\<lparr>cli_state := CLOSING\<rparr>)
      else emit [] ctx)"

definition cli_handle_packet :: "('l, np_dtls_cli_send_context) nn_llist \<Rightarrow> u8 list \<Rightarrow> ssl_call \<Rightarrow> 'l cli_act" where
  "cli_handle_packet L buffer call ctx =
     andThen (nm_dtls_event_do_one L call)
       (\<lambda>ctx. let c = ctx\<lparr>cli_recvBuffer := [], cli_receiving := False\<rparr> in
              if cli_destroyed c \<and> \<not> cli_sending c then nm_mbedtls_cli_do_free L c else emit [] c)
       (ctx\<lparr>cli_recvBuffer := buffer, cli_receiving := True\<rparr>)"

definition nm_dtls_udp_send_callback :: "('l, np_dtls_cli_send_context) nn_llist \<Rightarrow> ssl_call \<Rightarrow> 'l cli_act" where
  "nm_dtls_udp_send_callback L call ctx =
     (let c = ctx\<lparr>cli_sending := False, cli_sslSendBufferSize := 0\<rparr> in
      if cli_state c = CLOSING
      then andThen nm_dtls_do_close (if cli_destroyed c then nm_mbedtls_cli_do_free L else emit []) c
      else nm_dtls_event_do_one L call c)"

definition nm_dtls_timed_event_do_one :: "('l, np_dtls_cli_send_context) nn_llist \<Rightarrow> ssl_call \<Rightarrow> 'l cli_act" where
  "nm_dtls_timed_event_do_one L call ctx =
     (if cli_state ctx = CLOSING then emit [] ctx else nm_dtls_event_do_one L call ctx)"

section \<open>The timer\<close>

record nm_mbedtls_timer =
  intermediateTp :: u32
  finalTp :: u32

datatype timer_call = TimerCancel | TimerPost u32

definition nm_mbedtls_timer_set_delay ::
    "u32 \<Rightarrow> u32 \<Rightarrow> u32 \<Rightarrow> nm_mbedtls_timer \<Rightarrow> nm_mbedtls_timer \<times> timer_call list" where
  "nm_mbedtls_timer_set_delay now intermediateMs finalMs timer =
     (if finalMs = 0 then (timer\<lparr>finalTp := 0\<rparr>, [TimerCancel])
      else (timer\<lparr>intermediateTp := np_timestamp_future now intermediateMs, finalTp := np_timestamp_future now finalMs\<rparr>,
            [TimerCancel, TimerPost finalMs]))"

definition nm_mbedtls_timer_get_delay :: "u32 \<Rightarrow> nm_mbedtls_timer \<Rightarrow> int outcome" where
  "nm_mbedtls_timer_get_delay now timer =
     (if finalTp timer \<noteq> 0 then
        obind (np_timestamp_passed_or_now now (finalTp timer)) (\<lambda>final.
          if final then Inr 2
          else obind (np_timestamp_passed_or_now now (intermediateTp timer)) (\<lambda>inter. Inr (if inter then 1 else 0)))
      else Inr (- 1))"

section \<open>Specification\<close>

text \<open>The counter of a record with the sequence number \<open>n\<close>, as DTLS transmits it: most significant byte first.\<close>

definition record_ctr :: "u64 \<Rightarrow> u8 list" where
  "record_ctr n = map (\<lambda>i. ucast (drop_bit (56 - 8 * i) n)) [0, 1, 2, 3, 4, 5, 6, 7]"

definition demo_srv :: "np_dtls_srv_send_context list np_dtls_srv_connection" where
  "demo_srv = (nm_mbedtls_srv_create_connection llist_by_list)\<lparr>srv_state := DATA, srv_currentChannelId := 2\<rparr>"

definition demo_record :: ssl_call where
  "demo_record = \<lparr>call_sends = [], call_reads = True, call_ret = SSL_COUNT 1, call_data = [5], call_in_ctr = record_ctr 256\<rparr>"

definition demo_two_channels :: client_connections where
  "demo_two_channels = set_conn 0 ((the_conn 0 demo_channels_state)\<lparr>currentMaxSequence := host_uint64 (record_ctr 255)\<rparr>)
     demo_channels_state"

text \<open>
  A server connection with the events it has posted to the event queue. \<open>srv_reported\<close>: the connection told its
  owner that it is closed, which destroys it. \<open>srv_eof\<close>: the library returned zero for a read of data.
\<close>

record 'l srv_sys =
  srv_conn :: "'l np_dtls_srv_connection"
  srv_posted :: "srv_event_ref \<Rightarrow> bool"
  srv_reported :: bool
  srv_eof :: bool

fun srv_effect :: "srv_output \<Rightarrow> 'l srv_sys \<Rightarrow> 'l srv_sys" where
  "srv_effect (SrvPost e) s = s\<lparr>srv_posted := (srv_posted s)(e := True)\<rparr>"
| "srv_effect (SrvPostMaybeDouble e) s = s\<lparr>srv_posted := (srv_posted s)(e := True)\<rparr>"
| "srv_effect (SrvCancel e) s = s\<lparr>srv_posted := (srv_posted s)(e := False)\<rparr>"
| "srv_effect (SrvEventHandler NP_DTLS_SRV_EVENT_CLOSED) s = s\<lparr>srv_reported := True\<rparr>"
| "srv_effect (SrvCloseCallback ec) s = s\<lparr>srv_reported := True\<rparr>"
| "srv_effect _ s = s"

datatype srv_label =
    SrvPacket u8 "u8 list" ssl_call
  | SrvTimer ssl_call
  | SrvSent np_error_code ssl_call
  | SrvStartSend ssl_call
  | SrvDeferred
  | SrvClose
  | SrvAsyncSend np_dtls_srv_send_context
  | SrvAsyncClose ssl_call

fun srv_enabled :: "srv_label \<Rightarrow> 'l srv_sys \<Rightarrow> bool" where
  "srv_enabled (SrvSent ec call) s \<longleftrightarrow> srv_sending (srv_conn s)"
| "srv_enabled (SrvStartSend call) s \<longleftrightarrow> srv_posted s StartSendEvent"
| "srv_enabled SrvDeferred s \<longleftrightarrow> srv_posted s DeferredEventEvent"
| "srv_enabled SrvClose s \<longleftrightarrow> srv_posted s CloseEv"
| "srv_enabled _ s \<longleftrightarrow> True"

fun srv_handle :: "('l, np_dtls_srv_send_context) nn_llist \<Rightarrow> srv_label \<Rightarrow> 'l srv_act" where
  "srv_handle L (SrvPacket ch buffer call) ctx = nm_mbedtls_srv_handle_packet ch buffer call ctx"
| "srv_handle L (SrvTimer call) ctx = nm_mbedtls_srv_do_one call ctx"
| "srv_handle L (SrvSent ec call) ctx = nm_mbedtls_srv_connection_send_callback ec call ctx"
| "srv_handle L (SrvStartSend call) ctx = nm_mbedtls_srv_start_send_deferred L call ctx"
| "srv_handle L SrvDeferred ctx = nm_mbedtls_srv_do_event_callback ctx"
| "srv_handle L SrvClose ctx = nm_mbedtls_srv_event_close ctx"
| "srv_handle L (SrvAsyncSend sendCtx) ctx =
     (case nm_mbedtls_srv_async_send_data L sendCtx ctx of (ec, ctx', out) \<Rightarrow> emit out ctx')"
| "srv_handle L (SrvAsyncClose call) ctx = nm_mbedtls_srv_async_close call ctx"

fun srv_consumed :: "srv_label \<Rightarrow> srv_event_ref option" where
  "srv_consumed (SrvStartSend call) = Some StartSendEvent"
| "srv_consumed SrvDeferred = Some DeferredEventEvent"
| "srv_consumed SrvClose = Some CloseEv"
| "srv_consumed _ = None"

fun srv_reads_eof :: "srv_label \<Rightarrow> bool" where
  "srv_reads_eof (SrvPacket ch buffer call) \<longleftrightarrow> call_ret call = SSL_COUNT 0"
| "srv_reads_eof (SrvTimer call) \<longleftrightarrow> call_ret call = SSL_COUNT 0"
| "srv_reads_eof (SrvSent ec call) \<longleftrightarrow> call_ret call = SSL_COUNT 0"
| "srv_reads_eof _ \<longleftrightarrow> False"

definition srv_step :: "('l, np_dtls_srv_send_context) nn_llist \<Rightarrow> srv_label \<Rightarrow> ('l srv_sys, srv_output) act" where
  "srv_step L l s =
     (if srv_reported s \<or> \<not> srv_enabled l s then emit [] s
      else obind (srv_handle L l (srv_conn s)) (\<lambda>(ctx, out).
        emit out
          (fold srv_effect out
            (s\<lparr>srv_conn := ctx,
               srv_posted := (case srv_consumed l of None \<Rightarrow> srv_posted s | Some e \<Rightarrow> (srv_posted s)(e := False)),
               srv_eof := (srv_eof s \<or> (srv_reads_eof l \<and> srv_state (srv_conn s) = DATA))\<rparr>))))"

definition srv_init :: "('l, np_dtls_srv_send_context) nn_llist \<Rightarrow> 'l srv_sys" where
  "srv_init L = \<lparr>srv_conn = nm_mbedtls_srv_create_connection L, srv_posted = (\<lambda>_. False), srv_reported = False, srv_eof = False\<rparr>"

text \<open>Some event is posted whose handler reports that the connection is closed.\<close>

definition srv_close_pending :: "'l srv_sys \<Rightarrow> bool" where
  "srv_close_pending s \<longleftrightarrow>
     srv_posted s CloseEv \<and> srv_closeCb (srv_conn s)
     \<or> srv_posted s DeferredEventEvent \<and> srv_deferredEvent (srv_conn s) = NP_DTLS_SRV_EVENT_CLOSED"

definition srv_inv :: "'l srv_sys \<Rightarrow> bool" where
  "srv_inv s \<longleftrightarrow>
     (srv_reported s \<or> srv_eof s \<or> srv_state (srv_conn s) \<noteq> CLOSING \<or> srv_close_pending s)
     \<and> (srv_reported s \<or> (srv_posted s CloseEv \<longrightarrow> srv_closeCb (srv_conn s)))"

text \<open>What a call of the library leaves alone.\<close>

definition srv_same :: "'l np_dtls_srv_connection \<Rightarrow> 'l np_dtls_srv_connection \<times> srv_output list \<Rightarrow> bool" where
  "srv_same ctx = (\<lambda>(ctx', out).
     srv_state ctx' = srv_state ctx \<and> srv_closeCb ctx' = srv_closeCb ctx \<and> srv_deferredEvent ctx' = srv_deferredEvent ctx
     \<and> (\<forall>x\<in>set out. \<exists>ch b. x = SrvSender ch b))"

text \<open>What one turn of the state machine does, apart from the calls of the sender.\<close>

definition srv_quiet :: "srv_output \<Rightarrow> bool" where
  "srv_quiet x \<longleftrightarrow> (\<forall>e. x \<noteq> SrvCancel e) \<and> x \<noteq> SrvPost CloseEv \<and> x \<noteq> SrvPostMaybeDouble CloseEv"

definition srv_turn :: "ssl_call \<Rightarrow> 'l np_dtls_srv_connection \<Rightarrow> 'l np_dtls_srv_connection \<Rightarrow> srv_output list \<Rightarrow> bool" where
  "srv_turn call ctx ctx' out \<longleftrightarrow> srv_closeCb ctx' = srv_closeCb ctx \<and>
     (if srv_state ctx = CLOSING then srv_state ctx' = CLOSING \<and> srv_deferredEvent ctx' = srv_deferredEvent ctx
      else if srv_state ctx' = CLOSING
      then srv_state ctx = DATA \<and> call_ret call = SSL_COUNT 0
        \<or> srv_deferredEvent ctx' = NP_DTLS_SRV_EVENT_CLOSED \<and> SrvPost DeferredEventEvent \<in> set out
      else True) \<and>
     (\<forall>x\<in>set out. srv_quiet x)"

definition demo_ssl :: "ssl_ret \<Rightarrow> ssl_call" where
  "demo_ssl r = \<lparr>call_sends = [], call_reads = True, call_ret = r, call_data = [], call_in_ctr = record_ctr 1\<rparr>"

section \<open>Sequence numbers of records\<close>

lemma host_uint64_top: "drop_bit 56 (host_uint64 (record_ctr n)) = ucast (ucast n :: u8)"
  by (rule bit_word_eqI) (auto simp: host_uint64_def record_ctr_def bit_simps)

lemma record_order:
  assumes "(ucast n :: u8) < ucast m"
  shows "host_uint64 (record_ctr n) < host_uint64 (record_ctr m)"
proof -
  have up: "unat (ucast b :: u64) = unat b" for b :: u8
    using unat_u8 [of b] by (simp add: unsigned_ucast_eq take_bit_nat_eq_self)
  have "unat (host_uint64 (record_ctr x)) div 2 ^ 56 = unat (ucast x :: u8)" for x
    using unat_drop_bit_div [of 56 "host_uint64 (record_ctr x)"] by (simp add: host_uint64_top up)
  then have "unat (host_uint64 (record_ctr n)) div 2 ^ 56 < unat (host_uint64 (record_ctr m)) div 2 ^ 56"
    using assms by (simp add: word_less_nat_alt)
  then show ?thesis
    by (meson div_le_mono linorder_not_less word_less_nat_alt)
qed

text \<open>
  C36. A connection should move to another channel when data with a larger sequence number than any before
  arrives there. The server reads the counter of a record in the byte order of the host, so that on a little endian host the last byte of
  the sequence number decides: data that is newer but has a smaller last byte leaves the channel and
  the remembered sequence as they are, and data that is older but has a larger last byte moves the connection.
\<close>

theorem channel_follows_last_byte:
  assumes "srv_state ctx = DATA" "call_sends call = []" "call_ret call = SSL_COUNT (Suc k)" "call_in_ctr call = record_ctr n"
    "currentMaxSequence (the_conn i s) = host_uint64 (record_ctr m)"
    "ch_channelId (currentChannel (the_conn i s)) \<noteq> srv_currentChannelId ctx"
    "ch_channelId (alternativeChannel (the_conn i s)) = srv_currentChannelId ctx"
    "i < length (elms (clientConnect s))"
  shows "\<exists>ctx' sq. nm_mbedtls_srv_do_one call ctx = Inr (ctx', [SrvDataHandler (srv_currentChannelId ctx) sq (call_data call)]) \<and>
    ((ucast n :: u8) < ucast m \<longrightarrow> switch_channel i (srv_currentChannelId ctx) sq s = Inr (s, [])) \<and>
    ((ucast m :: u8) < ucast n \<longrightarrow> (\<exists>s' out. switch_channel i (srv_currentChannelId ctx) sq s = Inr (s', out) \<and>
       currentChannel (the_conn i s') = alternativeChannel (the_conn i s)))"
proof -
  have "\<exists>ctx'. nm_mbedtls_srv_do_one call ctx
      = Inr (ctx', [SrvDataHandler (srv_currentChannelId ctx) (host_uint64 (record_ctr n)) (call_data call)])"
    using assms(1-4) by (auto simp: nm_mbedtls_srv_do_one_def srv_ssl_call_def srv_read_done_def andThen_def emit_def)
  moreover have "switch_channel i (srv_currentChannelId ctx) (host_uint64 (record_ctr n)) s = Inr (s, [])"
    if "(ucast n :: u8) < ucast m"
    using record_order [OF that] assms(5) by (auto simp: switch_channel_def Let_def emit_def)
  moreover have "\<exists>s' out. switch_channel i (srv_currentChannelId ctx) (host_uint64 (record_ctr n)) s = Inr (s', out) \<and>
      currentChannel (the_conn i s') = alternativeChannel (the_conn i s)" if "(ucast m :: u8) < ucast n"
    using record_order [OF that] assms(5-8) by (simp add: switch_channel_def Let_def emit_def)
  ultimately show ?thesis by blast
qed

theorem channel_follows_last_byte_witness:
  "\<exists>ctx' sq. nm_mbedtls_srv_do_one demo_record demo_srv = Inr (ctx', [SrvDataHandler 2 sq [5]]) \<and>
     switch_channel 0 2 sq demo_two_channels = Inr (demo_two_channels, [])"
proof -
  have len: "length (elms (clientConnect demo_channels_state)) = 10"
    by (rule conns_inv_length [OF demo_channels_inv])
  have facts: "srv_state demo_srv = DATA" "call_sends demo_record = []" "call_ret demo_record = SSL_COUNT (Suc 0)"
    "call_in_ctr demo_record = record_ctr 256" "srv_currentChannelId demo_srv = 2" "call_data demo_record = [5]"
    by (simp_all add: demo_srv_def demo_record_def)
  have conn: "currentMaxSequence (the_conn 0 demo_two_channels) = host_uint64 (record_ctr 255)"
    "ch_channelId (currentChannel (the_conn 0 demo_two_channels)) \<noteq> srv_currentChannelId demo_srv"
    "ch_channelId (alternativeChannel (the_conn 0 demo_two_channels)) = srv_currentChannelId demo_srv"
    "0 < length (elms (clientConnect demo_two_channels))"
    using len by (simp_all add: demo_two_channels_def demo_channels_facts facts)
  from channel_follows_last_byte [OF facts(1-4) conn] facts show ?thesis
    by auto
qed

section \<open>A closing connection reports that it is closed\<close>

lemma srv_send_same: "nm_mbedtls_srv_mbedtls_send b ec ctx = Inr r \<Longrightarrow> srv_same ctx r"
  by (auto simp: srv_same_def nm_mbedtls_srv_mbedtls_send_def emit_def split: if_splits)

lemma srv_sends_same: "srv_sends ps ctx = Inr r \<Longrightarrow> srv_same ctx r"
proof (induction ps arbitrary: ctx r)
  case (Cons p ps)
  obtain b ec c1 o1 c2 o2 where "p = (b, ec)" and 1: "nm_mbedtls_srv_mbedtls_send b ec ctx = Inr (c1, o1)"
    and 2: "srv_sends ps c1 = Inr (c2, o2)" and r: "r = (c2, o1 @ o2)"
    using Cons.prems by (cases p; cases r) (auto simp: andThen_eq_Inr_iff)
  from srv_send_same [OF 1] Cons.IH [OF 2] r show ?case
    by (auto simp: srv_same_def)
qed (auto simp: srv_same_def emit_def)

lemma srv_ssl_call_same:
  assumes "srv_ssl_call call ctx = Inr (ctx', out)"
  shows "srv_state ctx' = srv_state ctx" "srv_closeCb ctx' = srv_closeCb ctx" "srv_deferredEvent ctx' = srv_deferredEvent ctx"
    "\<forall>x\<in>set out. \<exists>ch b. x = SrvSender ch b"
  using srv_sends_same [OF assms [unfolded srv_ssl_call_def]] by (auto simp: srv_same_def split: if_splits)

lemma srv_do_one_turn:
  assumes "nm_mbedtls_srv_do_one call ctx = Inr (ctx', out)"
  shows "srv_turn call ctx ctx' out"
proof (cases "srv_state ctx")
  case CONNECTING
  then obtain c1 o1 o2 where 1: "srv_ssl_call call ctx = Inr (c1, o1)"
    and 2: "srv_handshake_done (call_ret call) c1 = Inr (ctx', o2)" and out: "out = o1 @ o2"
    using assms by (auto simp: nm_mbedtls_srv_do_one_def andThen_eq_Inr_iff)
  from 2 show ?thesis
    using srv_ssl_call_same [OF 1] CONNECTING unfolding out srv_turn_def srv_quiet_def
    by (cases "call_ret call")
      (fastforce simp: srv_handshake_done_def deferred_event_callback_def srv_close_deferred_def emit_def andThen_def
        split: if_splits)+
next
  case DATA
  then obtain c1 o1 o2 where 1: "srv_ssl_call call ctx = Inr (c1, o1)"
    and 2: "srv_read_done call c1 = Inr (ctx', o2)" and out: "out = o1 @ o2"
    using assms by (auto simp: nm_mbedtls_srv_do_one_def andThen_eq_Inr_iff)
  from 2 show ?thesis
    using srv_ssl_call_same [OF 1] DATA unfolding out srv_turn_def srv_quiet_def
    by (cases "call_ret call")
      (fastforce simp: srv_read_done_def deferred_event_callback_def srv_close_deferred_def emit_def split: if_splits)+
next
  case CLOSING
  then show ?thesis
    using assms by (auto simp: nm_mbedtls_srv_do_one_def emit_def srv_turn_def srv_quiet_def)
qed

lemma srv_effect_frame:
  "srv_conn (srv_effect x s) = srv_conn s" "srv_eof (srv_effect x s) = srv_eof s"
  "srv_reported s \<Longrightarrow> srv_reported (srv_effect x s)"
  "(\<forall>e. x \<noteq> SrvCancel e) \<Longrightarrow> srv_posted (srv_effect x s) e \<longleftrightarrow> srv_posted s e \<or> x = SrvPost e \<or> x = SrvPostMaybeDouble e"
  by (cases "(x, s)" rule: srv_effect.cases; simp)+

lemma srv_fold_frame:
  "srv_conn (fold srv_effect out s) = srv_conn s" "srv_eof (fold srv_effect out s) = srv_eof s"
  by (induction out arbitrary: s) (simp_all add: srv_effect_frame)

lemma srv_fold_posted:
  "\<forall>x\<in>set out. \<forall>e. x \<noteq> SrvCancel e \<Longrightarrow>
     srv_posted (fold srv_effect out s) e \<longleftrightarrow> srv_posted s e \<or> SrvPost e \<in> set out \<or> SrvPostMaybeDouble e \<in> set out"
  by (induction out arbitrary: s) (auto simp: srv_effect_frame)

text \<open>Steps that consume no closing event and end with one turn, or with a call of the library only.\<close>

lemma srv_inv_turn:
  assumes "srv_inv s" "\<not> srv_reported s" "srv_turn call (srv_conn s) ctx out"
    "posted' CloseEv = srv_posted s CloseEv" "posted' DeferredEventEvent = srv_posted s DeferredEventEvent"
    "srv_deferredEvent ctx' = srv_deferredEvent ctx" "srv_state ctx' = srv_state ctx" "srv_closeCb ctx' = srv_closeCb ctx"
  shows "srv_inv (fold srv_effect out (s\<lparr>srv_conn := ctx', srv_posted := posted',
    srv_eof := (srv_eof s \<or> (call_ret call = SSL_COUNT 0 \<and> srv_state (srv_conn s) = DATA))\<rparr>))"
proof -
  have "\<forall>x\<in>set out. \<forall>e. x \<noteq> SrvCancel e" "SrvPost CloseEv \<notin> set out" "SrvPostMaybeDouble CloseEv \<notin> set out"
    using assms(3) by (auto simp: srv_turn_def srv_quiet_def)
  note posted = srv_fold_posted [OF this(1)] this(2,3)
  show ?thesis
    using assms by (auto simp: srv_inv_def srv_close_pending_def srv_turn_def srv_fold_frame posted split: if_splits)
qed

text \<open>A handler that neither closes the connection nor touches the closing events.\<close>

lemma srv_turn_idle:
  assumes "srv_state ctx' = srv_state ctx" "srv_closeCb ctx' = srv_closeCb ctx" "srv_deferredEvent ctx' = srv_deferredEvent ctx"
    "\<forall>x\<in>set out. srv_quiet x"
  shows "srv_turn call ctx ctx' out"
  using assms by (auto simp: srv_turn_def)

lemma srv_handle_turn:
  assumes "srv_handle L l ctx = Inr (ctx', out)" "srv_consumed l \<in> {None, Some StartSendEvent}" "\<forall>call. l \<noteq> SrvAsyncClose call"
  shows "\<exists>call. srv_turn call ctx ctx' out \<and> (srv_reads_eof l \<longleftrightarrow> call_ret call = SSL_COUNT 0)"
proof (cases l)
  case (SrvPacket ch buffer call)
  define c where "c = ctx\<lparr>srv_currentChannelId := ch, srv_recvBuffer := buffer, srv_channelId := ch\<rparr>"
  obtain c1 where 1: "nm_mbedtls_srv_do_one call c = Inr (c1, out)"
    and 2: "ctx' = c1\<lparr>srv_channelId := NP_DTLS_SRV_DEFAULT_CHANNEL_ID, srv_recvBuffer := []\<rparr>"
    using assms(1) SrvPacket by (auto simp: nm_mbedtls_srv_handle_packet_def c_def andThen_eq_Inr_iff modify_def)
  from srv_do_one_turn [OF 1] have "srv_turn call ctx ctx' out"
    by (simp add: 2 c_def srv_turn_def split: if_splits)
  with SrvPacket show ?thesis by auto
next
  case (SrvTimer call)
  with assms(1) have "srv_turn call ctx ctx' out" by (simp add: srv_do_one_turn)
  with SrvTimer show ?thesis by auto
next
  case (SrvSent ec call)
  define c2 where "c2 = ctx\<lparr>srv_sending := False, srv_sslSendBufferSize := 0\<rparr>"
  have "srv_turn call ctx ctx' out"
  proof (cases "ec \<noteq> NABTO_EC_OK \<or> srv_state ctx = CLOSING")
    case True
    with assms(1) SrvSent show ?thesis
      by (intro srv_turn_idle) (auto simp: srv_quiet_def nm_mbedtls_srv_connection_send_callback_def Let_def emit_def split: if_splits)
  next
    case False
    then obtain o1 where 1: "nm_mbedtls_srv_do_one call c2 = Inr (ctx', o1)" and 2: "out = o1 @ [SrvPostMaybeDouble StartSendEvent]"
      using assms(1) SrvSent
      by (auto simp: nm_mbedtls_srv_connection_send_callback_def Let_def c2_def andThen_eq_Inr_iff nm_mbedtls_srv_start_send_def emit_def)
    from srv_do_one_turn [OF 1] show ?thesis
      by (auto simp: 2 c2_def srv_turn_def srv_quiet_def split: if_splits)
  qed
  with SrvSent show ?thesis by auto
next
  case (SrvStartSend call)
  have "srv_turn call' ctx ctx' out" for call'
  proof (cases "srv_sending ctx \<or> ll_items L (srv_sendList ctx) = []")
    case True
    then have "ctx' = ctx" "out = []"
      using assms(1) SrvStartSend by (auto simp: nm_mbedtls_srv_start_send_deferred_def emit_def split: if_splits)
    then show ?thesis by (simp add: srv_turn_idle)
  next
    case False
    then obtain n ns where n: "ll_items L (srv_sendList ctx) = n # ns" by (meson neq_Nil_conv)
    then obtain c1 o1 o2 where 1: "srv_ssl_call call (ctx\<lparr>srv_sendList := ll_erase L (srv_sendList ctx) 0, srv_channelId := send_channelId n\<rparr>) = Inr (c1, o1)"
      and 2: "srv_write_done n (call_ret call) (c1\<lparr>srv_channelId := NP_DTLS_SRV_DEFAULT_CHANNEL_ID\<rparr>) = Inr (ctx', o2)" "out = o1 @ o2"
      using assms(1) SrvStartSend False by (auto simp: nm_mbedtls_srv_start_send_deferred_def andThen_eq_Inr_iff)
    from srv_ssl_call_same [OF 1] 2 show ?thesis
      by (intro srv_turn_idle) (fastforce simp: srv_quiet_def srv_write_done_def emit_def split: option.splits ssl_ret.splits)+
  qed
  then show ?thesis
    using SrvStartSend by (intro exI [of _ "call\<lparr>call_ret := SSL_ERROR\<rparr>"]) simp
next
  case (SrvAsyncSend sc)
  have "srv_turn call' ctx ctx' out" for call'
    using assms(1) SrvAsyncSend
    by (intro srv_turn_idle) (auto simp: srv_quiet_def nm_mbedtls_srv_async_send_data_def emit_def split: if_splits)
  then show ?thesis
    using SrvAsyncSend by (intro exI [of _ "undefined\<lparr>call_ret := SSL_ERROR\<rparr>"]) simp
qed (use assms in auto)

lemma srv_step_inv:
  assumes "srv_inv s" "srv_step L l s = Inr (s', outs)"
  shows "srv_inv s'"
proof (cases "srv_reported s \<or> \<not> srv_enabled l s")
  case True
  with assms show ?thesis by (auto simp: srv_step_def emit_def)
next
  case False
  define posted' where "posted' = (case srv_consumed l of None \<Rightarrow> srv_posted s | Some e \<Rightarrow> (srv_posted s)(e := False))"
  obtain ctx' out where h: "srv_handle L l (srv_conn s) = Inr (ctx', out)"
    and s': "s' = fold srv_effect out (s\<lparr>srv_conn := ctx', srv_posted := posted',
      srv_eof := (srv_eof s \<or> (srv_reads_eof l \<and> srv_state (srv_conn s) = DATA))\<rparr>)"
    using assms(2) False by (auto simp: srv_step_def obind_eq_Inr_iff emit_def posted'_def)
  consider (turn) "srv_consumed l \<in> {None, Some StartSendEvent}" "\<forall>call. l \<noteq> SrvAsyncClose call"
    | (deferred) "l = SrvDeferred" | (close) "l = SrvClose" | (async) call where "l = SrvAsyncClose call"
    by (cases l) auto
  then show ?thesis
  proof cases
    case turn
    with srv_handle_turn [OF h turn] obtain call where "srv_turn call (srv_conn s) ctx' out" "srv_reads_eof l \<longleftrightarrow> call_ret call = SSL_COUNT 0"
      by blast
    with srv_inv_turn [OF assms(1), of call ctx' out posted' ctx'] False turn(1) show ?thesis
      unfolding s' by (auto simp: posted'_def)
  next
    case deferred
    with h s' False assms(1) show ?thesis
      by (cases "srv_deferredEvent (srv_conn s)")
        (auto simp: nm_mbedtls_srv_do_event_callback_def emit_def posted'_def srv_inv_def srv_close_pending_def split: if_splits)
  next
    case close
    with h s' False assms(1) show ?thesis
      by (auto simp: nm_mbedtls_srv_event_close_def emit_def posted'_def srv_inv_def srv_close_pending_def split: if_splits)
  next
    case async
    show ?thesis
    proof (cases "srv_state (srv_conn s) = CLOSING")
      case True
      with h s' assms(1) async show ?thesis
        by (auto simp: nm_mbedtls_srv_async_close_def emit_def posted'_def srv_inv_def srv_close_pending_def)
    next
      case False
      with h async obtain o1 where
        1: "srv_ssl_call call ((srv_conn s)\<lparr>srv_closeCb := True, srv_state := CLOSING\<rparr>) = Inr (ctx', o1)"
        and 2: "out = o1 @ [SrvPost CloseEv]"
        by (auto simp: nm_mbedtls_srv_async_close_def andThen_eq_Inr_iff emit_def)
      have "\<forall>x\<in>set out. \<forall>e. x \<noteq> SrvCancel e" using srv_ssl_call_same(4) [OF 1] 2 by auto
      with srv_ssl_call_same(2) [OF 1] 2 show ?thesis
        unfolding s' srv_inv_def srv_close_pending_def by (simp add: srv_fold_frame srv_fold_posted)
    qed
  qed
qed

lemma srv_run_inv: "srv_inv s \<Longrightarrow> run_acts (srv_step L) ls s = Inr (s', out) \<Longrightarrow> srv_inv s'"
proof (induction ls arbitrary: s out)
  case (Cons l ls)
  then show ?case
    by (auto simp: andThen_eq_Inr_iff dest: srv_step_inv)
qed auto

text \<open>
  C28. A DTLS server connection that is closing always has an event posted that reports the end of the
  connection to its owner, whatever packets, timers, sends and close requests came before, with one
  exception: when the library reports the end of the data, the state becomes closing and no event is posted,
  and a later request to close does nothing, so that the connection is never destroyed.
\<close>

theorem dtls_srv_close_reported:
  "(run_acts (srv_step L) ls (srv_init L) = Inr (s, out) \<longrightarrow>
     srv_reported s \<or> srv_eof s \<or> srv_state (srv_conn s) \<noteq> CLOSING \<or> srv_close_pending s) \<and>
   (srv_state ctx = DATA \<longrightarrow> call_ret call = SSL_COUNT 0 \<longrightarrow> nm_mbedtls_srv_do_one call ctx = Inr (ctx', out') \<longrightarrow>
     srv_state ctx' = CLOSING \<and> (\<forall>e. SrvPost e \<notin> set out') \<and> nm_mbedtls_srv_async_close call2 ctx' = Inr (ctx', []))"
proof -
  have "srv_inv (srv_init L)"
    by (simp add: srv_inv_def srv_init_def nm_mbedtls_srv_create_connection_def)
  then have "srv_inv s" if "run_acts (srv_step L) ls (srv_init L) = Inr (s, out)"
    using srv_run_inv that by blast
  moreover have "srv_state ctx' = CLOSING \<and> (\<forall>e. SrvPost e \<notin> set out') \<and> nm_mbedtls_srv_async_close call2 ctx' = Inr (ctx', [])"
    if eof: "srv_state ctx = DATA" "call_ret call = SSL_COUNT 0" "nm_mbedtls_srv_do_one call ctx = Inr (ctx', out')"
  proof -
    obtain c1 where 1: "srv_ssl_call call ctx = Inr (c1, out')" and 2: "ctx' = c1\<lparr>srv_state := CLOSING\<rparr>"
      using eof by (auto simp: nm_mbedtls_srv_do_one_def srv_read_done_def andThen_eq_Inr_iff emit_def)
    with srv_ssl_call_same(4) [OF 1] show ?thesis
      by (auto simp: nm_mbedtls_srv_async_close_def emit_def)
  qed
  ultimately show ?thesis by (auto simp: srv_inv_def)
qed

theorem dtls_srv_close_reported_witness:
  "(\<exists>s out. run_acts (srv_step llist_by_list)
       [SrvPacket 0 [22] (demo_ssl (SSL_COUNT 0)), SrvDeferred, SrvAsyncClose (demo_ssl (SSL_COUNT 0))] (srv_init llist_by_list) = Inr (s, out)
     \<and> srv_state (srv_conn s) = CLOSING \<and> srv_close_pending s)
   \<and> nm_mbedtls_srv_async_close (demo_ssl (SSL_COUNT 0)) (demo_srv\<lparr>srv_recvBuffer := [], srv_state := CLOSING\<rparr>)
     = Inr (demo_srv\<lparr>srv_recvBuffer := [], srv_state := CLOSING\<rparr>, [])"
proof -
  obtain s out where run: "run_acts (srv_step llist_by_list)
       [SrvPacket 0 [22] (demo_ssl (SSL_COUNT 0)), SrvDeferred, SrvAsyncClose (demo_ssl (SSL_COUNT 0))] (srv_init llist_by_list) = Inr (s, out)"
      "srv_state (srv_conn s) = CLOSING" "\<not> srv_reported s" "\<not> srv_eof s"
    by (simp add: srv_step_def srv_init_def nm_mbedtls_srv_create_connection_def nm_mbedtls_srv_handle_packet_def
        nm_mbedtls_srv_do_one_def srv_ssl_call_def srv_handshake_done_def deferred_event_callback_def demo_ssl_def
        nm_mbedtls_srv_do_event_callback_def nm_mbedtls_srv_async_close_def emit_def andThen_def modify_def)
  have eof: "nm_mbedtls_srv_do_one (demo_ssl (SSL_COUNT 0)) demo_srv = Inr (demo_srv\<lparr>srv_recvBuffer := [], srv_state := CLOSING\<rparr>, [])"
    "srv_state demo_srv = DATA" "call_ret (demo_ssl (SSL_COUNT 0)) = SSL_COUNT 0"
    by (simp_all add: nm_mbedtls_srv_do_one_def srv_ssl_call_def srv_read_done_def demo_ssl_def demo_srv_def emit_def andThen_def)
  from dtls_srv_close_reported [of llist_by_list "[SrvPacket 0 [22] (demo_ssl (SSL_COUNT 0)), SrvDeferred, SrvAsyncClose (demo_ssl (SSL_COUNT 0))]"
      s out demo_srv "demo_ssl (SSL_COUNT 0)" "demo_srv\<lparr>srv_recvBuffer := [], srv_state := CLOSING\<rparr>" "[]" "demo_ssl (SSL_COUNT 0)"] run eof
  show ?thesis by blast
qed

end
