(* ===== verification/NcStream.thy ===== *)
theory NcStream
  imports NcPacket NcKeepAlive
begin

text \<open>
  One stream of a client connection (\<^verbatim>\<open>src/core/nc_stream.c\<close>): its events, packets and timer, and the
  accept, read, write and close operations of the application. The streaming protocol itself (\<^verbatim>\<open>nabto_stream\<close>) is
  not part of the repository: its functions are the fields of a record that every operation takes. A callback of
  the application is a number, and calling it is an output.
\<close>

section \<open>The streaming protocol\<close>

datatype nabto_stream_status =
    NABTO_STREAM_STATUS_OK | NABTO_STREAM_STATUS_CLOSED | NABTO_STREAM_STATUS_EOF | NABTO_STREAM_STATUS_ABORTED
  | NABTO_STREAM_STATUS_OTHER

datatype nabto_stream_next_event_type =
    ET_ACCEPT | ET_ACK | ET_SYN | ET_SYN_ACK | ET_DATA | ET_RST | ET_TIMEOUT | ET_APPLICATION_EVENT | ET_TIME_WAIT
  | ET_WAIT | ET_NOTHING | ET_RELEASED | ET_CLOSED

datatype nabto_stream_application_event_type =
    APPLICATION_EVENT_TYPE_OPENED | APPLICATION_EVENT_TYPE_DATA_READY | APPLICATION_EVENT_TYPE_DATA_WRITE
  | APPLICATION_EVENT_TYPE_READ_CLOSED | APPLICATION_EVENT_TYPE_WRITE_CLOSED | APPLICATION_EVENT_TYPE_CLOSED

datatype nabto_stream_stamp = STAMP_NOW | STAMP_FUTURE u32 | STAMP_INFINITE

text \<open>
  \<open>eng_dispatch_event\<close> gives the state in which the callback for the application is called, which is the last
  thing the function does, and the event the callback gets. \<open>eng_read_buffer\<close> gives the bytes it writes to
  the buffer, \<open>eng_write_buffer\<close> how many bytes it took.
\<close>

record 'e nabto_stream_engine =
  eng_init :: 'e
  eng_destroy :: "'e \<Rightarrow> 'e"
  eng_send_segment_available :: "'e \<Rightarrow> 'e"
  eng_recv_segment_available :: "'e \<Rightarrow> 'e"
  eng_next_event_to_handle :: "'e \<Rightarrow> nabto_stream_next_event_type"
  eng_handle_timeout :: "'e \<Rightarrow> 'e"
  eng_dispatch_event :: "'e \<Rightarrow> 'e \<times> nabto_stream_application_event_type option"
  eng_handle_time_wait :: "'e \<Rightarrow> 'e"
  eng_event_handled :: "nabto_stream_next_event_type \<Rightarrow> 'e \<Rightarrow> 'e"
  eng_next_event :: "'e \<Rightarrow> nabto_stream_stamp"
  eng_stamp_less :: "nabto_stream_stamp \<Rightarrow> nabto_stream_stamp \<Rightarrow> bool"
  eng_stamp_diff_now :: "'e \<Rightarrow> nabto_stream_stamp \<Rightarrow> 32 word"
  eng_handle_packet :: "u8 list \<Rightarrow> 'e \<Rightarrow> 'e"
  eng_connection_died :: "'e \<Rightarrow> 'e"
  eng_create_packet :: "nat \<Rightarrow> nabto_stream_next_event_type \<Rightarrow> 'e \<Rightarrow> u8 list \<times> 'e"
  eng_create_rst_packet :: "nat \<Rightarrow> u8 list"
  eng_accept :: "'e \<Rightarrow> 'e"
  eng_release :: "'e \<Rightarrow> 'e"
  eng_close :: "'e \<Rightarrow> nabto_stream_status \<times> 'e"
  eng_read_buffer :: "nat \<Rightarrow> 'e \<Rightarrow> nabto_stream_status \<times> u8 list \<times> 'e"
  eng_write_buffer :: "u8 list \<Rightarrow> 'e \<Rightarrow> nabto_stream_status \<times> nat \<times> 'e"
  eng_content_type :: "'e \<Rightarrow> u32"
  eng_FLAG_SYN :: u8
  eng_FLAG_RST :: u8

fun nc_stream_status_to_ec :: "nabto_stream_status \<Rightarrow> np_error_code" where
  "nc_stream_status_to_ec NABTO_STREAM_STATUS_OK = NABTO_EC_OK"
| "nc_stream_status_to_ec NABTO_STREAM_STATUS_CLOSED = NABTO_EC_CLOSED"
| "nc_stream_status_to_ec NABTO_STREAM_STATUS_EOF = NABTO_EC_EOF"
| "nc_stream_status_to_ec NABTO_STREAM_STATUS_ABORTED = NABTO_EC_ABORTED"
| "nc_stream_status_to_ec NABTO_STREAM_STATUS_OTHER = NABTO_EC_UNKNOWN"

section \<open>The state of a stream\<close>

definition NC_STREAM_SEND_BUFFER_SIZE :: nat where "NC_STREAM_SEND_BUFFER_SIZE = 1150"

text \<open>
  \<open>stm_ev\<close> and \<open>stm_timer\<close>: the event exists. \<open>stm_readBuffer\<close> is the buffer of the application with the
  position in it, \<open>stm_readLength\<close> the number its length pointer points to; \<open>None\<close> is the null pointer.
\<close>

record 'e nc_stream_context =
  stm_stream :: 'e
  stm_streamId :: u64
  stm_dtls :: "nat option"
  stm_ev :: bool
  stm_active :: bool
  stm_connectionRef :: u64
  stm_currentExpiry :: nabto_stream_stamp
  stm_negativeCount :: u32
  stm_timer :: bool
  stm_acceptCb :: "nat option"
  stm_readAllCb :: "nat option"
  stm_readSomeCb :: "nat option"
  stm_readLength :: "nat option"
  stm_readBuffer :: "(nat \<times> nat) option"
  stm_readBufferLength :: nat
  stm_writeCb :: "nat option"
  stm_writeBuffer :: "u8 list"
  stm_closeCb :: "nat option"
  stm_isSending :: bool
  stm_sendEventType :: nabto_stream_next_event_type

record nc_stream_listener =
  lsn_type :: u32
  lsn_cb :: nat

datatype stream_output =
    StmCallback nat np_error_code
  | StmReadBytes nat nat "u8 list"
  | StmReadLength nat
  | StmListener nat np_error_code
  | StmPost
  | StmPostTimed u32
  | StmCancelTimer
  | StmDestroyEvents
  | StmSend nat "u8 list"

type_synonym 'e stm_act = "('e nc_stream_context, stream_output) act"

text \<open>An operation that may not return.\<close>

type_synonym ('s, 'o) run = "'s \<Rightarrow> (('s \<times> 'o list) outcome) option"
type_synonym 'e stm_run = "('e nc_stream_context, stream_output) run"

definition prefix_out :: "'o list \<Rightarrow> ('s \<times> 'o list) outcome \<Rightarrow> ('s \<times> 'o list) outcome" where
  "prefix_out outs r = obind r (\<lambda>(s, out). Inr (s, outs @ out))"

definition runThen :: "('s, 'o) run \<Rightarrow> ('s, 'o) run \<Rightarrow> ('s, 'o) run" where
  "runThen f g s =
     Option.bind (f s) (\<lambda>r. case r of
         Inl e \<Rightarrow> Some (Inl e)
       | Inr (s1, o1) \<Rightarrow> Option.bind (g s1) (\<lambda>r2. Some (prefix_out o1 r2)))"

section \<open>Creation and destruction\<close>

text \<open>\<open>ecEv\<close> and \<open>ecTimer\<close> are the results of the creation of the two events.\<close>

definition nc_stream_init ::
    "'e nabto_stream_engine \<Rightarrow> u64 \<Rightarrow> nat option \<Rightarrow> u64 \<Rightarrow> np_error_code \<Rightarrow> np_error_code
       \<Rightarrow> 'e nc_stream_context \<Rightarrow> np_error_code \<times> 'e nc_stream_context" where
  "nc_stream_init E streamId dtls ref ecEv ecTimer ctx =
     (if ecEv \<noteq> NABTO_EC_OK then (ecEv, ctx)
      else if ecTimer \<noteq> NABTO_EC_OK then (ecTimer, ctx\<lparr>stm_ev := True\<rparr>)
      else (NABTO_EC_OK,
        ctx\<lparr>stm_ev := True, stm_timer := True, stm_active := True, stm_dtls := dtls, stm_streamId := streamId,
            stm_currentExpiry := STAMP_INFINITE, stm_isSending := False, stm_connectionRef := ref,
            stm_stream := eng_init E\<rparr>))"

definition callbacks :: "np_error_code \<Rightarrow> nat option list \<Rightarrow> stream_output list" where
  "callbacks ec cbs = concat (map (\<lambda>cb. case cb of None \<Rightarrow> [] | Some c \<Rightarrow> [StmCallback c ec]) cbs)"

definition nc_stream_destroy :: "'e nabto_stream_engine \<Rightarrow> 'e stm_act" where
  "nc_stream_destroy E ctx =
     (if \<not> stm_active ctx then emit [] ctx
      else emit (callbacks NABTO_EC_ABORTED
                   [stm_acceptCb ctx, stm_readAllCb ctx, stm_readSomeCb ctx, stm_writeCb ctx, stm_closeCb ctx]
                 @ [StmDestroyEvents])
             (ctx\<lparr>stm_active := False, stm_dtls := None, stm_streamId := 0, stm_ev := False, stm_timer := False,
                  stm_stream := eng_destroy E (stm_stream ctx)\<rparr>))"

text \<open>Posting and cancelling an event that has been destroyed uses freed memory.\<close>

definition stm_post :: "'e stm_act" where
  "stm_post ctx = (if stm_ev ctx then emit [StmPost] ctx else Inl UseAfterFree)"

definition stm_cancel_timer :: "'e stm_act" where
  "stm_cancel_timer ctx = (if stm_timer ctx then emit [StmCancelTimer] ctx else Inl UseAfterFree)"

definition stm_post_timer :: "u32 \<Rightarrow> 'e stm_act" where
  "stm_post_timer ms ctx = (if stm_timer ctx then emit [StmPostTimed ms] ctx else Inl UseAfterFree)"

section \<open>Reading\<close>

definition nc_stream_resolve_read :: "np_error_code \<Rightarrow> 'e stm_act" where
  "nc_stream_resolve_read ec ctx =
     (let c = ctx\<lparr>stm_readLength := None, stm_readBuffer := None, stm_readBufferLength := 0\<rparr> in
      case stm_readAllCb c of
        Some cb \<Rightarrow> emit [StmCallback cb ec] (c\<lparr>stm_readAllCb := None\<rparr>)
      | None \<Rightarrow>
          (case stm_readSomeCb c of
             Some cb \<Rightarrow> emit [StmCallback cb ec] (c\<lparr>stm_readSomeCb := None\<rparr>)
           | None \<Rightarrow> emit [] c))"

text \<open>What one successful read of the bytes \<open>bs\<close> does to the buffer and the length of the application.\<close>

definition read_advance :: "u8 list \<Rightarrow> 'e stm_act" where
  "read_advance bs ctx =
     (if length bs > stm_readBufferLength ctx then Inl OutOfBounds
      else obind (deref (stm_readBuffer ctx)) (\<lambda>(buf, pos). obind (deref (stm_readLength ctx)) (\<lambda>len.
        emit [StmReadBytes buf pos bs, StmReadLength (len + length bs)]
          (ctx\<lparr>stm_readLength := Some (len + length bs), stm_readBuffer := Some (buf, pos + length bs),
               stm_readBufferLength := stm_readBufferLength ctx - length bs\<rparr>))))"

partial_function (option) nc_stream_do_read :: "'e nabto_stream_engine \<Rightarrow> 'e stm_run" where
  "nc_stream_do_read E ctx =
     (if stm_readAllCb ctx = None \<and> stm_readSomeCb ctx = None then Some (emit [] ctx)
      else case eng_read_buffer E (stm_readBufferLength ctx) (stm_stream ctx) of (status, bs, e) \<Rightarrow>
        if status = NABTO_STREAM_STATUS_OK then
          if bs = [] then Some (emit [] (ctx\<lparr>stm_stream := e\<rparr>))
          else case read_advance bs (ctx\<lparr>stm_stream := e\<rparr>) of
            Inl f \<Rightarrow> Some (Inl f)
          | Inr (ctx1, out) \<Rightarrow>
              if stm_readAllCb ctx1 \<noteq> None then
                if stm_readBufferLength ctx1 = 0 then Some (prefix_out out (nc_stream_resolve_read NABTO_EC_OK ctx1))
                else Option.bind (nc_stream_do_read E ctx1) (\<lambda>r. Some (prefix_out out r))
              else Some (prefix_out out (nc_stream_resolve_read NABTO_EC_OK ctx1))
        else Some (nc_stream_resolve_read (nc_stream_status_to_ec status) (ctx\<lparr>stm_stream := e\<rparr>)))"

definition read_in_progress :: "'e nc_stream_context \<Rightarrow> bool" where
  "read_in_progress ctx \<longleftrightarrow> stm_readAllCb ctx \<noteq> None \<or> stm_readSomeCb ctx \<noteq> None"

text \<open>The operations for the application return an error code with the run.\<close>

definition nc_stream_async_read_all ::
    "'e nabto_stream_engine \<Rightarrow> nat \<Rightarrow> nat \<Rightarrow> nat \<Rightarrow> 'e nc_stream_context
       \<Rightarrow> np_error_code \<times> (('e nc_stream_context \<times> stream_output list) outcome) option" where
  "nc_stream_async_read_all E buffer bufferLength callback ctx =
     (if read_in_progress ctx then (NABTO_EC_OPERATION_IN_PROGRESS, Some (emit [] ctx))
      else (NABTO_EC_OK,
        Option.bind
          (nc_stream_do_read E
            (ctx\<lparr>stm_readAllCb := Some callback, stm_readBuffer := Some (buffer, 0), stm_readBufferLength := bufferLength,
                 stm_readLength := Some 0\<rparr>))
          (\<lambda>r. Some (prefix_out [StmReadLength 0] r))))"

definition nc_stream_async_read_some ::
    "'e nabto_stream_engine \<Rightarrow> nat \<Rightarrow> nat \<Rightarrow> nat \<Rightarrow> 'e nc_stream_context
       \<Rightarrow> np_error_code \<times> (('e nc_stream_context \<times> stream_output list) outcome) option" where
  "nc_stream_async_read_some E buffer bufferLength callback ctx =
     (if read_in_progress ctx then (NABTO_EC_OPERATION_IN_PROGRESS, Some (emit [] ctx))
      else (NABTO_EC_OK,
        Option.bind
          (nc_stream_do_read E
            (ctx\<lparr>stm_readSomeCb := Some callback, stm_readBuffer := Some (buffer, 0), stm_readBufferLength := bufferLength,
                 stm_readLength := Some 0\<rparr>))
          (\<lambda>r. Some (prefix_out [StmReadLength 0] r))))"

section \<open>Writing and closing\<close>

definition resolve_write :: "np_error_code \<Rightarrow> 'e stm_act" where
  "resolve_write ec ctx =
     obind (deref (stm_writeCb ctx)) (\<lambda>cb. emit [StmCallback cb ec] (ctx\<lparr>stm_writeCb := None\<rparr>))"

text \<open>A count above the length of the buffer moves the buffer past its end.\<close>

partial_function (option) nc_stream_do_write_all :: "'e nabto_stream_engine \<Rightarrow> 'e stm_run" where
  "nc_stream_do_write_all E ctx =
     (case eng_write_buffer E (stm_writeBuffer ctx) (stm_stream ctx) of (status, written, e) \<Rightarrow>
        if status = NABTO_STREAM_STATUS_OK then
          if written = 0 then Some (emit [] (ctx\<lparr>stm_stream := e\<rparr>))
          else if written = length (stm_writeBuffer ctx) then
            Some (resolve_write NABTO_EC_OK (ctx\<lparr>stm_stream := e\<rparr>))
          else if written > length (stm_writeBuffer ctx) then Some (Inl OutOfBounds)
          else nc_stream_do_write_all E (ctx\<lparr>stm_stream := e, stm_writeBuffer := drop written (stm_writeBuffer ctx)\<rparr>)
        else Some (resolve_write (nc_stream_status_to_ec status) (ctx\<lparr>stm_stream := e\<rparr>)))"

definition nc_stream_async_write ::
    "'e nabto_stream_engine \<Rightarrow> u8 list \<Rightarrow> nat \<Rightarrow> 'e nc_stream_context
       \<Rightarrow> np_error_code \<times> (('e nc_stream_context \<times> stream_output list) outcome) option" where
  "nc_stream_async_write E buffer callback ctx =
     (if stm_writeCb ctx \<noteq> None then (NABTO_EC_OPERATION_IN_PROGRESS, Some (emit [] ctx))
      else (NABTO_EC_OK, nc_stream_do_write_all E (ctx\<lparr>stm_writeCb := Some callback, stm_writeBuffer := buffer\<rparr>)))"

definition nc_stream_handle_close :: "'e nabto_stream_engine \<Rightarrow> 'e stm_act" where
  "nc_stream_handle_close E ctx =
     (case stm_closeCb ctx of
        None \<Rightarrow> emit [] ctx
      | Some cb \<Rightarrow>
          (case eng_close E (stm_stream ctx) of (status, e) \<Rightarrow>
             let c = ctx\<lparr>stm_stream := e\<rparr> in
             if status = NABTO_STREAM_STATUS_OK then emit [] c
             else if status = NABTO_STREAM_STATUS_CLOSED then
               emit [StmCallback cb NABTO_EC_OK] (c\<lparr>stm_closeCb := None\<rparr>)
             else emit [StmCallback cb (nc_stream_status_to_ec status)] (c\<lparr>stm_closeCb := None\<rparr>)))"

definition nc_stream_async_close ::
    "'e nabto_stream_engine \<Rightarrow> nat \<Rightarrow> 'e nc_stream_context
       \<Rightarrow> np_error_code \<times> ('e nc_stream_context \<times> stream_output list) outcome" where
  "nc_stream_async_close E callback ctx =
     (if stm_closeCb ctx \<noteq> None then (NABTO_EC_OPERATION_IN_PROGRESS, emit [] ctx)
      else (NABTO_EC_OK, nc_stream_handle_close E (ctx\<lparr>stm_closeCb := Some callback\<rparr>)))"

section \<open>Accepting and releasing\<close>

definition nc_stream_accept :: "'e nabto_stream_engine \<Rightarrow> 'e stm_act" where
  "nc_stream_accept E = modify (\<lambda>ctx. ctx\<lparr>stm_stream := eng_accept E (stm_stream ctx)\<rparr>)"

definition nc_stream_async_accept ::
    "'e nabto_stream_engine \<Rightarrow> nat \<Rightarrow> 'e nc_stream_context
       \<Rightarrow> np_error_code \<times> ('e nc_stream_context \<times> stream_output list) outcome" where
  "nc_stream_async_accept E callback ctx =
     (if stm_acceptCb ctx \<noteq> None then (NABTO_EC_OPERATION_IN_PROGRESS, emit [] ctx)
      else (NABTO_EC_OK, emit [] (ctx\<lparr>stm_acceptCb := Some callback, stm_stream := eng_accept E (stm_stream ctx)\<rparr>)))"

definition nc_stream_abort :: "'e nabto_stream_engine \<Rightarrow> 'e stm_act" where
  "nc_stream_abort E = modify (\<lambda>ctx. ctx\<lparr>stm_stream := eng_release E (stm_stream ctx)\<rparr>)"

definition nc_stream_release :: "'e nabto_stream_engine \<Rightarrow> 'e stm_act" where
  "nc_stream_release E = modify (\<lambda>ctx. ctx\<lparr>stm_stream := eng_release E (stm_stream ctx)\<rparr>)"

text \<open>A stream that is ready is given to the listener of its type, and released when there is none.\<close>

definition nc_stream_manager_ready_for_accept ::
    "'e nabto_stream_engine \<Rightarrow> nc_stream_listener list \<Rightarrow> 'e stm_act" where
  "nc_stream_manager_ready_for_accept E listeners ctx =
     (case find (\<lambda>l. lsn_type l = eng_content_type E (stm_stream ctx)) listeners of
        Some l \<Rightarrow> emit [StmListener (lsn_cb l) NABTO_EC_OK] ctx
      | None \<Rightarrow> emit [] (ctx\<lparr>stm_stream := eng_release E (stm_stream ctx)\<rparr>))"

section \<open>Events of the streaming protocol\<close>

definition resolve_accept :: "np_error_code \<Rightarrow> 'e stm_act" where
  "resolve_accept ec ctx =
     (case stm_acceptCb ctx of
        None \<Rightarrow> emit [] ctx
      | Some cb \<Rightarrow> emit [StmCallback cb ec] (ctx\<lparr>stm_acceptCb := None\<rparr>))"

definition stm_resolve_close :: "'e stm_act" where
  "stm_resolve_close ctx =
     (case stm_closeCb ctx of
        None \<Rightarrow> emit [] ctx
      | Some cb \<Rightarrow> emit [StmCallback cb NABTO_EC_OK] (ctx\<lparr>stm_closeCb := None\<rparr>))"

definition write_if_pending :: "'e nabto_stream_engine \<Rightarrow> 'e stm_run" where
  "write_if_pending E ctx =
     (if stm_writeCb ctx \<noteq> None then nc_stream_do_write_all E ctx else Some (emit [] ctx))"

definition nc_stream_application_event_callback ::
    "'e nabto_stream_engine \<Rightarrow> nabto_stream_application_event_type \<Rightarrow> 'e stm_run" where
  "nc_stream_application_event_callback E eventType ctx =
     (case eventType of
        APPLICATION_EVENT_TYPE_OPENED \<Rightarrow> Some (resolve_accept NABTO_EC_OK ctx)
      | APPLICATION_EVENT_TYPE_DATA_READY \<Rightarrow> nc_stream_do_read E ctx
      | APPLICATION_EVENT_TYPE_DATA_WRITE \<Rightarrow> write_if_pending E ctx
      | APPLICATION_EVENT_TYPE_READ_CLOSED \<Rightarrow> nc_stream_do_read E ctx
      | APPLICATION_EVENT_TYPE_WRITE_CLOSED \<Rightarrow> Some (stm_resolve_close ctx)
      | APPLICATION_EVENT_TYPE_CLOSED \<Rightarrow>
          runThen (write_if_pending E)
            (runThen (\<lambda>c. Some (resolve_accept NABTO_EC_ABORTED c))
              (runThen (nc_stream_do_read E) (\<lambda>c. Some (nc_stream_handle_close E c)))) ctx)"

text \<open>\<open>diff\<close> is a signed 32 bit integer, and the delay of the timer an unsigned one.\<close>

definition nc_stream_handle_wait :: "'e nabto_stream_engine \<Rightarrow> 'e stm_act" where
  "nc_stream_handle_wait E ctx =
     (let nextStamp = eng_next_event E (stm_stream ctx) in
      case nextStamp of
        STAMP_NOW \<Rightarrow> emit [] ctx
      | STAMP_INFINITE \<Rightarrow> emit [] ctx
      | STAMP_FUTURE _ \<Rightarrow>
          if eng_stamp_less E nextStamp (stm_currentExpiry ctx) then
            let c = ctx\<lparr>stm_currentExpiry := nextStamp\<rparr>;
                diff = sint (eng_stamp_diff_now E (stm_stream c) nextStamp);
                count = (if diff < 0 then stm_negativeCount c + 1 else 0);
                diff = (if diff < 0 \<and> count > 1000 then 100 else diff)
            in if diff + 2 \<ge> 2 ^ 31 then Inl SignedOverflow
               else stm_post_timer (word_of_int (diff + 2)) (c\<lparr>stm_negativeCount := count\<rparr>)
          else emit [] ctx)"

text \<open>The packet of a stream whose connection is there; \<open>ec\<close> is what the DTLS connection answers.\<close>

definition send_packet_dtls ::
    "'e nabto_stream_engine \<Rightarrow> np_error_code \<Rightarrow> nat \<Rightarrow> nabto_stream_next_event_type \<Rightarrow> 'e stm_act" where
  "send_packet_dtls E ec dtls eventType ctx =
     (if stm_isSending ctx then emit [] ctx
      else
        let c = ctx\<lparr>stm_isSending := True, stm_sendEventType := eventType\<rparr>;
            header = AT_STREAM # var_uint_write_forward (stm_streamId c) in
        case eng_create_packet E (NC_STREAM_SEND_BUFFER_SIZE - length header) eventType (stm_stream c) of (packet, e) \<Rightarrow>
          if length packet > NC_STREAM_SEND_BUFFER_SIZE - length header then Inl OutOfBounds
          else if packet = [] then emit [] (c\<lparr>stm_stream := e, stm_isSending := False\<rparr>)
          else andThen (emit [StmSend dtls (header @ packet)])
            (\<lambda>c. if ec \<noteq> NABTO_EC_OK
                  then stm_post (c\<lparr>stm_stream := eng_event_handled E eventType (stm_stream c)\<rparr>)
                  else emit [] c)
            (c\<lparr>stm_stream := e\<rparr>))"

definition sends_packet :: "nabto_stream_next_event_type \<Rightarrow> bool" where
  "sends_packet eventType \<longleftrightarrow> eventType \<in> {ET_ACK, ET_SYN, ET_SYN_ACK, ET_DATA, ET_RST}"

text \<open>The events that do not send.\<close>

definition stream_event_other ::
    "'e nabto_stream_engine \<Rightarrow> nc_stream_listener list \<Rightarrow> nabto_stream_next_event_type \<Rightarrow> 'e stm_run" where
  "stream_event_other E listeners eventType ctx =
     (let handled = (\<lambda>c. Some (stm_post (c\<lparr>stm_stream := eng_event_handled E eventType (stm_stream c)\<rparr>))) in
      case eventType of
        ET_ACCEPT \<Rightarrow> runThen (\<lambda>c. Some (nc_stream_manager_ready_for_accept E listeners c)) handled ctx
      | ET_TIMEOUT \<Rightarrow> handled (ctx\<lparr>stm_stream := eng_handle_timeout E (stm_stream ctx)\<rparr>)
      | ET_APPLICATION_EVENT \<Rightarrow>
          (case eng_dispatch_event E (stm_stream ctx) of (e, ev) \<Rightarrow>
             runThen (case ev of None \<Rightarrow> (\<lambda>c. Some (emit [] c)) | Some t \<Rightarrow> nc_stream_application_event_callback E t)
               handled (ctx\<lparr>stm_stream := e\<rparr>))
      | ET_TIME_WAIT \<Rightarrow> handled (ctx\<lparr>stm_stream := eng_handle_time_wait E (stm_stream ctx)\<rparr>)
      | ET_WAIT \<Rightarrow> Some (nc_stream_handle_wait E ctx)
      | ET_RELEASED \<Rightarrow> Some (nc_stream_destroy E ctx)
      | ET_CLOSED \<Rightarrow> Some (stm_cancel_timer ctx)
      | _ \<Rightarrow> Some (emit [] ctx))"

text \<open>
  Without a connection the packet of an event is dropped and the next event is handled at once: this is the
  recursion of \<^verbatim>\<open>nc_stream_event\<close> through \<^verbatim>\<open>nc_stream_send_packet\<close>.
\<close>

definition segments_available :: "'e nabto_stream_engine \<Rightarrow> 'e nc_stream_context \<Rightarrow> 'e nc_stream_context" where
  "segments_available E ctx =
     ctx\<lparr>stm_stream := eng_recv_segment_available E (eng_send_segment_available E (stm_stream ctx))\<rparr>"

partial_function (option) nc_stream_event ::
    "'e nabto_stream_engine \<Rightarrow> nc_stream_listener list \<Rightarrow> np_error_code \<Rightarrow> 'e stm_run" where
  "nc_stream_event E listeners ec ctx =
     (let c = segments_available E ctx; eventType = eng_next_event_to_handle E (stm_stream c) in
      if sends_packet eventType then
        case stm_dtls c of
          None \<Rightarrow> nc_stream_event E listeners ec (c\<lparr>stm_stream := eng_event_handled E eventType (stm_stream c)\<rparr>)
        | Some dtls \<Rightarrow> Some (send_packet_dtls E ec dtls eventType c)
      else stream_event_other E listeners eventType c)"

definition nc_stream_send_packet ::
    "'e nabto_stream_engine \<Rightarrow> nc_stream_listener list \<Rightarrow> np_error_code \<Rightarrow> nabto_stream_next_event_type \<Rightarrow> 'e stm_run" where
  "nc_stream_send_packet E listeners ec eventType ctx =
     (case stm_dtls ctx of
        None \<Rightarrow> nc_stream_event E listeners ec (ctx\<lparr>stm_stream := eng_event_handled E eventType (stm_stream ctx)\<rparr>)
      | Some dtls \<Rightarrow> Some (send_packet_dtls E ec dtls eventType ctx))"

definition nc_stream_handle_timeout ::
    "'e nabto_stream_engine \<Rightarrow> nc_stream_listener list \<Rightarrow> np_error_code \<Rightarrow> 'e stm_run" where
  "nc_stream_handle_timeout E listeners ec ctx = nc_stream_event E listeners ec (ctx\<lparr>stm_currentExpiry := STAMP_INFINITE\<rparr>)"

definition nc_stream_handle_packet ::
    "'e nabto_stream_engine \<Rightarrow> nc_stream_listener list \<Rightarrow> np_error_code \<Rightarrow> u8 list \<Rightarrow> 'e stm_run" where
  "nc_stream_handle_packet E listeners ec buffer ctx =
     nc_stream_event E listeners ec (ctx\<lparr>stm_stream := eng_handle_packet E buffer (stm_stream ctx)\<rparr>)"

definition nc_stream_handle_connection_closed ::
    "'e nabto_stream_engine \<Rightarrow> nc_stream_listener list \<Rightarrow> np_error_code \<Rightarrow> 'e stm_run" where
  "nc_stream_handle_connection_closed E listeners ec ctx =
     nc_stream_event E listeners ec (ctx\<lparr>stm_dtls := None, stm_stream := eng_connection_died E (stm_stream ctx)\<rparr>)"

definition nc_stream_dtls_send_callback ::
    "'e nabto_stream_engine \<Rightarrow> nc_stream_listener list \<Rightarrow> np_error_code \<Rightarrow> 'e stm_run" where
  "nc_stream_dtls_send_callback E listeners ec ctx =
     nc_stream_event E listeners ec
       (ctx\<lparr>stm_isSending := False, stm_stream := eng_event_handled E (stm_sendEventType ctx) (stm_stream ctx)\<rparr>)"

text \<open>The notification of the streaming protocol, which posts the event of the stream.\<close>

definition nc_stream_event_callback :: "'e stm_act" where
  "nc_stream_event_callback = stm_post"

section \<open>Specification\<close>

text \<open>
  What the streaming protocol promises of its read function: \<open>avail\<close> are the received bytes that have not been read.
  A successful read takes them from the front, at most as many as asked for, and none only when there are none
  or none are wanted. A read that fails takes nothing.
\<close>

definition stream_read_law :: "'e nabto_stream_engine \<Rightarrow> ('e \<Rightarrow> u8 list) \<Rightarrow> bool" where
  "stream_read_law E avail \<longleftrightarrow>
     (\<forall>n e. case eng_read_buffer E n e of (status, bs, e') \<Rightarrow>
        if status = NABTO_STREAM_STATUS_OK
        then length bs \<le> n \<and> avail e = bs @ avail e' \<and> (bs = [] \<longrightarrow> n = 0 \<or> avail e = [])
        else bs = [] \<and> avail e' = avail e)"

text \<open>The bytes given to the application, the callbacks called, and what the writes do to the buffers.\<close>

fun delivered :: "stream_output list \<Rightarrow> u8 list" where
  "delivered [] = []"
| "delivered (StmReadBytes b p bs # out) = bs @ delivered out"
| "delivered (_ # out) = delivered out"

fun answers :: "stream_output list \<Rightarrow> (nat \<times> np_error_code) list" where
  "answers [] = []"
| "answers (StmCallback cb ec # out) = (cb, ec) # answers out"
| "answers (_ # out) = answers out"

fun store_reads :: "stream_output list \<Rightarrow> (nat \<Rightarrow> u8 list) \<Rightarrow> nat \<Rightarrow> u8 list" where
  "store_reads [] m = m"
| "store_reads (StmReadBytes b p bs # out) m = store_reads out (m(b := take p (m b) @ bs @ drop (p + length bs) (m b)))"
| "store_reads (_ # out) m = store_reads out m"

text \<open>Data arrives in chunks: a function of the protocol appends bytes, then the event for the application comes.\<close>

definition arrives :: "('e \<Rightarrow> u8 list) \<Rightarrow> ('e \<Rightarrow> 'e) \<times> u8 list \<Rightarrow> bool" where
  "arrives avail = (\<lambda>(f, bs). \<forall>e. avail (f e) = avail e @ bs)"

fun read_feed :: "'e nabto_stream_engine \<Rightarrow> (('e \<Rightarrow> 'e) \<times> u8 list) list \<Rightarrow> 'e stm_run" where
  "read_feed E [] ctx = Some (emit [] ctx)"
| "read_feed E ((f, bs) # fs) ctx =
     runThen (\<lambda>c. nc_stream_application_event_callback E APPLICATION_EVENT_TYPE_DATA_READY (c\<lparr>stm_stream := f (stm_stream c)\<rparr>))
       (read_feed E fs) ctx"

definition read_all_run ::
    "'e nabto_stream_engine \<Rightarrow> nat \<Rightarrow> nat \<Rightarrow> nat \<Rightarrow> (('e \<Rightarrow> 'e) \<times> u8 list) list \<Rightarrow> 'e stm_run" where
  "read_all_run E buffer n cb fs = runThen (\<lambda>c. snd (nc_stream_async_read_all E buffer n cb c)) (read_feed E fs)"

definition reading :: "nat \<Rightarrow> nat \<Rightarrow> nat \<Rightarrow> nat \<Rightarrow> 'e nc_stream_context \<Rightarrow> bool" where
  "reading b cb n p c \<longleftrightarrow> stm_readAllCb c = Some cb \<and> stm_readSomeCb c = None \<and> stm_readBuffer c = Some (b, p)
     \<and> stm_readLength c = Some p \<and> stm_readBufferLength c = n - p \<and> (p < n \<or> n = 0 \<and> p = 0)"

text \<open>What a read that waits, or that has been answered, leaves behind.\<close>

definition read_done :: "('e \<Rightarrow> u8 list) \<Rightarrow> nat \<Rightarrow> nat \<Rightarrow> nat \<Rightarrow> nat \<Rightarrow> 'e nc_stream_context \<Rightarrow> stream_output list \<Rightarrow> bool" where
  "read_done avail b cb n p c out \<longleftrightarrow>
     answers out = [] \<and> reading b cb n p c \<and> (n = 0 \<or> avail (stm_stream c) = [])
     \<or> (\<exists>ec. answers out = [(cb, ec)] \<and> \<not> read_in_progress c \<and> (if ec = NABTO_EC_OK then p = n else p \<le> n))"

text \<open>
  What the streaming protocol promises of its write function: \<open>sent\<close> are the bytes it has accepted. A successful
  write appends a prefix of the buffer and says how long it is; one that fails appends nothing.
\<close>

definition stream_write_law :: "'e nabto_stream_engine \<Rightarrow> ('e \<Rightarrow> u8 list) \<Rightarrow> bool" where
  "stream_write_law E sent \<longleftrightarrow>
     (\<forall>bs e. case eng_write_buffer E bs e of (status, written, e') \<Rightarrow>
        if status = NABTO_STREAM_STATUS_OK then written \<le> length bs \<and> sent e' = sent e @ take written bs
        else sent e' = sent e)"

text \<open>Between two events that announce room, the protocol works on what it has accepted.\<close>

fun write_feed :: "'e nabto_stream_engine \<Rightarrow> ('e \<Rightarrow> 'e) list \<Rightarrow> 'e stm_run" where
  "write_feed E [] ctx = Some (emit [] ctx)"
| "write_feed E (f # fs) ctx =
     runThen (\<lambda>c. nc_stream_application_event_callback E APPLICATION_EVENT_TYPE_DATA_WRITE (c\<lparr>stm_stream := f (stm_stream c)\<rparr>))
       (write_feed E fs) ctx"

definition write_run :: "'e nabto_stream_engine \<Rightarrow> u8 list \<Rightarrow> nat \<Rightarrow> ('e \<Rightarrow> 'e) list \<Rightarrow> 'e stm_run" where
  "write_run E bs cb fs = runThen (\<lambda>c. snd (nc_stream_async_write E bs cb c)) (write_feed E fs)"

text \<open>The state of a write of \<open>bs\<close> of which \<open>k\<close> bytes have been accepted.\<close>

definition write_state :: "u8 list \<Rightarrow> nat \<Rightarrow> nat \<Rightarrow> 'e nc_stream_context \<Rightarrow> stream_output list \<Rightarrow> bool" where
  "write_state bs cb k c out \<longleftrightarrow>
     answers out = [] \<and> stm_writeCb c = Some cb \<and> stm_writeBuffer c = drop k bs \<and> (k < length bs \<or> bs = [] \<and> k = 0)
     \<or> (\<exists>ec. answers out = [(cb, ec)] \<and> stm_writeCb c = None \<and> k \<le> length bs \<and> (ec = NABTO_EC_OK \<longrightarrow> k = length bs))"

text \<open>
  A protocol with unbounded memory that has received the first bytes, accepts three bytes at a time and returns
  at most two bytes per read.
\<close>

record demo_engine_state =
  de_avail :: "u8 list"
  de_sent :: "u8 list"
  de_next :: nabto_stream_next_event_type

definition demo_engine :: "demo_engine_state nabto_stream_engine" where
  "demo_engine =
     \<lparr>eng_init = \<lparr>de_avail = [], de_sent = [], de_next = ET_WAIT\<rparr>, eng_destroy = (\<lambda>e. e), eng_send_segment_available = (\<lambda>e. e),
      eng_recv_segment_available = (\<lambda>e. e), eng_next_event_to_handle = de_next, eng_handle_timeout = (\<lambda>e. e),
      eng_dispatch_event = (\<lambda>e. (e, None)), eng_handle_time_wait = (\<lambda>e. e), eng_event_handled = (\<lambda>t e. e\<lparr>de_next := ET_WAIT\<rparr>),
      eng_next_event = (\<lambda>e. STAMP_INFINITE), eng_stamp_less = (\<lambda>s t. False), eng_stamp_diff_now = (\<lambda>e s. 0),
      eng_handle_packet = (\<lambda>bs e. e\<lparr>de_avail := de_avail e @ bs, de_next := ET_ACK\<rparr>), eng_connection_died = (\<lambda>e. e\<lparr>de_next := ET_CLOSED\<rparr>),
      eng_create_packet = (\<lambda>n t e. (take n [1, 2], e)), eng_create_rst_packet = (\<lambda>n. take n [4]), eng_accept = (\<lambda>e. e),
      eng_release = (\<lambda>e. e\<lparr>de_next := ET_RELEASED\<rparr>), eng_close = (\<lambda>e. (NABTO_STREAM_STATUS_CLOSED, e)),
      eng_read_buffer = (\<lambda>n e. (NABTO_STREAM_STATUS_OK, take (min n 2) (de_avail e), e\<lparr>de_avail := drop (min n 2) (de_avail e)\<rparr>)),
      eng_write_buffer = (\<lambda>bs e. (NABTO_STREAM_STATUS_OK, length (take 3 bs), e\<lparr>de_sent := de_sent e @ take 3 bs\<rparr>)),
      eng_content_type = (\<lambda>e. 7), eng_FLAG_SYN = 1, eng_FLAG_RST = 4\<rparr>"

definition stream_zero :: "'e nabto_stream_engine \<Rightarrow> 'e nc_stream_context" where
  "stream_zero E =
     \<lparr>stm_stream = eng_init E, stm_streamId = 0, stm_dtls = None, stm_ev = False, stm_active = False, stm_connectionRef = 0,
      stm_currentExpiry = STAMP_NOW, stm_negativeCount = 0, stm_timer = False, stm_acceptCb = None, stm_readAllCb = None,
      stm_readSomeCb = None, stm_readLength = None, stm_readBuffer = None, stm_readBufferLength = 0, stm_writeCb = None,
      stm_writeBuffer = [], stm_closeCb = None, stm_isSending = False, stm_sendEventType = ET_ACCEPT\<rparr>"

definition demo_chunks :: "((demo_engine_state \<Rightarrow> demo_engine_state) \<times> u8 list) list" where
  "demo_chunks = map (\<lambda>bs. (de_avail_update (\<lambda>as. as @ bs), bs)) [[1, 2, 3], [4, 5, 6]]"

section \<open>Runs\<close>

lemma prefix_out_simps [simp]:
  "prefix_out outs (Inl e) = Inl e" "prefix_out outs (Inr (s, out)) = Inr (s, outs @ out)"
  by (simp_all add: prefix_out_def)

lemma prefix_out_eq_Inr: "prefix_out outs r = Inr (s, out) \<longleftrightarrow> (\<exists>out'. r = Inr (s, out') \<and> out = outs @ out')"
  by (cases r) (auto simp: prefix_out_def)

lemma runThen_Inr:
  "f s = Some (Inr (s1, o1)) \<Longrightarrow> g s1 = Some (Inr (s2, o2)) \<Longrightarrow> runThen f g s = Some (Inr (s2, o1 @ o2))"
  by (simp add: runThen_def)

lemma runThen_eq_Inr_iff:
  "runThen f g s = Some (Inr (s2, out)) \<longleftrightarrow>
     (\<exists>s1 o1 o2. f s = Some (Inr (s1, o1)) \<and> g s1 = Some (Inr (s2, o2)) \<and> out = o1 @ o2)"
proof (cases "f s")
  case (Some r)
  then show ?thesis
    by (cases r) (auto simp: runThen_def bind_eq_Some_conv prefix_out_eq_Inr)
qed (simp add: runThen_def)

lemma outputs_append [simp]:
  "delivered (xs @ ys) = delivered xs @ delivered ys" "answers (xs @ ys) = answers xs @ answers ys"
  "store_reads (xs @ ys) m = store_reads ys (store_reads xs m)"
proof -
  show "delivered (xs @ ys) = delivered xs @ delivered ys" by (induction xs rule: delivered.induct) simp_all
  show "answers (xs @ ys) = answers xs @ answers ys" by (induction xs rule: answers.induct) simp_all
  show "store_reads (xs @ ys) m = store_reads ys (store_reads xs m)" by (induction xs m rule: store_reads.induct) (simp_all add: fun_upd_def)
qed

section \<open>Reading exactly the data that was received\<close>

lemma read_law_ok:
  assumes "stream_read_law E avail" "eng_read_buffer E n e = (NABTO_STREAM_STATUS_OK, bs, e')"
  shows "length bs \<le> n" "avail e = bs @ avail e'" "bs = [] \<Longrightarrow> n = 0 \<or> avail e = []"
  using assms unfolding stream_read_law_def by (metis (mono_tags, lifting) case_prod_conv)+

lemma read_law_error:
  assumes "stream_read_law E avail" "eng_read_buffer E n e = (status, bs, e')" "status \<noteq> NABTO_STREAM_STATUS_OK"
  shows "avail e' = avail e"
  using assms unfolding stream_read_law_def by (metis (mono_tags, lifting) case_prod_conv)

lemma status_to_ec_ok:
  "nc_stream_status_to_ec status = NABTO_EC_OK \<longleftrightarrow> status = NABTO_STREAM_STATUS_OK"
  "NABTO_EC_OK = nc_stream_status_to_ec status \<longleftrightarrow> status = NABTO_STREAM_STATUS_OK"
  by (cases status; simp)+

lemma do_read_all:
  assumes law: "stream_read_law E avail" and c: "reading b cb n p c"
  shows "\<exists>c' out. nc_stream_do_read E c = Some (Inr (c', out)) \<and> avail (stm_stream c) = delivered out @ avail (stm_stream c')
    \<and> (\<forall>m. n \<le> length (m b) \<longrightarrow> store_reads out m b = take p (m b) @ delivered out @ drop (p + length (delivered out)) (m b))
    \<and> read_done avail b cb n (p + length (delivered out)) c' out"
  using c
proof (induction "n - p" arbitrary: p c rule: less_induct)
  case less
  obtain status bs e where rb: "eng_read_buffer E (n - p) (stm_stream c) = (status, bs, e)"
    by (metis prod_cases3)
  note c = less.prems [unfolded reading_def]
  show ?case
  proof (cases "status = NABTO_STREAM_STATUS_OK")
    case False
    define c1 where "c1 = c\<lparr>stm_stream := e, stm_readLength := None, stm_readBuffer := None, stm_readBufferLength := 0, stm_readAllCb := None\<rparr>"
    have "nc_stream_do_read E c = Some (Inr (c1, [StmCallback cb (nc_stream_status_to_ec status)]))"
      using c False nc_stream_do_read.simps [of E c] by (simp add: rb emit_def nc_stream_resolve_read_def c1_def)
    moreover have "avail (stm_stream c1) = avail (stm_stream c)" "\<not> read_in_progress c1"
      using read_law_error [OF law rb False] c by (simp_all add: c1_def read_in_progress_def)
    ultimately show ?thesis
      using False c by (auto simp: read_done_def status_to_ec_ok)
  next
    case ok: True
    note rb = rb [unfolded ok] and laws = read_law_ok [OF law rb [unfolded ok]]
    show ?thesis
    proof (cases "bs = []")
      case True
      then have "nc_stream_do_read E c = Some (Inr (c\<lparr>stm_stream := e\<rparr>, []))"
        using c nc_stream_do_read.simps [of E c] by (simp add: rb emit_def)
      moreover have "reading b cb n p (c\<lparr>stm_stream := e\<rparr>)" "n = 0 \<or> avail e = []"
        using c laws(2,3) True by (auto simp: reading_def)
      ultimately show ?thesis
        using laws(2) True by (auto simp: read_done_def)
    next
      case False
      define c1 where "c1 = c\<lparr>stm_stream := e, stm_readLength := Some (p + length bs), stm_readBuffer := Some (b, p + length bs),
        stm_readBufferLength := n - (p + length bs)\<rparr>"
      have adv: "read_advance bs (c\<lparr>stm_stream := e\<rparr>)
          = Inr (c1, [StmReadBytes b p bs, StmReadLength (p + length bs)])"
        using c laws(1) by (simp add: read_advance_def emit_def c1_def)
      have le: "p + length bs \<le> n" using laws(1) c False by auto
      show ?thesis
      proof (cases "p + length bs = n")
        case True
        define c2 where "c2 = c1\<lparr>stm_readLength := None, stm_readBuffer := None, stm_readBufferLength := 0, stm_readAllCb := None\<rparr>"
        have "nc_stream_do_read E c = Some (Inr (c2, [StmReadBytes b p bs, StmReadLength (p + length bs), StmCallback cb NABTO_EC_OK]))"
          using c False True nc_stream_do_read.simps [of E c] adv
          by (simp add: rb emit_def nc_stream_resolve_read_def c2_def c1_def)
        moreover have "\<not> read_in_progress c2" "stm_stream c2 = e"
          using c by (simp_all add: c2_def c1_def read_in_progress_def)
        ultimately show ?thesis
          using laws(2) True by (auto simp: read_done_def)
      next
        case lt: False
        with le c have r1: "reading b cb n (p + length bs) c1" by (simp add: reading_def c1_def)
        have "n - (p + length bs) < n - p" using le False lt by (cases bs) auto
        from less.hyps [OF this r1] obtain c' out where
          ih: "nc_stream_do_read E c1 = Some (Inr (c', out))" "avail (stm_stream c1) = delivered out @ avail (stm_stream c')"
            "\<forall>m. n \<le> length (m b) \<longrightarrow> store_reads out m b
               = take (p + length bs) (m b) @ delivered out @ drop (p + length bs + length (delivered out)) (m b)"
            "read_done avail b cb n (p + length bs + length (delivered out)) c' out"
          by blast
        have "nc_stream_do_read E c = Some (Inr (c', [StmReadBytes b p bs, StmReadLength (p + length bs)] @ out))"
          using c False lt le nc_stream_do_read.simps [of E c] ih(1) adv by (simp add: rb c1_def)
        moreover have "avail (stm_stream c) = bs @ delivered out @ avail (stm_stream c')"
          using laws(2) ih(2) by (simp add: c1_def)
        moreover have "store_reads out (m(b := take p (m b) @ bs @ drop (p + length bs) (m b))) b
            = take p (m b) @ (bs @ delivered out) @ drop (p + length (bs @ delivered out)) (m b)" if "n \<le> length (m b)" for m
          using ih(3) that le by (simp add: ac_simps)
        ultimately show ?thesis
          using ih(4) by (intro exI [of _ c'] exI [of _ "[StmReadBytes b p bs, StmReadLength (p + length bs)] @ out"])
            (auto simp: read_done_def add.assoc)
      qed
    qed
  qed
qed

lemma read_feed_idle:
  assumes "\<not> read_in_progress c" "list_all (arrives avail) fs"
  shows "\<exists>c'. read_feed E fs c = Some (Inr (c', [])) \<and> \<not> read_in_progress c'
    \<and> avail (stm_stream c') = avail (stm_stream c) @ concat (map snd fs)"
  using assms
proof (induction fs arbitrary: c)
  case (Cons x fs)
  obtain f bs where x: "x = (f, bs)" by force
  define c1 where "c1 = c\<lparr>stm_stream := f (stm_stream c)\<rparr>"
  have c1: "\<not> read_in_progress c1" "avail (stm_stream c1) = avail (stm_stream c) @ bs"
    using Cons.prems by (simp_all add: c1_def read_in_progress_def arrives_def x)
  then have "nc_stream_do_read E c1 = Some (Inr (c1, []))"
    using nc_stream_do_read.simps [of E c1] by (simp add: read_in_progress_def emit_def)
  moreover obtain c' where "read_feed E fs c1 = Some (Inr (c', []))" "\<not> read_in_progress c'"
    "avail (stm_stream c') = avail (stm_stream c1) @ concat (map snd fs)"
    using Cons.IH [OF c1(1)] Cons.prems by auto
  ultimately show ?case
    using c1 by (auto simp: x runThen_def nc_stream_application_event_callback_def c1_def [symmetric])
qed (simp add: emit_def)

lemma read_done_cases:
  assumes "read_done avail b cb n p c out"
  obtains (waits) "answers out = []" "reading b cb n p c" "n = 0 \<or> avail (stm_stream c) = []"
  | (answered) ec where "answers out = [(cb, ec)]" "\<not> read_in_progress c" "if ec = NABTO_EC_OK then p = n else p \<le> n"
  using assms unfolding read_done_def by blast

lemma read_feed_pending:
  assumes law: "stream_read_law E avail"
    and "reading b cb n p c" "n = 0 \<or> avail (stm_stream c) = []" "list_all (arrives avail) fs" "n \<le> length (m b)"
  shows "\<exists>c' out. read_feed E fs c = Some (Inr (c', out))
    \<and> avail (stm_stream c) @ concat (map snd fs) = delivered out @ avail (stm_stream c')
    \<and> store_reads out m b = take p (m b) @ delivered out @ drop (p + length (delivered out)) (m b)
    \<and> read_done avail b cb n (p + length (delivered out)) c' out"
  using assms(2-)
proof (induction fs arbitrary: c p m)
  case Nil
  then show ?case by (auto simp: emit_def read_done_def)
next
  case (Cons x fs)
  obtain f bs where x: "x = (f, bs)" by force
  define c1 where "c1 = c\<lparr>stm_stream := f (stm_stream c)\<rparr>"
  have c1: "reading b cb n p c1" "avail (stm_stream c1) = avail (stm_stream c) @ bs"
    using Cons.prems by (simp_all add: c1_def reading_def arrives_def x)
  obtain c2 o2 where 2: "nc_stream_do_read E c1 = Some (Inr (c2, o2))" "avail (stm_stream c1) = delivered o2 @ avail (stm_stream c2)"
      "store_reads o2 m b = take p (m b) @ delivered o2 @ drop (p + length (delivered o2)) (m b)"
      "read_done avail b cb n (p + length (delivered o2)) c2 o2"
    using do_read_all [OF law c1(1)] Cons.prems by blast
  define m2 where "m2 = store_reads o2 m"
  have feed: "read_feed E (x # fs) c = Some (Inr (c3, o2 @ o3))" if "read_feed E fs c2 = Some (Inr (c3, o3))" for c3 o3
    using 2(1) that by (simp add: x runThen_def nc_stream_application_event_callback_def c1_def [symmetric])
  from 2(4) show ?case
  proof (cases rule: read_done_cases)
    case waits
    have q: "p + length (delivered o2) \<le> n" using waits(2) by (auto simp: reading_def)
    have "n \<le> length (m2 b)" using 2(3) q Cons.prems(4) by (simp add: m2_def)
    then obtain c3 o3 where 3: "read_feed E fs c2 = Some (Inr (c3, o3))"
      "avail (stm_stream c2) @ concat (map snd fs) = delivered o3 @ avail (stm_stream c3)"
      "store_reads o3 m2 b = take (p + length (delivered o2)) (m2 b) @ delivered o3
         @ drop (p + length (delivered o2) + length (delivered o3)) (m2 b)"
      "read_done avail b cb n (p + length (delivered o2) + length (delivered o3)) c3 o3"
      using Cons.IH [of "p + length (delivered o2)" c2 m2] waits Cons.prems by auto
    have "store_reads o3 m2 b = take p (m b) @ (delivered o2 @ delivered o3)
        @ drop (p + length (delivered o2 @ delivered o3)) (m b)"
      using 3(3) 2(3) q Cons.prems(4) by (simp add: m2_def ac_simps)
    moreover have "read_done avail b cb n (p + length (delivered (o2 @ o3))) c3 (o2 @ o3)"
      using 3(4) waits(1) by (auto simp: read_done_def add.assoc)
    moreover have "avail (stm_stream c) @ concat (map snd (x # fs)) = (delivered o2 @ delivered o3) @ avail (stm_stream c3)"
      using c1(2) 2(2) 3(2) by (simp add: x) (metis append.assoc)
    ultimately show ?thesis
      using feed [OF 3(1)] by (intro exI [of _ c3] exI [of _ "o2 @ o3"]) (simp add: m2_def)
  next
    case (answered ec)
    from read_feed_idle [OF answered(2), of avail fs E] Cons.prems obtain c3 where
      3: "read_feed E fs c2 = Some (Inr (c3, []))" "\<not> read_in_progress c3"
        "avail (stm_stream c3) = avail (stm_stream c2) @ concat (map snd fs)"
      by auto
    have "read_done avail b cb n (p + length (delivered o2)) c3 o2"
      using answered 3(2) by (auto simp: read_done_def)
    moreover have "avail (stm_stream c) @ concat (map snd (x # fs)) = delivered o2 @ avail (stm_stream c3)"
      using c1(2) 2(2) 3(3) by (simp add: x)
    ultimately show ?thesis
      using feed [OF 3(1)] 2(3) by (intro exI [of _ c3] exI [of _ o2]) simp
  qed
qed


section \<open>A protocol that satisfies the laws\<close>

lemma demo_engine_laws: "stream_read_law demo_engine de_avail" "stream_write_law demo_engine de_sent"
  by (auto simp: stream_read_law_def stream_write_law_def demo_engine_def min_def)

declare nc_stream_do_read.simps [code] nc_stream_do_write_all.simps [code] nc_stream_event.simps [code]

lemma demo_read_run:
  "map_option (map_sum id (\<lambda>(c, out). answers out)) (read_all_run demo_engine 0 5 9 demo_chunks (stream_zero demo_engine))
     = Some (Inr [(9, NABTO_EC_OK)])"
  by code_simp


section \<open>Writing all data in order\<close>

lemma write_law_ok:
  assumes "stream_write_law E sent" "eng_write_buffer E bs e = (NABTO_STREAM_STATUS_OK, written, e')"
  shows "written \<le> length bs" "sent e' = sent e @ take written bs"
  using assms unfolding stream_write_law_def by (metis (mono_tags, lifting) case_prod_conv)+

lemma write_law_error:
  assumes "stream_write_law E sent" "eng_write_buffer E bs e = (status, written, e')" "status \<noteq> NABTO_STREAM_STATUS_OK"
  shows "sent e' = sent e"
  using assms unfolding stream_write_law_def by (metis (mono_tags, lifting) case_prod_conv)

lemma do_write_all:
  assumes law: "stream_write_law E sent"
    and "write_state bs cb k c []" "stm_writeCb c = Some cb" "sent (stm_stream c) = S @ take k bs"
  shows "\<exists>c' out k'. nc_stream_do_write_all E c = Some (Inr (c', out)) \<and> sent (stm_stream c') = S @ take k' bs
    \<and> write_state bs cb k' c' out \<and> (bs = [] \<longrightarrow> (cb, NABTO_EC_OK) \<notin> set (answers out))"
  using assms(2-)
proof (induction "length bs - k" arbitrary: k c rule: less_induct)
  case less
  have c: "stm_writeBuffer c = drop k bs" "k < length bs \<or> bs = [] \<and> k = 0"
    using less.prems by (auto simp: write_state_def)
  obtain status w e where wb: "eng_write_buffer E (drop k bs) (stm_stream c) = (status, w, e)"
    by (metis prod_cases3)
  show ?case
  proof (cases "status = NABTO_STREAM_STATUS_OK")
    case False
    have "nc_stream_do_write_all E c
        = Some (Inr (c\<lparr>stm_stream := e, stm_writeCb := None\<rparr>, [StmCallback cb (nc_stream_status_to_ec status)]))"
      using nc_stream_do_write_all.simps [of E c] c wb False less.prems(2) by (simp add: resolve_write_def emit_def)
    moreover have "write_state bs cb k (c\<lparr>stm_stream := e, stm_writeCb := None\<rparr>) [StmCallback cb (nc_stream_status_to_ec status)]"
      using c False by (auto simp: write_state_def status_to_ec_ok)
    ultimately show ?thesis
      using write_law_error [OF law wb False] less.prems(3) False
      by (intro exI [of _ "c\<lparr>stm_stream := e, stm_writeCb := None\<rparr>"] exI [of _ "[StmCallback cb (nc_stream_status_to_ec status)]"] exI [of _ k])
        (simp add: status_to_ec_ok)
  next
    case ok: True
    note laws = write_law_ok [OF law wb [unfolded ok]]
    have sent: "sent e = S @ take (k + w) bs"
      using laws(2) less.prems(3) by (simp add: take_add)
    consider (none) "w = 0" | (all) "w \<noteq> 0" "k + w = length bs" | (part) "w \<noteq> 0" "k + w < length bs"
      using laws(1) c(2) by fastforce
    then show ?thesis
    proof cases
      case none
      have "nc_stream_do_write_all E c = Some (Inr (c\<lparr>stm_stream := e\<rparr>, []))"
        using nc_stream_do_write_all.simps [of E c] c wb ok none by (simp add: emit_def)
      moreover have "write_state bs cb k (c\<lparr>stm_stream := e\<rparr>) []"
        using c less.prems(2) by (auto simp: write_state_def)
      ultimately show ?thesis
        using sent none by (intro exI [of _ "c\<lparr>stm_stream := e\<rparr>"] exI [of _ "[]"] exI [of _ k]) simp
    next
      case all
      have "nc_stream_do_write_all E c = Some (Inr (c\<lparr>stm_stream := e, stm_writeCb := None\<rparr>, [StmCallback cb NABTO_EC_OK]))"
        using nc_stream_do_write_all.simps [of E c] c wb ok all less.prems(2) by (auto simp: emit_def resolve_write_def)
      moreover have "write_state bs cb (length bs) (c\<lparr>stm_stream := e, stm_writeCb := None\<rparr>) [StmCallback cb NABTO_EC_OK]"
        by (auto simp: write_state_def)
      ultimately show ?thesis
        using sent all c(2)
        by (intro exI [of _ "c\<lparr>stm_stream := e, stm_writeCb := None\<rparr>"] exI [of _ "[StmCallback cb NABTO_EC_OK]"] exI [of _ "length bs"]) auto
    next
      case part
      define c1 where "c1 = c\<lparr>stm_stream := e, stm_writeBuffer := drop (k + w) bs\<rparr>"
      have "nc_stream_do_write_all E c = nc_stream_do_write_all E c1"
      proof -
        have "w \<noteq> length (drop k bs)" "\<not> w > length (drop k bs)" using part by auto
        then show ?thesis
          using nc_stream_do_write_all.simps [of E c] wb part(1)
          by (simp only: c(1) ok prod.case if_True if_False simp_thms c1_def drop_drop add.commute [of w k]) 
      qed
      moreover have "write_state bs cb (k + w) c1 []" "stm_writeCb c1 = Some cb" "sent (stm_stream c1) = S @ take (k + w) bs"
        using part less.prems(2) sent by (auto simp: write_state_def c1_def)
      ultimately show ?thesis using less.hyps [of "k + w" c1] part by simp
    qed
  qed
qed

lemma write_feed_run:
  assumes law: "stream_write_law E sent" and fs: "list_all (\<lambda>f. \<forall>e. sent (f e) = sent e) fs"
    and "write_state bs cb k c out0" "sent (stm_stream c) = S @ take k bs"
  shows "\<exists>c' out k'. write_feed E fs c = Some (Inr (c', out)) \<and> sent (stm_stream c') = S @ take k' bs
    \<and> write_state bs cb k' c' (out0 @ out) \<and> (bs = [] \<longrightarrow> (cb, NABTO_EC_OK) \<notin> set (answers out))"
  using assms(2-)
proof (induction fs arbitrary: c k out0)
  case (Cons f fs)
  define c1 where "c1 = c\<lparr>stm_stream := f (stm_stream c)\<rparr>"
  have c1: "write_state bs cb k c1 out0" "sent (stm_stream c1) = S @ take k bs"
    using Cons.prems by (auto simp: c1_def write_state_def)
  have "\<exists>c2 o2 k2. write_if_pending E c1 = Some (Inr (c2, o2)) \<and> sent (stm_stream c2) = S @ take k2 bs
      \<and> write_state bs cb k2 c2 (out0 @ o2) \<and> (bs = [] \<longrightarrow> (cb, NABTO_EC_OK) \<notin> set (answers o2))"
  proof (cases "stm_writeCb c1")
    case None
    with c1 show ?thesis by (auto simp: write_if_pending_def emit_def)
  next
    case (Some cb')
    with c1(1) have "answers out0 = []" "write_state bs cb k c1 []" "stm_writeCb c1 = Some cb"
      by (auto simp: write_state_def)
    with do_write_all [OF law this(2,3) c1(2)] show ?thesis
      by (auto simp: write_if_pending_def write_state_def)
  qed
  then obtain c2 o2 k2 where 2: "write_if_pending E c1 = Some (Inr (c2, o2))" "sent (stm_stream c2) = S @ take k2 bs"
    "write_state bs cb k2 c2 (out0 @ o2)" "bs = [] \<longrightarrow> (cb, NABTO_EC_OK) \<notin> set (answers o2)" by blast
  from Cons.IH [OF _ 2(3,2)] Cons.prems(1) obtain c3 o3 k3 where
    3: "write_feed E fs c2 = Some (Inr (c3, o3))" "sent (stm_stream c3) = S @ take k3 bs"
      "write_state bs cb k3 c3 ((out0 @ o2) @ o3)" "bs = [] \<longrightarrow> (cb, NABTO_EC_OK) \<notin> set (answers o3)"
    by auto
  have "write_feed E (f # fs) c = Some (Inr (c3, o2 @ o3))"
    using 2(1) 3(1) by (simp add: runThen_def nc_stream_application_event_callback_def c1_def [symmetric])
  with 3 2(4) show ?case by (intro exI [of _ c3] exI [of _ "o2 @ o3"] exI [of _ k3]) simp
qed (auto simp: emit_def)

text \<open>
  C14. Writing to a stream: the bytes of the buffer are handed to the streaming protocol in order, each once, however
  many of them it accepts at a time. The write always returns to the event loop and calls its callback at most
  once: with success only when every byte has been accepted, and with an error when the protocol reports
  one. A write of no bytes is never reported as successful.
\<close>

theorem nc_stream_write_all_chunks:
  assumes "stream_write_law E sent" "list_all (\<lambda>f. \<forall>e. sent (f e) = sent e) fs" "stm_writeCb c = None"
  shows "\<exists>c' out k. write_run E bs cb fs c = Some (Inr (c', out)) \<and> sent (stm_stream c') = sent (stm_stream c) @ take k bs
    \<and> (answers out = [] \<and> stm_writeCb c' = Some cb \<and> stm_writeBuffer c' = drop k bs \<and> (k < length bs \<or> bs = [])
       \<or> answers out = [(cb, NABTO_EC_OK)] \<and> k = length bs \<and> bs \<noteq> []
       \<or> (\<exists>ec. ec \<noteq> NABTO_EC_OK \<and> answers out = [(cb, ec)]))"
proof -
  define c0 where "c0 = c\<lparr>stm_writeCb := Some cb, stm_writeBuffer := bs\<rparr>"
  have c0: "write_state bs cb 0 c0 []" "stm_writeCb c0 = Some cb" "sent (stm_stream c0) = sent (stm_stream c) @ take 0 bs"
    by (auto simp: c0_def write_state_def)
  obtain c1 o1 k1 where 1: "nc_stream_do_write_all E c0 = Some (Inr (c1, o1))" "sent (stm_stream c1) = sent (stm_stream c) @ take k1 bs"
    "write_state bs cb k1 c1 o1" "bs = [] \<longrightarrow> (cb, NABTO_EC_OK) \<notin> set (answers o1)"
    using do_write_all [OF assms(1) c0] by blast
  obtain c2 o2 k2 where 2: "write_feed E fs c1 = Some (Inr (c2, o2))" "sent (stm_stream c2) = sent (stm_stream c) @ take k2 bs"
    "write_state bs cb k2 c2 (o1 @ o2)" "bs = [] \<longrightarrow> (cb, NABTO_EC_OK) \<notin> set (answers o2)"
    using write_feed_run [OF assms(1,2) 1(3,2)] by blast
  have "write_run E bs cb fs c = Some (Inr (c2, o1 @ o2))"
    using 1(1) 2(1) assms(3) by (simp add: write_run_def runThen_def nc_stream_async_write_def c0_def)
  moreover have "answers (o1 @ o2) = [] \<and> stm_writeCb c2 = Some cb \<and> stm_writeBuffer c2 = drop k2 bs \<and> (k2 < length bs \<or> bs = [])
       \<or> answers (o1 @ o2) = [(cb, NABTO_EC_OK)] \<and> k2 = length bs \<and> bs \<noteq> []
       \<or> (\<exists>ec. ec \<noteq> NABTO_EC_OK \<and> answers (o1 @ o2) = [(cb, ec)])"
  proof (cases "answers (o1 @ o2)")
    case Nil
    with 2(3) show ?thesis by (auto simp: write_state_def)
  next
    case Cons
    with 2(3) obtain ec where ec: "answers (o1 @ o2) = [(cb, ec)]" "ec = NABTO_EC_OK \<longrightarrow> k2 = length bs"
      by (auto simp: write_state_def)
    have "bs = [] \<longrightarrow> (cb, NABTO_EC_OK) \<notin> set (answers (o1 @ o2))" using 1(4) 2(4) by simp
    with ec show ?thesis by (cases "ec = NABTO_EC_OK") auto
  qed
  ultimately show ?thesis using 2(2) by (intro exI [of _ c2] exI [of _ "o1 @ o2"] exI [of _ k2]) simp
qed

lemma demo_write_run:
  "map_option (map_sum id (\<lambda>(c, out). answers out)) (write_run demo_engine [1, 2, 3, 4] 9 [id] (stream_zero demo_engine))
     = Some (Inr [(9, NABTO_EC_OK)])"
  by code_simp

theorem nc_stream_write_all_chunks_witness:
  "\<exists>c' out. write_run demo_engine [1, 2, 3, 4] 9 [id] (stream_zero demo_engine) = Some (Inr (c', out))
     \<and> de_sent (stm_stream c') = [1, 2, 3, 4] \<and> answers out = [(9, NABTO_EC_OK)]"
proof -
  have idle: "stm_writeCb (stream_zero demo_engine) = None" "de_sent (stm_stream (stream_zero demo_engine)) = []"
    by (simp_all add: stream_zero_def demo_engine_def)
  have fs: "list_all (\<lambda>f. \<forall>e. de_sent (f e) = de_sent e) [id]" by simp
  obtain c' out k where run: "write_run demo_engine [1, 2, 3, 4] 9 [id] (stream_zero demo_engine) = Some (Inr (c', out))"
    "de_sent (stm_stream c') = take k [1, 2, 3, 4]"
    "answers out = [] \<or> answers out = [(9, NABTO_EC_OK)] \<and> k = 4 \<or> (\<exists>ec. ec \<noteq> NABTO_EC_OK \<and> answers out = [(9, ec)])"
    using nc_stream_write_all_chunks [OF demo_engine_laws(2) fs idle(1), of "[1, 2, 3, 4]" 9] idle(2) by fastforce
  have ans: "answers out = [(9, NABTO_EC_OK)]" using demo_write_run run(1) by simp
  with run(3) have "k = 4" by simp
  with run ans show ?thesis by simp
qed

text \<open>What the operations of the application and of the events leave alone.\<close>

definition stm_same :: "'e nc_stream_context \<Rightarrow> 'e nc_stream_context \<Rightarrow> bool" where
  "stm_same c c' \<longleftrightarrow> stm_streamId c' = stm_streamId c \<and> stm_dtls c' = stm_dtls c \<and> stm_ev c' = stm_ev c
     \<and> stm_active c' = stm_active c \<and> stm_timer c' = stm_timer c \<and> stm_connectionRef c' = stm_connectionRef c"

text \<open>A stream whose events exist while it is active, and whose read, of which there is one at most, has a buffer.\<close>

definition stream_ok :: "'e nc_stream_context \<Rightarrow> bool" where
  "stream_ok c \<longleftrightarrow>
     (if stm_active c then stm_ev c \<and> stm_timer c else stm_streamId c = 0 \<and> stm_dtls c = None)
     \<and> (read_in_progress c \<longrightarrow> stm_readBuffer c \<noteq> None \<and> stm_readLength c \<noteq> None)
     \<and> (stm_readAllCb c = None \<or> stm_readSomeCb c = None)"

definition stream_gone :: "'e nc_stream_context \<Rightarrow> bool" where
  "stream_gone c \<longleftrightarrow> \<not> stm_active c \<and> stm_streamId c = 0 \<and> stm_dtls c = None"

text \<open>
  The laws of the protocol that an event of a stream relies on: those of reading and writing, that a packet fits
  the space it was given, and that a time to wait for is less than \<open>2 ^ 31 - 2\<close> milliseconds away.
\<close>

definition stream_engine_laws :: "'e nabto_stream_engine \<Rightarrow> bool" where
  "stream_engine_laws E \<longleftrightarrow>
     (\<exists>avail. stream_read_law E avail) \<and> (\<exists>sent. stream_write_law E sent)
     \<and> (\<forall>n t e. length (fst (eng_create_packet E n t e)) \<le> n)
     \<and> (\<forall>e s. sint (eng_stamp_diff_now E e s) < 2 ^ 31 - 2)
     \<and> (\<forall>n. length (eng_create_rst_packet E n) \<le> n)"

text \<open>The events that are due for sending run out when they are handled; \<open>left\<close> bounds their number.\<close>

definition stream_progress_law :: "'e nabto_stream_engine \<Rightarrow> ('e \<Rightarrow> nat) \<Rightarrow> bool" where
  "stream_progress_law E left \<longleftrightarrow>
     (\<forall>e. let e0 = eng_recv_segment_available E (eng_send_segment_available E e); t = eng_next_event_to_handle E e0 in
        sends_packet t \<longrightarrow> left (eng_event_handled E t e0) < left e)"

text \<open>The packets a stream sends start with its identifier.\<close>

definition sends_as :: "u64 \<Rightarrow> nat option \<Rightarrow> stream_output list \<Rightarrow> bool" where
  "sends_as streamId dtls out \<longleftrightarrow>
     (\<forall>d p. StmSend d p \<in> set out \<longrightarrow> dtls = Some d \<and> (\<exists>q. p = AT_STREAM # var_uint_write_forward streamId @ q))"

text \<open>An operation that returns, without a fault, in a state that is fine.\<close>

definition stm_total :: "('e nc_stream_context \<Rightarrow> 'e nc_stream_context \<Rightarrow> bool) \<Rightarrow> 'e stm_run \<Rightarrow> 'e nc_stream_context \<Rightarrow> bool" where
  "stm_total R f c \<longleftrightarrow> (\<exists>c' out. f c = Some (Inr (c', out)) \<and> R c c' \<and> stream_ok c' \<and> sends_as (stm_streamId c) (stm_dtls c) out)"

text \<open>An event of a stream ends with the stream as it was, or with its destruction.\<close>

definition stm_kept :: "'e nc_stream_context \<Rightarrow> 'e nc_stream_context \<Rightarrow> bool" where
  "stm_kept c c' \<longleftrightarrow> stm_same c c' \<or> stream_gone c' \<and> stm_connectionRef c' = stm_connectionRef c"

section \<open>The events of a stream return without a fault\<close>

lemma stm_same_refl [simp]: "stm_same c c" by (simp add: stm_same_def)

lemma stm_same_trans: "stm_same a b \<Longrightarrow> stm_same b c \<Longrightarrow> stm_same a c"
  by (simp add: stm_same_def)

lemma stm_same_simps [simp]:
  "stm_same c (c'\<lparr>stm_stream := e\<rparr>) = stm_same c c'" "stm_same (c\<lparr>stm_stream := e\<rparr>) c' = stm_same c c'"
  "stm_same c (c'\<lparr>stm_writeCb := w\<rparr>) = stm_same c c'" "stm_same c (c'\<lparr>stm_writeBuffer := b\<rparr>) = stm_same c c'"
  "stm_same (c\<lparr>stm_writeBuffer := b\<rparr>) c' = stm_same c c'"
  "stm_same c (c'\<lparr>stm_closeCb := w\<rparr>) = stm_same c c'" "stm_same c (c'\<lparr>stm_acceptCb := w\<rparr>) = stm_same c c'"
  "stm_same c (c'\<lparr>stm_isSending := x\<rparr>) = stm_same c c'" "stm_same c (c'\<lparr>stm_sendEventType := t\<rparr>) = stm_same c c'"
  "stm_same c (c'\<lparr>stm_currentExpiry := s\<rparr>) = stm_same c c'" "stm_same c (c'\<lparr>stm_negativeCount := n\<rparr>) = stm_same c c'"
  by (simp_all add: stm_same_def)

lemma stream_ok_simps [simp]:
  "stream_ok (c\<lparr>stm_stream := e\<rparr>) = stream_ok c" "stream_ok (c\<lparr>stm_writeCb := w\<rparr>) = stream_ok c"
  "stream_ok (c\<lparr>stm_writeBuffer := b\<rparr>) = stream_ok c" "stream_ok (c\<lparr>stm_closeCb := w\<rparr>) = stream_ok c"
  "stream_ok (c\<lparr>stm_acceptCb := w\<rparr>) = stream_ok c" "stream_ok (c\<lparr>stm_isSending := x\<rparr>) = stream_ok c"
  "stream_ok (c\<lparr>stm_sendEventType := t\<rparr>) = stream_ok c" "stream_ok (c\<lparr>stm_currentExpiry := s\<rparr>) = stream_ok c"
  "stream_ok (c\<lparr>stm_negativeCount := n\<rparr>) = stream_ok c"
  by (simp_all add: stream_ok_def read_in_progress_def)

lemma sends_as_simps [simp]:
  "sends_as i d []" "sends_as i d [StmCallback cb ec]" "sends_as i d [StmPost]" "sends_as i d [StmPostTimed ms]"
  "sends_as i d [StmCancelTimer]" "sends_as i d [StmListener cb ec]" "sends_as i d (xs @ ys) \<longleftrightarrow> sends_as i d xs \<and> sends_as i d ys"
  by (auto simp: sends_as_def)

lemma stm_total_emit:
  assumes "f c = Some (emit out c')" "R c c'" "stream_ok c'" "sends_as (stm_streamId c) (stm_dtls c) out"
  shows "stm_total R f c"
  using assms by (auto simp: stm_total_def emit_def)

lemma stm_total_then:
  assumes f: "stm_total stm_same f c"
    and g: "\<And>c'. stm_same c c' \<Longrightarrow> stream_ok c' \<Longrightarrow> stm_total stm_same g c'"
  shows "stm_total stm_same (runThen f g) c"
proof -
  obtain c1 o1 where 1: "f c = Some (Inr (c1, o1))" "stm_same c c1" "stream_ok c1" "sends_as (stm_streamId c) (stm_dtls c) o1"
    using f by (auto simp: stm_total_def)
  obtain c2 o2 where 2: "g c1 = Some (Inr (c2, o2))" "stm_same c1 c2" "stream_ok c2" "sends_as (stm_streamId c1) (stm_dtls c1) o2"
    using g [OF 1(2,3)] by (auto simp: stm_total_def)
  have "stm_streamId c1 = stm_streamId c" "stm_dtls c1 = stm_dtls c" using 1(2) by (simp_all add: stm_same_def)
  with 1 2 stm_same_trans [OF 1(2) 2(2)] show ?thesis
    by (auto simp: stm_total_def runThen_Inr)
qed

lemma stm_total_engine:
  "stm_total stm_same f (c\<lparr>stm_stream := e\<rparr>) \<Longrightarrow> stm_total stm_same (\<lambda>_. f (c\<lparr>stm_stream := e\<rparr>)) c"
  by (auto simp: stm_total_def stm_same_def)

lemma stream_ok_read_fields:
  "stm_same c0 (c\<lparr>stm_readLength := l, stm_readBuffer := b, stm_readBufferLength := n\<rparr>) = stm_same c0 c"
  "stm_same c0 (c\<lparr>stm_readLength := l, stm_readBuffer := b, stm_readBufferLength := n, stm_readAllCb := r\<rparr>) = stm_same c0 c"
  "stm_same c0 (c\<lparr>stm_readLength := l, stm_readBuffer := b, stm_readBufferLength := n, stm_readSomeCb := r\<rparr>) = stm_same c0 c"
  by (simp_all add: stm_same_def)

text \<open>At most one of the two read callbacks is set, so that answering a read ends it.\<close>

lemma resolve_read_total:
  assumes "stream_ok c" "stm_same c0 c"
  shows "\<exists>c' out. nc_stream_resolve_read ec c = Inr (c', out) \<and> stm_same c0 c' \<and> stream_ok c' \<and> sends_as i d out"
proof -
  have ok: "stream_ok c' = (if stm_active c then stm_ev c \<and> stm_timer c else stm_streamId c = 0 \<and> stm_dtls c = None)"
    if "stm_same c c'" "\<not> read_in_progress c'" for c' using that by (simp add: stream_ok_def stm_same_def read_in_progress_def)
  show ?thesis
    using assms
    by (cases "stm_readAllCb c"; cases "stm_readSomeCb c")
       (auto simp: nc_stream_resolve_read_def emit_def stream_ok_read_fields ok read_in_progress_def stream_ok_def)
qed

lemma do_read_total:
  assumes law: "stream_read_law E avail" and "stream_ok c"
  shows "stm_total stm_same (nc_stream_do_read E) c"
  using assms(2)
proof (induction "stm_readBufferLength c" arbitrary: c rule: less_induct)
  case less
  obtain status bs e where rb: "eng_read_buffer E (stm_readBufferLength c) (stm_stream c) = (status, bs, e)"
    by (metis prod_cases3)
  define c0 where "c0 = c\<lparr>stm_stream := e\<rparr>"
  have c0: "stream_ok c0" "stm_same c c0"
    using less.prems by (simp_all add: c0_def)
  show ?case
  proof (cases "read_in_progress c")
    case False
    then show ?thesis
      using nc_stream_do_read.simps [of E c] less.prems by (intro stm_total_emit) (auto simp: read_in_progress_def)
  next
    case busy: True
    then have unfold: "nc_stream_do_read E c = (if status = NABTO_STREAM_STATUS_OK then
          if bs = [] then Some (emit [] c0)
          else case read_advance bs c0 of
            Inl f \<Rightarrow> Some (Inl f)
          | Inr (ctx1, out) \<Rightarrow>
              if stm_readAllCb ctx1 \<noteq> None then
                if stm_readBufferLength ctx1 = 0 then Some (prefix_out out (nc_stream_resolve_read NABTO_EC_OK ctx1))
                else Option.bind (nc_stream_do_read E ctx1) (\<lambda>r. Some (prefix_out out r))
              else Some (prefix_out out (nc_stream_resolve_read NABTO_EC_OK ctx1))
        else Some (nc_stream_resolve_read (nc_stream_status_to_ec status) c0))"
      by (subst nc_stream_do_read.simps) (auto simp: rb c0_def read_in_progress_def)
    consider (err) "status \<noteq> NABTO_STREAM_STATUS_OK" | (none) "status = NABTO_STREAM_STATUS_OK" "bs = []"
      | (some) "status = NABTO_STREAM_STATUS_OK" "bs \<noteq> []" by blast
    then show ?thesis
    proof cases
      case err
      with unfold resolve_read_total [OF c0, of "nc_stream_status_to_ec status" "stm_streamId c" "stm_dtls c"] show ?thesis
        by (auto simp: stm_total_def)
    next
      case none
      with unfold c0 show ?thesis by (auto simp: stm_total_def emit_def)
    next
      case some
      have le: "length bs \<le> stm_readBufferLength c" using read_law_ok(1) [OF law rb [unfolded some(1)]] .
      obtain b p l where bl: "stm_readBuffer c = Some (b, p)" "stm_readLength c = Some l"
        using busy less.prems by (auto simp: stream_ok_def)
      define c1 where "c1 = c0\<lparr>stm_readLength := Some (l + length bs), stm_readBuffer := Some (b, p + length bs),
        stm_readBufferLength := stm_readBufferLength c - length bs\<rparr>"
      have adv: "read_advance bs c0 = Inr (c1, [StmReadBytes b p bs, StmReadLength (l + length bs)])"
        using le bl by (simp add: read_advance_def emit_def c0_def c1_def)
      have c1: "stream_ok c1" "stm_same c c1"
        using c0 by (auto simp: c1_def stream_ok_def stm_same_def read_in_progress_def)
      have quiet: "sends_as i d [StmReadBytes b p bs, StmReadLength (l + length bs)]" for i d by (simp add: sends_as_def)
      show ?thesis
      proof (cases "stm_readAllCb c1 \<noteq> None \<and> stm_readBufferLength c1 \<noteq> 0")
        case True
        have "stm_readBufferLength c1 < stm_readBufferLength c"
          using some(2) True by (cases bs) (auto simp: c1_def)
        from less.hyps [OF this c1(1)] obtain c2 o2 where 2: "nc_stream_do_read E c1 = Some (Inr (c2, o2))" "stm_same c1 c2"
          "stream_ok c2" "sends_as (stm_streamId c1) (stm_dtls c1) o2" by (auto simp: stm_total_def)
        moreover have "stm_streamId c1 = stm_streamId c" "stm_dtls c1 = stm_dtls c" using c1(2) by (simp_all add: stm_same_def)
        moreover have "nc_stream_do_read E c = Some (Inr (c2, [StmReadBytes b p bs, StmReadLength (l + length bs)] @ o2))"
          using unfold some adv True 2(1) by simp
        ultimately show ?thesis
          using quiet stm_same_trans [OF c1(2) 2(2)] unfolding stm_total_def by (metis sends_as_simps(7))
      next
        case False
        obtain c2 o2 where 2: "nc_stream_resolve_read NABTO_EC_OK c1 = Inr (c2, o2)" "stm_same c c2" "stream_ok c2"
            "sends_as (stm_streamId c) (stm_dtls c) o2"
          using resolve_read_total [OF c1] by blast
        then have "nc_stream_do_read E c = Some (Inr (c2, [StmReadBytes b p bs, StmReadLength (l + length bs)] @ o2))"
          using unfold some adv False by auto
        with 2 quiet show ?thesis unfolding stm_total_def by (metis sends_as_simps(7))
      qed
    qed
  qed
qed

lemma do_write_total:
  assumes law: "stream_write_law E sent" and "stream_ok c" "stm_writeCb c \<noteq> None"
  shows "stm_total stm_same (nc_stream_do_write_all E) c"
  using assms(2,3)
proof (induction "length (stm_writeBuffer c)" arbitrary: c rule: less_induct)
  case less
  obtain status w e where wb: "eng_write_buffer E (stm_writeBuffer c) (stm_stream c) = (status, w, e)"
    by (metis prod_cases3)
  obtain cb where cb: "stm_writeCb c = Some cb" using less.prems by blast
  have fin: "stm_total stm_same f c" if "f c = Some (resolve_write ec (c\<lparr>stm_stream := e\<rparr>))" for ec and f :: "'a stm_run"
    using that cb less.prems(1) by (simp add: stm_total_def resolve_write_def emit_def)
  show ?case
  proof (cases "status = NABTO_STREAM_STATUS_OK \<and> w \<noteq> 0 \<and> w < length (stm_writeBuffer c)")
    case True
    define c1 where "c1 = c\<lparr>stm_stream := e, stm_writeBuffer := drop w (stm_writeBuffer c)\<rparr>"
    have "nc_stream_do_write_all E c = nc_stream_do_write_all E c1"
      using True nc_stream_do_write_all.simps [of E c] wb by (simp add: c1_def)
    moreover have "stm_total stm_same (nc_stream_do_write_all E) c1"
      using less.prems True by (intro less.hyps) (auto simp: c1_def)
    ultimately show ?thesis by (simp add: stm_total_def c1_def)
  next
    case False
    have le: "status = NABTO_STREAM_STATUS_OK \<Longrightarrow> w \<le> length (stm_writeBuffer c)"
      using write_law_ok(1) [OF law] wb by blast
    consider "status \<noteq> NABTO_STREAM_STATUS_OK" | "status = NABTO_STREAM_STATUS_OK" "w = 0"
      | "status = NABTO_STREAM_STATUS_OK" "w \<noteq> 0" "w = length (stm_writeBuffer c)"
      using False le by fastforce
    then show ?thesis
    proof cases
      case 1
      then show ?thesis using nc_stream_do_write_all.simps [of E c] wb by (intro fin) simp
    next
      case 2
      then show ?thesis
        using nc_stream_do_write_all.simps [of E c] wb less.prems(1)
        by (simp add: stm_total_def emit_def)
    next
      case 3
      then show ?thesis using nc_stream_do_write_all.simps [of E c] wb by (intro fin) simp
    qed
  qed
qed

lemma stm_total_weaken: "stm_total stm_same f c \<Longrightarrow> stm_total stm_kept f c"
  by (auto simp: stm_total_def stm_kept_def)

lemma stm_total_act:
  assumes "f c = Inr (c', out)" "stm_same c c'" "stream_ok c'" "sends_as (stm_streamId c) (stm_dtls c) out"
  shows "stm_total stm_same (\<lambda>c. Some (f c)) c"
  using assms by (auto simp: stm_total_def)

lemma engine_laws_cases:
  assumes "stream_engine_laws E"
  obtains avail sent where "stream_read_law E avail" "stream_write_law E sent"
    "\<And>n t e. length (fst (eng_create_packet E n t e)) \<le> n" "\<And>e s. sint (eng_stamp_diff_now E e s) < 2 ^ 31 - 2"
  using assms unfolding stream_engine_laws_def by blast

lemma callback_total:
  assumes "stream_engine_laws E" "stream_ok c"
  shows "stm_total stm_same (nc_stream_application_event_callback E t) c"
proof -
  obtain avail sent where laws: "stream_read_law E avail" "stream_write_law E sent"
    using assms(1) by (rule engine_laws_cases)
  have wr: "stm_total stm_same (write_if_pending E) c" if "stream_ok c" for c
    using do_write_total [OF laws(2) that] that by (auto simp: stm_total_def write_if_pending_def emit_def)
  have acc: "stm_total stm_same (\<lambda>c. Some (resolve_accept ec c)) c" if "stream_ok c" for c :: "'a nc_stream_context" and ec
    using that by (cases "stm_acceptCb c") (simp_all add: stm_total_def resolve_accept_def emit_def)
  have cl: "stm_total stm_same (\<lambda>c. Some (stm_resolve_close c)) c" if "stream_ok c" for c :: "'a nc_stream_context"
    using that by (cases "stm_closeCb c") (simp_all add: stm_total_def stm_resolve_close_def emit_def)
  have hc: "stm_total stm_same (\<lambda>c. Some (nc_stream_handle_close E c)) c" if "stream_ok c" for c
    using that by (cases "stm_closeCb c"; cases "eng_close E (stm_stream c)")
      (simp_all add: stm_total_def nc_stream_handle_close_def emit_def Let_def)
  have closed: "stm_total stm_same (runThen (write_if_pending E) (runThen (\<lambda>c. Some (resolve_accept NABTO_EC_ABORTED c))
              (runThen (nc_stream_do_read E) (\<lambda>c. Some (nc_stream_handle_close E c))))) c"
    by (intro stm_total_then wr acc hc do_read_total [OF laws(1)] assms(2))
  show ?thesis
    using closed wr [OF assms(2)] acc [OF assms(2)] cl [OF assms(2)] do_read_total [OF laws(1) assms(2)]
    by (cases t) (simp_all add: nc_stream_application_event_callback_def stm_total_def)
qed

lemma handle_wait_total:
  assumes "stream_engine_laws E" "stream_ok c" "stm_active c"
  shows "stm_total stm_same (\<lambda>c. Some (nc_stream_handle_wait E c)) c"
proof (cases "eng_next_event E (stm_stream c)")
  case (STAMP_FUTURE s)
  have timer: "stm_timer c" using assms(2,3) by (simp add: stream_ok_def)
  define diff where "diff = sint (eng_stamp_diff_now E (stm_stream c) (STAMP_FUTURE s))"
  have "diff < 2 ^ 31 - 2"
    using assms(1) unfolding stream_engine_laws_def diff_def by blast
  with STAMP_FUTURE timer assms(2) show ?thesis
    by (auto simp: stm_total_def nc_stream_handle_wait_def Let_def stm_post_timer_def emit_def diff_def [symmetric])
qed (use assms(2) in \<open>simp_all add: stm_total_def nc_stream_handle_wait_def emit_def\<close>)

lemma destroy_kept:
  assumes "stream_ok c"
  shows "stm_total stm_kept (\<lambda>c. Some (nc_stream_destroy E c)) c"
proof (cases "stm_active c")
  case True
  have "sends_as i d (callbacks ec cbs)" for i d ec cbs
    by (auto simp: sends_as_def callbacks_def split: option.splits)
  then show ?thesis
    using True assms
    by (simp add: stm_total_def nc_stream_destroy_def emit_def stm_kept_def stream_gone_def)
       (auto simp: sends_as_def stream_ok_def read_in_progress_def)
qed (use assms in \<open>simp add: stm_total_def stm_kept_def nc_stream_destroy_def emit_def\<close>)

lemma handled_total:
  assumes "stream_ok c" "stm_active c"
  shows "stm_total stm_same (\<lambda>c. Some (stm_post (c\<lparr>stm_stream := eng_event_handled E t (stm_stream c)\<rparr>))) c"
  using assms by (simp add: stm_total_def stm_post_def emit_def) (simp add: stream_ok_def)

lemma event_other_total:
  assumes laws: "stream_engine_laws E" and ok: "stream_ok c" "stm_active c"
  shows "stm_total stm_kept (stream_event_other E ls t) c"
proof -
  note post = handled_total [where E = E and t = t]
  have then_post: "stm_total stm_kept (runThen f (\<lambda>c. Some (stm_post (c\<lparr>stm_stream := eng_event_handled E t (stm_stream c)\<rparr>)))) (c\<lparr>stm_stream := e\<rparr>)"
    if "stm_total stm_same f (c\<lparr>stm_stream := e\<rparr>)" for f e
    using that ok by (intro stm_total_weaken stm_total_then post) (auto simp: stm_same_def)
  have acc: "stm_total stm_same (\<lambda>c. Some (nc_stream_manager_ready_for_accept E ls c)) c"
    using ok by (simp add: stm_total_def nc_stream_manager_ready_for_accept_def emit_def split: option.splits)
  have none: "stm_total stm_same (\<lambda>c. Some (emit [] c)) (c\<lparr>stm_stream := e\<rparr>)" for e
    using ok by (simp add: stm_total_def emit_def)
  have direct: "stm_total stm_kept (\<lambda>c. Some (stm_post (c\<lparr>stm_stream := e\<rparr>))) c" for e
    using ok by (simp add: stm_total_def stm_post_def emit_def stm_kept_def) (simp add: stream_ok_def)
  have cancel: "stm_total stm_kept (\<lambda>c. Some (stm_cancel_timer c)) c"
    using ok by (simp add: stm_total_def stm_cancel_timer_def emit_def stm_kept_def) (simp add: stream_ok_def)
  show ?thesis
  proof (cases t)
    case ET_ACCEPT
    with then_post [of _ "stm_stream c"] acc show ?thesis by (simp add: stm_total_def stream_event_other_def)
  next
    case ET_APPLICATION_EVENT
    obtain e ev where ev: "eng_dispatch_event E (stm_stream c) = (e, ev)" by force
    have "stm_total stm_same (case ev of None \<Rightarrow> (\<lambda>c. Some (emit [] c)) | Some t \<Rightarrow> nc_stream_application_event_callback E t) (c\<lparr>stm_stream := e\<rparr>)"
      using none callback_total [OF laws] ok(1) by (cases ev) simp_all
    from then_post [OF this] show ?thesis
      by (simp add: stm_total_def stm_kept_def stream_event_other_def ET_APPLICATION_EVENT ev)
  next
    case ET_WAIT
    with stm_total_weaken [OF handle_wait_total [OF laws ok]] show ?thesis by (simp add: stm_total_def stream_event_other_def)
  next
    case ET_RELEASED
    with destroy_kept [OF ok(1)] show ?thesis by (simp add: stm_total_def stream_event_other_def)
  next
    case ET_TIMEOUT
    with direct show ?thesis by (simp add: stm_total_def stream_event_other_def)
  next
    case ET_TIME_WAIT
    with direct show ?thesis by (simp add: stm_total_def stream_event_other_def)
  next
    case ET_CLOSED
    with cancel show ?thesis by (simp add: stm_total_def stream_event_other_def)
  qed (use stm_total_weaken [OF none, of "stm_stream c"] in \<open>simp_all add: stm_total_def stream_event_other_def\<close>)
qed

lemma send_packet_total:
  assumes "stream_engine_laws E" "stream_ok c" "stm_active c" "stm_dtls c = Some d"
  shows "stm_total stm_same (\<lambda>c. Some (send_packet_dtls E ec d t c)) c"
proof (cases "stm_isSending c")
  case False
  define h where "h = AT_STREAM # var_uint_write_forward (stm_streamId c)"
  obtain p e where p: "eng_create_packet E (NC_STREAM_SEND_BUFFER_SIZE - length h) t (stm_stream c) = (p, e)" by force
  have "length p \<le> NC_STREAM_SEND_BUFFER_SIZE - length h"
    using assms(1) p unfolding stream_engine_laws_def by (metis fst_conv)
  moreover have "stm_ev c" using assms(2,3) by (simp add: stream_ok_def)
  moreover have "sends_as (stm_streamId c) (stm_dtls c) [StmSend d (h @ p)]"
    "sends_as (stm_streamId c) (stm_dtls c) [StmSend d (h @ p), StmPost]"
    using assms(4) by (auto simp: sends_as_def h_def)
  ultimately show ?thesis
    using False p assms(2)
    by (simp add: stm_total_def send_packet_dtls_def h_def emit_def andThen_def stm_post_def Let_def)
qed (use assms in \<open>simp add: stm_total_def send_packet_dtls_def emit_def\<close>)

lemma segments_available_same [simp]:
  "stm_same c (segments_available E c)" "stream_ok (segments_available E c) = stream_ok c"
  "stm_active (segments_available E c) = stm_active c" "stm_dtls (segments_available E c) = stm_dtls c"
  "stm_streamId (segments_available E c) = stm_streamId c"
  by (simp_all add: segments_available_def)

lemma event_total:
  assumes "stream_engine_laws E" "stream_ok c" "stm_active c" "stm_dtls c \<noteq> None"
  shows "stm_total stm_kept (nc_stream_event E ls ec) c"
proof -
  define c0 where "c0 = segments_available E c"
  define t where "t = eng_next_event_to_handle E (stm_stream c0)"
  obtain d where d: "stm_dtls c = Some d" using assms(4) by blast
  have c0: "stm_same c c0" "stream_ok c0" "stm_active c0" "stm_dtls c0 = Some d" "stm_streamId c0 = stm_streamId c"
    using assms d by (simp_all add: c0_def)
  have "nc_stream_event E ls ec c
      = (if sends_packet t then Some (send_packet_dtls E ec d t c0) else stream_event_other E ls t c0)"
    using c0 by (subst nc_stream_event.simps) (simp add: c0_def [symmetric] t_def [symmetric] Let_def)
  moreover have "stm_total stm_kept (\<lambda>c. Some (send_packet_dtls E ec d t c)) c0"
    by (rule stm_total_weaken [OF send_packet_total [OF assms(1) c0(2-4)]])
  moreover have "stm_total stm_kept (stream_event_other E ls t) c0"
    by (rule event_other_total [OF assms(1) c0(2,3)])
  ultimately show ?thesis
    using c0(1,4,5) d by (cases "sends_packet t") (auto simp: stm_total_def stm_kept_def stm_same_def)
qed

text \<open>Without a connection the packets of the due events are dropped, one after the other.\<close>

lemma event_dropped_total:
  assumes "stream_engine_laws E" "stream_progress_law E left" "stream_ok c" "stm_active c" "stm_dtls c = None"
  shows "stm_total stm_kept (nc_stream_event E ls ec) c"
  using assms(3-)
proof (induction "left (stm_stream c)" arbitrary: c rule: less_induct)
  case less
  define c0 where "c0 = segments_available E c"
  define t where "t = eng_next_event_to_handle E (stm_stream c0)"
  define c1 where "c1 = c0\<lparr>stm_stream := eng_event_handled E t (stm_stream c0)\<rparr>"
  have c0: "stm_same c c0" "stream_ok c0" "stm_active c0" "stm_dtls c0 = None" "stm_streamId c0 = stm_streamId c"
    using less.prems by (simp_all add: c0_def)
  have unfold: "nc_stream_event E ls ec c = (if sends_packet t then nc_stream_event E ls ec c1 else stream_event_other E ls t c0)"
    using c0 by (subst nc_stream_event.simps) (simp add: c0_def [symmetric] t_def [symmetric] c1_def Let_def)
  show ?case
  proof (cases "sends_packet t")
    case True
    have "left (stm_stream c1) < left (stm_stream c)"
      using assms(2) True by (simp add: stream_progress_law_def c1_def c0_def t_def segments_available_def Let_def)
    with less.hyps [of c1] c0 have "stm_total stm_kept (nc_stream_event E ls ec) c1" by (simp add: c1_def)
    with unfold True c0 less.prems show ?thesis
      by (auto simp: stm_total_def stm_kept_def stm_same_def c1_def)
  next
    case False
    with event_other_total [OF assms(1) c0(2,3), of ls t] unfold c0(1,4,5) less.prems show ?thesis
      by (auto simp: stm_total_def stm_kept_def stm_same_def)
  qed
qed

lemma demo_engine_event_laws:
  "stream_engine_laws demo_engine" "stream_progress_law demo_engine (\<lambda>e. if sends_packet (de_next e) then 1 else 0)"
proof -
  show "stream_engine_laws demo_engine"
    unfolding stream_engine_laws_def using demo_engine_laws by (auto simp: demo_engine_def)
  show "stream_progress_law demo_engine (\<lambda>e. if sends_packet (de_next e) then 1 else 0)"
    by (simp add: stream_progress_law_def demo_engine_def sends_packet_def)
qed

end
