(* ===== verification/NcStreamManager.thy ===== *)
theory NcStreamManager
  imports NcClientConnection NcStream NnLib
begin

text \<open>
  The streams of all client connections (\<^verbatim>\<open>src/core/nc_stream_manager.c\<close>): the table of streams, the dispatch of
  packets to them, the listeners, the reset packets and the count of segments. A pointer to a stream is its
  index in the table, a pointer to a connection its index in the table of connections.
\<close>

section \<open>State\<close>

definition NABTO_MAX_STREAMS :: nat where "NABTO_MAX_STREAMS = 10"

record ('l, 'e) nc_stream_manager_context =
  sm_pl :: bool
  sm_listeners :: 'l
  sm_rstBuf :: bool
  sm_streams :: "'e nc_stream_context list"
  sm_streamConns :: "nat option list"
  sm_maxSegments :: u64
  sm_allocatedSegments :: u64

datatype manager_output =
    StreamOut nat stream_output
  | RstSend nat "u8 list"
  | RstFree
  | ListenerAborted nat

type_synonym ('l, 'e) sm_run = "(('l, 'e) nc_stream_manager_context, manager_output) run"

text \<open>
  What the platform answers while a packet is handled: the results of the creation of the two events of a
  stream, of the allocation of a buffer (with its size), and of the DTLS connection for a packet to send.
\<close>

record stream_env =
  env_ev :: np_error_code
  env_timer :: np_error_code
  env_rstBuf :: "nat option"
  env_send :: np_error_code

definition nc_stream_manager_init ::
    "('l, nc_stream_listener) nn_llist \<Rightarrow> ('l, 'e) nc_stream_manager_context \<Rightarrow> ('l, 'e) nc_stream_manager_context" where
  "nc_stream_manager_init L ctx = ctx\<lparr>sm_pl := True, sm_maxSegments := 1000000, sm_listeners := ll_init L\<rparr>"

definition nc_stream_manager_deinit ::
    "('l, nc_stream_listener) nn_llist \<Rightarrow> (('l, 'e) nc_stream_manager_context, manager_output) act" where
  "nc_stream_manager_deinit L ctx =
     emit (if sm_pl ctx then map (\<lambda>l. ListenerAborted (lsn_cb l)) (ll_items L (sm_listeners ctx)) else []) ctx"

section \<open>Listeners\<close>

definition nc_stream_manager_port_in_use ::
    "('l, nc_stream_listener) nn_llist \<Rightarrow> u32 \<Rightarrow> ('l, 'e) nc_stream_manager_context \<Rightarrow> bool" where
  "nc_stream_manager_port_in_use L type ctx = list_ex (\<lambda>l. lsn_type l = type) (ll_items L (sm_listeners ctx))"

text \<open>\<open>rands\<close> are the numbers that \<^verbatim>\<open>rand\<close> returns, at most ten of them are used; the port is only valid on success.\<close>

fun ephemeral_loop ::
    "('l, nc_stream_listener) nn_llist \<Rightarrow> u32 list \<Rightarrow> ('l, 'e) nc_stream_manager_context \<Rightarrow> np_error_code \<times> u32" where
  "ephemeral_loop L [] ctx = (NABTO_EC_UNKNOWN, 0)"
| "ephemeral_loop L (r # rs) ctx =
     (let port = 0x80000000 + (r AND 0x7FFFFFFF) in
      if \<not> nc_stream_manager_port_in_use L port ctx then (NABTO_EC_OK, port) else ephemeral_loop L rs ctx)"

definition nc_stream_manager_get_ephemeral_stream_port ::
    "('l, nc_stream_listener) nn_llist \<Rightarrow> (nat \<Rightarrow> u32) \<Rightarrow> ('l, 'e) nc_stream_manager_context \<Rightarrow> np_error_code \<times> u32" where
  "nc_stream_manager_get_ephemeral_stream_port L rand ctx = ephemeral_loop L (map rand [0..<10]) ctx"

definition nc_stream_manager_add_listener ::
    "('l, nc_stream_listener) nn_llist \<Rightarrow> (nat \<Rightarrow> u32) \<Rightarrow> u32 \<Rightarrow> nat \<Rightarrow> ('l, 'e) nc_stream_manager_context
       \<Rightarrow> np_error_code \<times> ('l, 'e) nc_stream_manager_context" where
  "nc_stream_manager_add_listener L rand type cb ctx =
     (case (if type = 0 then nc_stream_manager_get_ephemeral_stream_port L rand ctx else (NABTO_EC_OK, type)) of (ec, port) \<Rightarrow>
        if ec \<noteq> NABTO_EC_OK then (ec, ctx)
        else if nc_stream_manager_port_in_use L port ctx then (NABTO_EC_OPERATION_IN_PROGRESS, ctx)
        else (NABTO_EC_OK,
              ctx\<lparr>sm_listeners := ll_append L (sm_listeners ctx) \<lparr>lsn_type = port, lsn_cb = cb\<rparr>\<rparr>))"

definition nc_stream_manager_remove_listener ::
    "('l, nc_stream_listener) nn_llist \<Rightarrow> nc_stream_listener \<Rightarrow> ('l, 'e) nc_stream_manager_context
       \<Rightarrow> ('l, 'e) nc_stream_manager_context" where
  "nc_stream_manager_remove_listener L listener ctx = ctx\<lparr>sm_listeners := ll_erase_node L (sm_listeners ctx) listener\<rparr>"

section \<open>The table of streams\<close>

text \<open>An operation of the stream at index \<open>i\<close>.\<close>

definition on_stream :: "nat \<Rightarrow> 'e stm_run \<Rightarrow> ('l, 'e) sm_run" where
  "on_stream i f ctx =
     Option.bind (f (sm_streams ctx ! i)) (\<lambda>r. Some (obind r (\<lambda>(c, out).
       Inr (ctx\<lparr>sm_streams := (sm_streams ctx)[i := c]\<rparr>, map (StreamOut i) out))))"

definition nc_stream_manager_close_stream ::
    "nat \<Rightarrow> ('l, 'e) nc_stream_manager_context \<Rightarrow> ('l, 'e) nc_stream_manager_context" where
  "nc_stream_manager_close_stream i ctx =
     (if i < NABTO_MAX_STREAMS
      then ctx\<lparr>sm_streams := (sm_streams ctx)[i := (sm_streams ctx ! i)\<lparr>stm_streamId := 0\<rparr>],
               sm_streamConns := (sm_streamConns ctx)[i := None]\<rparr>
      else ctx)"

definition nc_stream_manager_find_stream :: "u64 \<Rightarrow> nat \<Rightarrow> ('l, 'e) nc_stream_manager_context \<Rightarrow> nat option" where
  "nc_stream_manager_find_stream streamId conn ctx =
     find (\<lambda>i. stm_streamId (sm_streams ctx ! i) = streamId \<and> sm_streamConns ctx ! i = Some conn) [0..<NABTO_MAX_STREAMS]"

definition nc_stream_manager_accept_stream ::
    "'e nabto_stream_engine \<Rightarrow> stream_env \<Rightarrow> nat \<Rightarrow> nc_client_connection \<Rightarrow> u64 \<Rightarrow> ('l, 'e) nc_stream_manager_context
       \<Rightarrow> nat option \<times> ('l, 'e) nc_stream_manager_context" where
  "nc_stream_manager_accept_stream E env i conn streamId ctx =
     (if streamId mod 2 = 1 then (None, ctx)
      else case find (\<lambda>k. \<not> stm_active (sm_streams ctx ! k)) [0..<NABTO_MAX_STREAMS] of
        None \<Rightarrow> (None, ctx)
      | Some k \<Rightarrow>
          (case nc_stream_init E streamId (conn_dtls conn) (connectionRef conn) (env_ev env) (env_timer env)
                  (sm_streams ctx ! k) of
             (ec, c) \<Rightarrow>
               let ctx1 = ctx\<lparr>sm_streams := (sm_streams ctx)[k := c]\<rparr> in
               if ec \<noteq> NABTO_EC_OK then (None, ctx1)
               else (Some k, ctx1\<lparr>sm_streamConns := (sm_streamConns ctx1)[k := Some i]\<rparr>)))"

text \<open>The answer of the DTLS connection is not looked at, so that the buffer is only freed when the callback comes.\<close>

definition nc_stream_manager_send_rst ::
    "'e nabto_stream_engine \<Rightarrow> stream_env \<Rightarrow> nc_client_connection \<Rightarrow> u64
       \<Rightarrow> (('l, 'e) nc_stream_manager_context, manager_output) act" where
  "nc_stream_manager_send_rst E env conn streamId ctx =
     (if sm_rstBuf ctx then emit [] ctx
      else case env_rstBuf env of
        None \<Rightarrow> emit [] ctx
      | Some bufSize \<Rightarrow>
          let header = AT_STREAM # var_uint_write_forward streamId;
              rst = eng_create_rst_packet E (bufSize - length header) in
          if length header > bufSize \<or> length header + length rst > bufSize then Inl OutOfBounds
          else obind (deref (conn_dtls conn)) (\<lambda>dtls. emit [RstSend dtls (header @ rst)] (ctx\<lparr>sm_rstBuf := True\<rparr>)))"

definition nc_stream_manager_send_rst_callback :: "(('l, 'e) nc_stream_manager_context, manager_output) act" where
  "nc_stream_manager_send_rst_callback ctx = emit [RstFree] (ctx\<lparr>sm_rstBuf := False\<rparr>)"

text \<open>
  The packet is the first \<open>bufferSize\<close> bytes of \<open>mem\<close>, the memory from its start to the end of the buffer it was
  received in.
\<close>

definition nc_stream_manager_handle_packet ::
    "'e nabto_stream_engine \<Rightarrow> ('l, nc_stream_listener) nn_llist \<Rightarrow> stream_env \<Rightarrow> nat \<Rightarrow> nc_client_connection
       \<Rightarrow> u8 list \<Rightarrow> u16 \<Rightarrow> ('l, 'e) sm_run" where
  "nc_stream_manager_handle_packet E L env i conn mem bufferSize ctx =
     (if bufferSize < 4 then Some (emit [] ctx)
      else case var_uint_read (drop 1 mem) (bufferSize - 1) of
        Inl f \<Rightarrow> Some (Inl f)
      | Inr (False, _, _) \<Rightarrow> Some (emit [] ctx)
      | Inr (True, streamId, streamIdLen) \<Rightarrow>
          (case rd mem (1 + unat streamIdLen) of
             Inl f \<Rightarrow> Some (Inl f)
           | Inr flags \<Rightarrow>
               (case (case nc_stream_manager_find_stream streamId i ctx of
                        Some k \<Rightarrow> (Some k, ctx)
                      | None \<Rightarrow>
                          if flags = eng_FLAG_SYN E then nc_stream_manager_accept_stream E env i conn streamId ctx
                          else (None, ctx)) of
                  (None, ctx1) \<Rightarrow>
                    if flags AND eng_FLAG_RST E \<noteq> eng_FLAG_RST E
                    then Some (nc_stream_manager_send_rst E env conn streamId ctx1)
                    else Some (emit [] ctx1)
                | (Some k, ctx1) \<Rightarrow>
                    on_stream k
                      (nc_stream_handle_packet E (ll_items L (sm_listeners ctx1)) (env_send env)
                        (take (unat bufferSize - (1 + unat streamIdLen)) (drop (1 + unat streamIdLen) mem))) ctx1)))"

definition nc_stream_manager_remove_connection ::
    "'e nabto_stream_engine \<Rightarrow> ('l, nc_stream_listener) nn_llist \<Rightarrow> np_error_code \<Rightarrow> nat \<Rightarrow> ('l, 'e) sm_run" where
  "nc_stream_manager_remove_connection E L ec connection =
     foldr (\<lambda>i. runThen (\<lambda>ctx.
         if sm_streamConns ctx ! i = Some connection
         then on_stream i (nc_stream_handle_connection_closed E (ll_items L (sm_listeners ctx)) ec)
                (ctx\<lparr>sm_streamConns := (sm_streamConns ctx)[i := None]\<rparr>)
         else Some (emit [] ctx)))
       [0..<NABTO_MAX_STREAMS] (\<lambda>ctx. Some (emit [] ctx))"

text \<open>\<open>refs\<close> are the references of the connections.\<close>

definition nc_stream_manager_get_connection_ref ::
    "(nat \<Rightarrow> u64) \<Rightarrow> nat \<Rightarrow> ('l, 'e) nc_stream_manager_context \<Rightarrow> u64" where
  "nc_stream_manager_get_connection_ref refs stream ctx =
     (if stream < NABTO_MAX_STREAMS \<and> stm_active (sm_streams ctx ! stream)
      then case sm_streamConns ctx ! stream of None \<Rightarrow> 0 | Some connection \<Rightarrow> refs connection
      else 0)"

section \<open>Segments\<close>

text \<open>The capacity of the new segment; the two flags say whether the allocations succeed.\<close>

definition nc_stream_manager_alloc_send_segment ::
    "bool \<Rightarrow> bool \<Rightarrow> nat \<Rightarrow> ('l, 'e) nc_stream_manager_context \<Rightarrow> nat option \<times> ('l, 'e) nc_stream_manager_context" where
  "nc_stream_manager_alloc_send_segment seg buf bufferSize ctx =
     (if sm_allocatedSegments ctx \<ge> sm_maxSegments ctx then (None, ctx)
      else if \<not> seg then (None, ctx)
      else if \<not> buf then (None, ctx)
      else (Some bufferSize, ctx\<lparr>sm_allocatedSegments := sm_allocatedSegments ctx + 1\<rparr>))"

definition nc_stream_manager_free_send_segment ::
    "nat option \<Rightarrow> ('l, 'e) nc_stream_manager_context \<Rightarrow> ('l, 'e) nc_stream_manager_context" where
  "nc_stream_manager_free_send_segment segment ctx =
     (if segment = None then ctx else ctx\<lparr>sm_allocatedSegments := sm_allocatedSegments ctx - 1\<rparr>)"

definition nc_stream_manager_alloc_recv_segment ::
    "bool \<Rightarrow> bool \<Rightarrow> nat \<Rightarrow> ('l, 'e) nc_stream_manager_context \<Rightarrow> nat option \<times> ('l, 'e) nc_stream_manager_context" where
  "nc_stream_manager_alloc_recv_segment seg buf bufferSize ctx =
     (if sm_allocatedSegments ctx \<ge> sm_maxSegments ctx then (None, ctx)
      else if \<not> seg then (None, ctx)
      else if \<not> buf then (None, ctx)
      else (Some bufferSize, ctx\<lparr>sm_allocatedSegments := sm_allocatedSegments ctx + 1\<rparr>))"

definition nc_stream_manager_free_recv_segment ::
    "nat option \<Rightarrow> ('l, 'e) nc_stream_manager_context \<Rightarrow> ('l, 'e) nc_stream_manager_context" where
  "nc_stream_manager_free_recv_segment segment ctx =
     (if segment = None then ctx else ctx\<lparr>sm_allocatedSegments := sm_allocatedSegments ctx - 1\<rparr>)"

definition nc_stream_manager_set_max_segments ::
    "u64 \<Rightarrow> ('l, 'e) nc_stream_manager_context \<Rightarrow> ('l, 'e) nc_stream_manager_context" where
  "nc_stream_manager_set_max_segments maxSegments ctx = ctx\<lparr>sm_maxSegments := maxSegments\<rparr>"

section \<open>Specification\<close>

text \<open>
  The invariant of the table: every entry is fine, a stream whose connection is there has its DTLS
  connection, and no two active streams of a connection have the same identifier.
\<close>

definition streams_inv :: "('l, 'e) nc_stream_manager_context \<Rightarrow> bool" where
  "streams_inv ctx \<longleftrightarrow> length (sm_streams ctx) = NABTO_MAX_STREAMS \<and> length (sm_streamConns ctx) = NABTO_MAX_STREAMS
     \<and> (\<forall>k<NABTO_MAX_STREAMS. stream_ok (sm_streams ctx ! k)
          \<and> (stm_active (sm_streams ctx ! k) \<longrightarrow> sm_streamConns ctx ! k \<noteq> None \<longrightarrow> stm_dtls (sm_streams ctx ! k) \<noteq> None))
     \<and> (\<forall>j<NABTO_MAX_STREAMS. \<forall>k<NABTO_MAX_STREAMS. j \<noteq> k \<longrightarrow>
          stm_active (sm_streams ctx ! j) \<longrightarrow> stm_active (sm_streams ctx ! k) \<longrightarrow>
          sm_streamConns ctx ! j \<noteq> None \<longrightarrow> sm_streamConns ctx ! j = sm_streamConns ctx ! k \<longrightarrow>
          stm_streamId (sm_streams ctx ! j) \<noteq> stm_streamId (sm_streams ctx ! k))"

text \<open>The entry \<open>k\<close> is the stream \<open>streamId\<close> of connection \<open>i\<close>.\<close>

definition is_stream :: "nat \<Rightarrow> u64 \<Rightarrow> nat \<Rightarrow> ('l, 'e) nc_stream_manager_context \<Rightarrow> bool" where
  "is_stream i streamId k ctx \<longleftrightarrow> k < NABTO_MAX_STREAMS \<and> stm_active (sm_streams ctx ! k)
     \<and> stm_streamId (sm_streams ctx ! k) = streamId \<and> sm_streamConns ctx ! k = Some i"

text \<open>No entry of connection \<open>i\<close> is a stream that has been destroyed.\<close>

definition no_stale :: "nat \<Rightarrow> ('l, 'e) nc_stream_manager_context \<Rightarrow> bool" where
  "no_stale i ctx \<longleftrightarrow> (\<forall>k<NABTO_MAX_STREAMS. sm_streamConns ctx ! k = Some i \<longrightarrow> stm_active (sm_streams ctx ! k))"

text \<open>The identifier and the flags of a packet, as the dispatch reads them.\<close>

definition stream_packet :: "u8 list \<Rightarrow> u16 \<Rightarrow> (u64 \<times> u8) option" where
  "stream_packet mem bufferSize =
     (if bufferSize < 4 then None
      else case var_uint_read (drop 1 mem) (bufferSize - 1) of
        Inr (True, streamId, n) \<Rightarrow> Some (streamId, mem ! (1 + unat n))
      | _ \<Rightarrow> None)"

definition same_entry ::
    "('l, 'e) nc_stream_manager_context \<Rightarrow> ('l, 'e) nc_stream_manager_context \<Rightarrow> manager_output list \<Rightarrow> nat \<Rightarrow> bool" where
  "same_entry ctx ctx' out k \<longleftrightarrow> sm_streams ctx' ! k = sm_streams ctx ! k \<and> sm_streamConns ctx' ! k = sm_streamConns ctx ! k
     \<and> (\<forall>x. StreamOut k x \<notin> set out)"

text \<open>What is sent in answer to a packet carries its identifier.\<close>

definition answers_packet :: "(u64 \<times> u8) option \<Rightarrow> manager_output list \<Rightarrow> bool" where
  "answers_packet pk out \<longleftrightarrow>
     (\<forall>x\<in>set out. \<forall>p. (\<exists>k d. x = StreamOut k (StmSend d p)) \<or> (\<exists>d. x = RstSend d p) \<longrightarrow>
        (\<exists>streamId flags q. pk = Some (streamId, flags) \<and> p = AT_STREAM # var_uint_write_forward streamId @ q))"

definition demo_manager :: "'e nabto_stream_engine \<Rightarrow> (nc_stream_listener list, 'e) nc_stream_manager_context" where
  "demo_manager E = \<lparr>sm_pl = True, sm_listeners = [], sm_rstBuf = False, sm_streams = replicate NABTO_MAX_STREAMS (stream_zero E),
     sm_streamConns = replicate NABTO_MAX_STREAMS None, sm_maxSegments = 1000000, sm_allocatedSegments = 0\<rparr>"

definition demo_stream_env :: stream_env where
  "demo_stream_env = \<lparr>env_ev = NABTO_EC_OK, env_timer = NABTO_EC_OK, env_rstBuf = Some 1500, env_send = NABTO_EC_OK\<rparr>"

text \<open>The manager with the stream 2 of connection 0 in its first entry.\<close>

definition demo_stream :: "demo_engine_state nc_stream_context" where
  "demo_stream = (stream_zero demo_engine)\<lparr>stm_active := True, stm_ev := True, stm_timer := True, stm_streamId := 2, stm_dtls := Some 1\<rparr>"

definition demo_one_stream :: "(nc_stream_listener list, demo_engine_state) nc_stream_manager_context" where
  "demo_one_stream = (demo_manager demo_engine)\<lparr>sm_streams := (replicate NABTO_MAX_STREAMS (stream_zero demo_engine))[0 := demo_stream],
     sm_streamConns := (replicate NABTO_MAX_STREAMS None)[0 := Some 0]\<rparr>"

definition remove_step :: "'e nabto_stream_engine \<Rightarrow> ('l, nc_stream_listener) nn_llist \<Rightarrow> np_error_code \<Rightarrow> nat \<Rightarrow> nat \<Rightarrow> ('l, 'e) sm_run" where
  "remove_step E L ec connection i = (\<lambda>ctx.
         if sm_streamConns ctx ! i = Some connection
         then on_stream i (nc_stream_handle_connection_closed E (ll_items L (sm_listeners ctx)) ec)
                (ctx\<lparr>sm_streamConns := (sm_streamConns ctx)[i := None]\<rparr>)
         else Some (emit [] ctx))"

text \<open>What became of the entry \<open>k\<close> when the connection \<open>i\<close> was removed.\<close>

definition removed_entry ::
    "nat \<Rightarrow> ('l, 'e) nc_stream_manager_context \<Rightarrow> ('l, 'e) nc_stream_manager_context \<Rightarrow> manager_output list \<Rightarrow> nat \<Rightarrow> bool" where
  "removed_entry i ctx ctx' out k \<longleftrightarrow>
     (if sm_streamConns ctx ! k = Some i
      then sm_streamConns ctx' ! k = None \<and> stm_dtls (sm_streams ctx' ! k) = None \<and> (\<forall>d p. StreamOut k (StmSend d p) \<notin> set out)
      else same_entry ctx ctx' out k)"

definition timeout_engine :: "demo_engine_state nabto_stream_engine" where
  "timeout_engine = demo_engine\<lparr>eng_handle_packet := (\<lambda>bs e. e\<lparr>de_next := ET_TIMEOUT\<rparr>)\<rparr>"

section \<open>Packets reach the stream of their identifier and connection\<close>

lemma find_upt_cases:
  obtains (None) "find P [0..<n] = None" "\<forall>k<n. \<not> P k" | (Some) k where "find P [0..<n] = Some k" "k < n" "P k" "\<forall>j<k. \<not> P j"
proof (cases "find P [0..<n]")
  case None
  then have "\<forall>k<n. \<not> P k" by (auto simp: find_None_iff)
  with None show ?thesis by (rule that(1))
next
  case (Some k)
  then obtain j where "j < n" "P ([0..<n] ! j)" "[0..<n] ! j = k" "\<forall>i<j. \<not> P ([0..<n] ! i)"
    by (auto simp: find_Some_iff)
  with Some show ?thesis using that(2) [of k] by auto
qed

lemma streams_inv_update:
  assumes inv: "streams_inv ctx" and k: "k < NABTO_MAX_STREAMS" and c: "stream_ok c" "stm_active c \<longrightarrow> cn \<noteq> None \<longrightarrow> stm_dtls c \<noteq> None"
    and new: "\<And>j. stm_active c \<Longrightarrow> cn \<noteq> None \<Longrightarrow> j < NABTO_MAX_STREAMS \<Longrightarrow> j \<noteq> k \<Longrightarrow> stm_active (sm_streams ctx ! j) \<Longrightarrow>
      sm_streamConns ctx ! j = cn \<Longrightarrow> stm_streamId (sm_streams ctx ! j) \<noteq> stm_streamId c"
  shows "streams_inv (ctx\<lparr>sm_streams := (sm_streams ctx)[k := c], sm_streamConns := (sm_streamConns ctx)[k := cn]\<rparr>)"
proof -
  define ctx' where "ctx' = ctx\<lparr>sm_streams := (sm_streams ctx)[k := c], sm_streamConns := (sm_streamConns ctx)[k := cn]\<rparr>"
  have at: "sm_streams ctx' ! j = (if j = k then c else sm_streams ctx ! j)"
      "sm_streamConns ctx' ! j = (if j = k then cn else sm_streamConns ctx ! j)" for j
    using inv k by (simp_all add: ctx'_def streams_inv_def)
  have old: "stm_streamId (sm_streams ctx ! a) \<noteq> stm_streamId (sm_streams ctx ! b)"
    if "a < NABTO_MAX_STREAMS" "b < NABTO_MAX_STREAMS" "a \<noteq> b" "stm_active (sm_streams ctx ! a)" "stm_active (sm_streams ctx ! b)"
      "sm_streamConns ctx ! a \<noteq> None" "sm_streamConns ctx ! a = sm_streamConns ctx ! b" for a b
    using inv that unfolding streams_inv_def by blast
  have "stm_streamId (sm_streams ctx' ! a) \<noteq> stm_streamId (sm_streams ctx' ! b)"
    if ab: "a < NABTO_MAX_STREAMS" "b < NABTO_MAX_STREAMS" "a \<noteq> b" "stm_active (sm_streams ctx' ! a)" "stm_active (sm_streams ctx' ! b)"
      "sm_streamConns ctx' ! a \<noteq> None" "sm_streamConns ctx' ! a = sm_streamConns ctx' ! b" for a b
  proof -
    consider "a = k" "b \<noteq> k" | "a \<noteq> k" "b = k" | "a \<noteq> k" "b \<noteq> k" using ab(3) by blast
    then show ?thesis
    proof cases
      case 1
      then have "sm_streamConns ctx ! b = cn" "cn \<noteq> None" "stm_active c" "stm_active (sm_streams ctx ! b)"
        using ab by (simp_all add: at)
      from new [OF this(3,2) ab(2) 1(2) this(4,1)] 1 show ?thesis by (simp add: at)
    next
      case 2
      then have "sm_streamConns ctx ! a = cn" "cn \<noteq> None" "stm_active c" "stm_active (sm_streams ctx ! a)"
        using ab by (simp_all add: at)
      from new [OF this(3,2) ab(1) 2(1) this(4,1)] 2 show ?thesis by (simp add: at)
    next
      case 3
      with old [OF ab(1-3)] ab(4-) show ?thesis by (simp add: at)
    qed
  qed
  moreover have "length (sm_streams ctx') = NABTO_MAX_STREAMS" "length (sm_streamConns ctx') = NABTO_MAX_STREAMS"
    using inv by (simp_all add: streams_inv_def ctx'_def)
  moreover have "stream_ok (sm_streams ctx' ! j) \<and> (stm_active (sm_streams ctx' ! j) \<longrightarrow> sm_streamConns ctx' ! j \<noteq> None \<longrightarrow> stm_dtls (sm_streams ctx' ! j) \<noteq> None)"
    if "j < NABTO_MAX_STREAMS" for j
    using inv that c unfolding at streams_inv_def by (cases "j = k") simp_all
  ultimately show ?thesis unfolding ctx'_def [symmetric] streams_inv_def by blast
qed

lemma streams_inv_at:
  assumes "streams_inv ctx" "k < NABTO_MAX_STREAMS"
  shows "stream_ok (sm_streams ctx ! k)" "k < length (sm_streams ctx)" "k < length (sm_streamConns ctx)"
    "stm_active (sm_streams ctx ! k) \<Longrightarrow> sm_streamConns ctx ! k \<noteq> None \<Longrightarrow> stm_dtls (sm_streams ctx ! k) \<noteq> None"
  using assms by (auto simp: streams_inv_def)

lemma streams_inv_distinct:
  assumes "streams_inv ctx" "j < NABTO_MAX_STREAMS" "k < NABTO_MAX_STREAMS" "j \<noteq> k" "stm_active (sm_streams ctx ! j)"
    "stm_active (sm_streams ctx ! k)" "sm_streamConns ctx ! j \<noteq> None" "sm_streamConns ctx ! j = sm_streamConns ctx ! k"
  shows "stm_streamId (sm_streams ctx ! j) \<noteq> stm_streamId (sm_streams ctx ! k)"
  using assms unfolding streams_inv_def by blast

lemma on_stream_total:
  assumes inv: "streams_inv ctx" and k: "k < NABTO_MAX_STREAMS" and f: "stm_total stm_kept f (sm_streams ctx ! k)"
  shows "\<exists>ctx' out. on_stream k f ctx = Some (Inr (ctx', map (StreamOut k) out)) \<and> streams_inv ctx'
    \<and> sm_streamConns ctx' = sm_streamConns ctx \<and> sm_listeners ctx' = sm_listeners ctx
    \<and> (\<forall>j. j \<noteq> k \<longrightarrow> sm_streams ctx' ! j = sm_streams ctx ! j) \<and> stm_kept (sm_streams ctx ! k) (sm_streams ctx' ! k)
    \<and> sends_as (stm_streamId (sm_streams ctx ! k)) (stm_dtls (sm_streams ctx ! k)) out"
proof -
  obtain c out where c: "f (sm_streams ctx ! k) = Some (Inr (c, out))" "stm_kept (sm_streams ctx ! k) c" "stream_ok c"
    "sends_as (stm_streamId (sm_streams ctx ! k)) (stm_dtls (sm_streams ctx ! k)) out"
    using f by (auto simp: stm_total_def)
  define ctx' where "ctx' = ctx\<lparr>sm_streams := (sm_streams ctx)[k := c]\<rparr>"
  have len: "k < length (sm_streams ctx)" using inv k by (simp add: streams_inv_def)
  have kept: "stm_active c \<Longrightarrow> stm_active (sm_streams ctx ! k) \<and> stm_streamId c = stm_streamId (sm_streams ctx ! k)
      \<and> stm_dtls c = stm_dtls (sm_streams ctx ! k)"
    using c(2) by (auto simp: stm_kept_def stm_same_def stream_gone_def)
  have "streams_inv (ctx\<lparr>sm_streams := (sm_streams ctx)[k := c], sm_streamConns := (sm_streamConns ctx)[k := sm_streamConns ctx ! k]\<rparr>)"
  proof (rule streams_inv_update [OF inv k c(3)])
    show "stm_active c \<longrightarrow> sm_streamConns ctx ! k \<noteq> None \<longrightarrow> stm_dtls c \<noteq> None"
      using kept streams_inv_at(4) [OF inv k] by simp
    show "stm_streamId (sm_streams ctx ! j) \<noteq> stm_streamId c" if "stm_active c" "sm_streamConns ctx ! k \<noteq> None"
      "j < NABTO_MAX_STREAMS" "j \<noteq> k" "stm_active (sm_streams ctx ! j)" "sm_streamConns ctx ! j = sm_streamConns ctx ! k" for j
      using kept that streams_inv_distinct [OF inv that(3) k that(4,5)] by simp
  qed
  then have "streams_inv ctx'" by (simp add: ctx'_def)
  then show ?thesis
    using c len by (intro exI [of _ ctx'] exI [of _ out]) (simp add: on_stream_def ctx'_def)
qed

lemma find_stream_cases:
  assumes "no_stale i ctx"
  obtains (None) "nc_stream_manager_find_stream streamId i ctx = None" "\<forall>k. \<not> is_stream i streamId k ctx"
  | (Some) k where "nc_stream_manager_find_stream streamId i ctx = Some k" "is_stream i streamId k ctx"
proof (cases rule: find_upt_cases [of "\<lambda>k. stm_streamId (sm_streams ctx ! k) = streamId \<and> sm_streamConns ctx ! k = Some i" NABTO_MAX_STREAMS])
  case None
  then show ?thesis using that(1) by (auto simp: nc_stream_manager_find_stream_def is_stream_def)
next
  case (Some k)
  then show ?thesis
    using that(2) [of k] assms by (auto simp: nc_stream_manager_find_stream_def is_stream_def no_stale_def)
qed

lemma accept_stream_cases:
  assumes inv: "streams_inv ctx" and new: "\<forall>k. \<not> is_stream i streamId k ctx" and d: "conn_dtls conn \<noteq> None"
  obtains (refused) ctx' where "nc_stream_manager_accept_stream E env i conn streamId ctx = (None, ctx')" "streams_inv ctx'"
      "sm_listeners ctx' = sm_listeners ctx" "sm_rstBuf ctx' = sm_rstBuf ctx" "sm_streamConns ctx' = sm_streamConns ctx"
      "\<forall>k. stm_active (sm_streams ctx ! k) \<or> odd streamId \<longrightarrow> sm_streams ctx' ! k = sm_streams ctx ! k"
  | (accepted) k ctx' where "nc_stream_manager_accept_stream E env i conn streamId ctx = (Some k, ctx')" "streams_inv ctx'"
      "sm_listeners ctx' = sm_listeners ctx" "\<not> stm_active (sm_streams ctx ! k)" "is_stream i streamId k ctx'" "even streamId"
      "\<forall>j. j \<noteq> k \<longrightarrow> sm_streams ctx' ! j = sm_streams ctx ! j \<and> sm_streamConns ctx' ! j = sm_streamConns ctx ! j"
      "stm_dtls (sm_streams ctx' ! k) = conn_dtls conn" "stm_connectionRef (sm_streams ctx' ! k) = connectionRef conn"
proof -
  have odd: "streamId mod 2 = 1 \<longleftrightarrow> odd streamId" by (metis even_iff_mod_2_eq_zero odd_iff_mod_2_eq_one)
  show thesis
  proof (cases rule: find_upt_cases [of "\<lambda>k. \<not> stm_active (sm_streams ctx ! k)" NABTO_MAX_STREAMS])
    case None
    with refused [of ctx] inv show ?thesis by (simp add: nc_stream_manager_accept_stream_def)
  next
    case (Some k)
    define c0 where "c0 = sm_streams ctx ! k"
    obtain ec c where c: "nc_stream_init E streamId (conn_dtls conn) (connectionRef conn) (env_ev env) (env_timer env) c0 = (ec, c)"
      by force
    have len: "k < length (sm_streams ctx)" "k < length (sm_streamConns ctx)" "stream_ok c0" "\<not> stm_active c0"
      using inv Some by (auto simp: streams_inv_def c0_def)
    consider "odd streamId" | "even streamId" "ec \<noteq> NABTO_EC_OK" | "even streamId" "ec = NABTO_EC_OK" by blast
    then show ?thesis
    proof cases
      case 1
      with refused [of ctx] inv odd show ?thesis by (simp add: nc_stream_manager_accept_stream_def)
    next
      case 2
      define ctx' where "ctx' = ctx\<lparr>sm_streams := (sm_streams ctx)[k := c]\<rparr>"
      have at: "sm_streams ctx' ! j = (if j = k then c else sm_streams ctx ! j)" for j using len by (simp add: ctx'_def)
      have c_ok: "stream_ok c" "\<not> stm_active c"
        using c len(3,4) 2 by (auto simp: nc_stream_init_def stream_ok_def read_in_progress_def split: if_splits)
      have "streams_inv (ctx\<lparr>sm_streams := (sm_streams ctx)[k := c], sm_streamConns := (sm_streamConns ctx)[k := sm_streamConns ctx ! k]\<rparr>)"
        using c_ok Some(2) by (intro streams_inv_update [OF inv]) simp_all
      then have "streams_inv ctx'" by (simp add: ctx'_def)
      with refused [of ctx'] 2 odd Some c len(4) show ?thesis
        by (simp add: nc_stream_manager_accept_stream_def c0_def [symmetric] at Let_def) (simp add: ctx'_def c0_def)
    next
      case 3
      define ctx' where "ctx' = ctx\<lparr>sm_streams := (sm_streams ctx)[k := c], sm_streamConns := (sm_streamConns ctx)[k := Some i]\<rparr>"
      have at: "sm_streams ctx' ! j = (if j = k then c else sm_streams ctx ! j)"
          "sm_streamConns ctx' ! j = (if j = k then Some i else sm_streamConns ctx ! j)" for j
        using len by (simp_all add: ctx'_def)
      have c_ok: "stream_ok c" "stm_active c" "stm_streamId c = streamId" "stm_dtls c = conn_dtls conn"
          "stm_connectionRef c = connectionRef conn"
        using c len(3,4) 3 by (auto simp: nc_stream_init_def stream_ok_def read_in_progress_def split: if_splits)
      have new': "stm_streamId (sm_streams ctx ! j) \<noteq> streamId"
        if "j < NABTO_MAX_STREAMS" "stm_active (sm_streams ctx ! j)" "sm_streamConns ctx ! j = Some i" for j
        using new that by (auto simp: is_stream_def)
      have "streams_inv ctx'"
        unfolding ctx'_def using c_ok Some(2) d new' by (intro streams_inv_update [OF inv]) simp_all
      with accepted [of k ctx'] 3 odd Some c c_ok show ?thesis
        by (simp add: nc_stream_manager_accept_stream_def c0_def [symmetric] at Let_def is_stream_def) (simp add: ctx'_def c0_def)
    qed
  qed
qed

lemma stream_packet_cases:
  assumes "unat bufferSize < length mem"
  obtains (short) "bufferSize < 4" "stream_packet mem bufferSize = None"
  | (bad) "\<not> bufferSize < 4" "var_uint_read (drop 1 mem) (bufferSize - 1) = Inr (False, 0, 0)" "stream_packet mem bufferSize = None"
  | (ok) streamId n where "\<not> bufferSize < 4" "var_uint_read (drop 1 mem) (bufferSize - 1) = Inr (True, streamId, n)"
      "1 + unat n < length mem" "stream_packet mem bufferSize = Some (streamId, mem ! (1 + unat n))"
proof (cases "bufferSize < 4")
  case True
  then show ?thesis using short by (simp add: stream_packet_def)
next
  case False
  define n where "n = bufferSize - 1"
  define k :: nat where "k = 2 ^ unat (drop_bit 6 (drop 1 mem ! 0))"
  have n: "unat n = unat bufferSize - 1" "3 \<le> unat n"
    using False by (auto simp: n_def word_less_nat_alt unat_sub word_le_nat_alt)
  then have len: "0 < unat n" "unat n \<le> length (drop 1 mem)" using assms by auto
  have k: "k \<in> {1, 2, 4, 8}"
    using length_bits_cases [of "drop 1 mem ! 0"] by (auto simp: k_def)
  have bits: "unat (of_nat k :: u8) = k" using k by auto
  show ?thesis
  proof (cases "unat n < k")
    case True
    with var_uint_read_total [OF len] have "var_uint_read (drop 1 mem) n = Inr (False, 0, 0)"
      by (simp add: k_def Let_def)
    with bad False show ?thesis by (simp add: n_def stream_packet_def)
  next
    case ge: False
    with var_uint_read_total [OF len] obtain v where v: "var_uint_read (drop 1 mem) n = Inr (True, v, of_nat k)"
      by (auto simp: k_def Let_def)
    have "1 + unat (of_nat k :: u8) < length mem" using ge bits n assms by simp
    with ok [of v "of_nat k"] v False show ?thesis by (simp add: n_def stream_packet_def)
  qed
qed

lemma send_rst_total:
  assumes "stream_engine_laws E" "conn_dtls conn = Some d" "\<forall>n. env_rstBuf env = Some n \<longrightarrow> 9 \<le> n"
  shows "\<exists>out b. nc_stream_manager_send_rst E env conn streamId ctx = Inr (ctx\<lparr>sm_rstBuf := b\<rparr>, out) \<and>
    (out = [] \<or> (\<exists>q. out = [RstSend d (AT_STREAM # var_uint_write_forward streamId @ q)]))"
proof -
  define h where "h = AT_STREAM # var_uint_write_forward streamId"
  have h: "length h \<le> 9" by (simp add: h_def var_uint_write_length)
  have rst: "length (eng_create_rst_packet E m) \<le> m" for m using assms(1) by (simp add: stream_engine_laws_def)
  show ?thesis
  proof (cases "sm_rstBuf ctx \<or> env_rstBuf env = None")
    case True
    then have "nc_stream_manager_send_rst E env conn streamId ctx = Inr (ctx\<lparr>sm_rstBuf := sm_rstBuf ctx\<rparr>, [])"
      by (auto simp: nc_stream_manager_send_rst_def emit_def)
    then show ?thesis by blast
  next
    case False
    then obtain n where n: "env_rstBuf env = Some n" by blast
    with assms(3) h have "length h \<le> n" by fastforce
    moreover have "length h + length (eng_create_rst_packet E (n - length h)) \<le> n" using calculation rst [of "n - length h"] by linarith
    ultimately have "nc_stream_manager_send_rst E env conn streamId ctx
        = Inr (ctx\<lparr>sm_rstBuf := True\<rparr>, [RstSend d (h @ eng_create_rst_packet E (n - length h))])"
      using False n assms(2) by (simp add: nc_stream_manager_send_rst_def emit_def h_def Let_def)
    then show ?thesis by (fastforce simp: h_def)
  qed
qed

lemma stream_handle_packet_total:
  assumes "stream_engine_laws E" "streams_inv ctx" "is_stream i streamId k ctx"
  shows "stm_total stm_kept (nc_stream_handle_packet E ls ec buffer) (sm_streams ctx ! k)"
proof -
  define c where "c = sm_streams ctx ! k"
  have k: "k < NABTO_MAX_STREAMS" "stm_active c" "sm_streamConns ctx ! k = Some i" using assms(3) by (simp_all add: is_stream_def c_def)
  have "stream_ok c" "stm_dtls c \<noteq> None" using streams_inv_at [OF assms(2) k(1)] k by (auto simp: c_def)
  then have "stm_total stm_kept (nc_stream_event E ls ec) (c\<lparr>stm_stream := eng_handle_packet E buffer (stm_stream c)\<rparr>)"
    using k by (intro event_total [OF assms(1)]) simp_all
  then show ?thesis
    by (simp add: stm_total_def nc_stream_handle_packet_def stm_kept_def c_def [symmetric])
qed

lemma packet_for_stream:
  assumes "stream_engine_laws E" "streams_inv ctx" "is_stream i streamId k ctx" "pk = Some (streamId, flags)"
  shows "\<exists>ctx' out. on_stream k (nc_stream_handle_packet E ls ec buffer) ctx = Some (Inr (ctx', out))
      \<and> streams_inv ctx' \<and> (\<forall>j. j \<noteq> k \<longrightarrow> same_entry ctx ctx' out j) \<and> answers_packet pk out"
proof -
  have k: "k < NABTO_MAX_STREAMS" "stm_streamId (sm_streams ctx ! k) = streamId" using assms(3) by (simp_all add: is_stream_def)
  obtain ctx' out where r: "on_stream k (nc_stream_handle_packet E ls ec buffer) ctx = Some (Inr (ctx', map (StreamOut k) out))"
    "streams_inv ctx'" "sm_streamConns ctx' = sm_streamConns ctx" "\<forall>j. j \<noteq> k \<longrightarrow> sm_streams ctx' ! j = sm_streams ctx ! j"
    "sends_as streamId (stm_dtls (sm_streams ctx ! k)) out"
    using on_stream_total [OF assms(2) k(1) stream_handle_packet_total [OF assms(1-3), of ls ec buffer]] k(2) by blast
  moreover have "answers_packet pk (map (StreamOut k) out)"
    using r(5) assms(4) by (auto simp: answers_packet_def sends_as_def)
  ultimately show ?thesis
    by (intro exI [of _ ctx'] exI [of _ "map (StreamOut k) out"]) (auto simp: same_entry_def)
qed

lemma packet_for_none:
  assumes "stream_engine_laws E" "conn_dtls conn = Some d" "\<forall>n. env_rstBuf env = Some n \<longrightarrow> 9 \<le> n" "streams_inv ctx" "pk = Some (streamId, flags)"
  shows "\<exists>ctx' out. (if b then Some (nc_stream_manager_send_rst E env conn streamId ctx) else Some (emit [] ctx)) = Some (Inr (ctx', out))
      \<and> streams_inv ctx' \<and> (\<forall>j. same_entry ctx ctx' out j) \<and> answers_packet pk out"
proof (cases b)
  case True
  obtain out r where "nc_stream_manager_send_rst E env conn streamId ctx = Inr (ctx\<lparr>sm_rstBuf := r\<rparr>, out)"
    and out: "out = [] \<or> (\<exists>q. out = [RstSend d (AT_STREAM # var_uint_write_forward streamId @ q)])"
    using send_rst_total [OF assms(1-3)] by blast
  moreover have "answers_packet pk out" "\<forall>j. same_entry ctx (ctx\<lparr>sm_rstBuf := r\<rparr>) out j" "streams_inv (ctx\<lparr>sm_rstBuf := r\<rparr>)"
    using out assms(4,5) by (auto simp: answers_packet_def same_entry_def streams_inv_def)
  ultimately show ?thesis using True by auto
qed (use assms(4) in \<open>simp add: emit_def same_entry_def answers_packet_def\<close>)


lemma demo_manager_inv: "streams_inv (demo_manager E)" "no_stale i (demo_manager E)"
  by (auto simp: streams_inv_def demo_manager_def stream_zero_def stream_ok_def read_in_progress_def no_stale_def)

lemma demo_one_stream_inv: "streams_inv demo_one_stream" "no_stale i demo_one_stream"
proof -
  have "stream_ok demo_stream" by (simp add: demo_stream_def stream_zero_def stream_ok_def read_in_progress_def)
  then have "streams_inv ((demo_manager demo_engine)\<lparr>sm_streams := (sm_streams (demo_manager demo_engine))[0 := demo_stream],
      sm_streamConns := (sm_streamConns (demo_manager demo_engine))[0 := Some 0]\<rparr>)"
    by (intro streams_inv_update [OF demo_manager_inv(1)])
       (simp_all add: demo_stream_def NABTO_MAX_STREAMS_def demo_manager_def)
  then show "streams_inv demo_one_stream" by (simp add: demo_one_stream_def demo_manager_def)
  show "no_stale i demo_one_stream"
    by (auto simp: no_stale_def demo_one_stream_def demo_manager_def demo_stream_def nth_list_update)
qed


section \<open>Removing a connection\<close>

lemma on_stream_pre:
  "k < length (sm_streams ctx) \<Longrightarrow>
     on_stream k (\<lambda>c. f (h c)) ctx = on_stream k f (ctx\<lparr>sm_streams := (sm_streams ctx)[k := h (sm_streams ctx ! k)]\<rparr>)"
  by (simp add: on_stream_def)

lemma remove_step_total:
  assumes laws: "stream_engine_laws E" "stream_progress_law E left" and inv: "streams_inv ctx" "no_stale i ctx" and k: "k < NABTO_MAX_STREAMS"
  shows "\<exists>ctx' out. remove_step E L ec i k ctx = Some (Inr (ctx', out)) \<and> streams_inv ctx' \<and> removed_entry i ctx ctx' out k
    \<and> (\<forall>j. j \<noteq> k \<longrightarrow> same_entry ctx ctx' out j)"
proof (cases "sm_streamConns ctx ! k = Some i")
  case True
  define c where "c = (sm_streams ctx ! k)\<lparr>stm_dtls := None, stm_stream := eng_connection_died E (stm_stream (sm_streams ctx ! k))\<rparr>"
  define ctx1 where "ctx1 = ctx\<lparr>sm_streams := (sm_streams ctx)[k := c], sm_streamConns := (sm_streamConns ctx)[k := None]\<rparr>"
  note len = streams_inv_at(2,3) [OF inv(1) k]
  have "stm_active (sm_streams ctx ! k)" using inv(2) True k by (simp add: no_stale_def)
  then have c: "stream_ok c" "stm_active c" "stm_dtls c = None"
    using streams_inv_at(1) [OF inv(1) k] by (simp_all add: c_def stream_ok_def read_in_progress_def)
  have inv1: "streams_inv ctx1" unfolding ctx1_def by (rule streams_inv_update [OF inv(1) k c(1)]) simp_all
  have at: "sm_streams ctx1 ! k = c" using len by (simp add: ctx1_def)
  have "stm_total stm_kept (nc_stream_event E (ll_items L (sm_listeners ctx)) ec) (sm_streams ctx1 ! k)"
    unfolding at by (rule event_dropped_total [OF laws c])
  from on_stream_total [OF inv1 k this] obtain ctx' out where
    r: "on_stream k (nc_stream_event E (ll_items L (sm_listeners ctx)) ec) ctx1 = Some (Inr (ctx', map (StreamOut k) out))"
      "streams_inv ctx'" "sm_streamConns ctx' = sm_streamConns ctx1" "\<forall>j. j \<noteq> k \<longrightarrow> sm_streams ctx' ! j = sm_streams ctx1 ! j"
      "stm_kept c (sm_streams ctx' ! k)" "sends_as (stm_streamId c) None out"
    unfolding at c(3) by blast
  have swap: "ctx1 = ctx\<lparr>sm_streamConns := (sm_streamConns ctx)[k := None], sm_streams := (sm_streams ctx)[k := c]\<rparr>"
    by (simp add: ctx1_def)
  have "remove_step E L ec i k ctx = Some (Inr (ctx', map (StreamOut k) out))"
    using True r(1) on_stream_pre [of k "ctx\<lparr>sm_streamConns := (sm_streamConns ctx)[k := None]\<rparr>"
      "nc_stream_event E (ll_items L (sm_listeners ctx)) ec" "\<lambda>c. c\<lparr>stm_dtls := None, stm_stream := eng_connection_died E (stm_stream c)\<rparr>"] len
    by (simp add: remove_step_def nc_stream_handle_connection_closed_def [abs_def] swap c_def)
  moreover have "removed_entry i ctx ctx' (map (StreamOut k) out) k"
    using True r(3,5,6) len c(3) by (auto simp: removed_entry_def ctx1_def stm_kept_def stm_same_def stream_gone_def sends_as_def)
  moreover have "\<forall>j. j \<noteq> k \<longrightarrow> same_entry ctx ctx' (map (StreamOut k) out) j"
    using r(3,4) by (auto simp: same_entry_def ctx1_def)
  ultimately show ?thesis using r(2) by blast
qed (use inv(1) in \<open>simp add: remove_step_def emit_def removed_entry_def same_entry_def\<close>)

lemma same_entry_trans: "same_entry a b o1 k \<Longrightarrow> same_entry b c o2 k \<Longrightarrow> same_entry a c (o1 @ o2) k"
  by (simp add: same_entry_def)

lemma remove_loop:
  assumes laws: "stream_engine_laws E" "stream_progress_law E left"
    and "streams_inv ctx" "no_stale i ctx" "distinct ks" "\<forall>k\<in>set ks. k < NABTO_MAX_STREAMS"
  shows "\<exists>ctx' out. foldr (\<lambda>k. runThen (remove_step E L ec i k)) ks (\<lambda>ctx. Some (emit [] ctx)) ctx = Some (Inr (ctx', out))
    \<and> streams_inv ctx' \<and> (\<forall>k. if k \<in> set ks then removed_entry i ctx ctx' out k else same_entry ctx ctx' out k)"
  using assms(3-)
proof (induction ks arbitrary: ctx)
  case (Cons k ks)
  from remove_step_total [OF laws Cons.prems(1,2), of k L ec] Cons.prems(4) obtain ctx1 o1 where
    1: "remove_step E L ec i k ctx = Some (Inr (ctx1, o1))" "streams_inv ctx1" "removed_entry i ctx ctx1 o1 k"
      "\<forall>j. j \<noteq> k \<longrightarrow> same_entry ctx ctx1 o1 j" by auto
  have stale: "no_stale i ctx1" unfolding no_stale_def
  proof (intro allI impI)
    fix j assume "j < NABTO_MAX_STREAMS" "sm_streamConns ctx1 ! j = Some i"
    with Cons.prems(2) 1(3,4) show "stm_active (sm_streams ctx1 ! j)"
      by (cases "j = k") (auto simp: no_stale_def removed_entry_def same_entry_def split: if_splits)
  qed
  from Cons.IH [OF 1(2) stale] Cons.prems(3,4) obtain ctx2 o2 where
    2: "foldr (\<lambda>k. runThen (remove_step E L ec i k)) ks (\<lambda>ctx. Some (emit [] ctx)) ctx1 = Some (Inr (ctx2, o2))"
      "streams_inv ctx2" "\<forall>k. if k \<in> set ks then removed_entry i ctx1 ctx2 o2 k else same_entry ctx1 ctx2 o2 k" by auto
  have run: "foldr (\<lambda>k. runThen (remove_step E L ec i k)) (k # ks) (\<lambda>ctx. Some (emit [] ctx)) ctx = Some (Inr (ctx2, o1 @ o2))"
    using 1(1) 2(1) by (simp add: runThen_def)
  have "if j \<in> set (k # ks) then removed_entry i ctx ctx2 (o1 @ o2) j else same_entry ctx ctx2 (o1 @ o2) j" for j
  proof (cases "j = k")
    case True
    have "same_entry ctx1 ctx2 o2 k" using 2(3) Cons.prems(3) by (metis distinct.simps(2))
    with 1(3) True show ?thesis by (auto simp: removed_entry_def same_entry_def split: if_splits)
  next
    case False
    with 1(4) have "same_entry ctx ctx1 o1 j" by blast
    with 2(3) [rule_format, of j] False show ?thesis by (auto simp: removed_entry_def same_entry_def split: if_splits)
  qed
  with run 2(2) show ?case by blast
qed (simp add: emit_def same_entry_def)



section \<open>Destroyed streams\<close>



end
