(* ===== verification/NdFuture.thy ===== *)
theory NdFuture
  imports NnLib NpPlatform
begin

text \<open>
  Futures of the device API (\<^verbatim>\<open>src/api/nabto_device_future.c\<close>) and the thread that calls their callbacks
  (\<^verbatim>\<open>src/api/nabto_device_future_queue.c\<close>). Every operation runs while it holds the lock of the future or of
  the queue, so that an operation is one step. A pointer to a future is a number, and so is a callback with its data.
\<close>

section \<open>State\<close>

record nabto_device_future =
  fut_cb :: "nat option"
  fut_ec :: np_error_code
  fut_ready :: bool

record 'l nabto_device_future_queue =
  fq_futureList :: 'l
  fq_stopped :: bool

record 'l future_state =
  fut_of :: "nat \<Rightarrow> nabto_device_future"
  fut_queue :: "'l nabto_device_future_queue"

datatype future_output =
    FutCallback nat nat np_error_code
  | FutSignal nat
  | QueueSignal

type_synonym 'l fut_act = "('l future_state, future_output) act"

definition future_zero :: nabto_device_future where
  "future_zero = \<lparr>fut_cb = None, fut_ec = NABTO_EC_OK, fut_ready = False\<rparr>"

text \<open>The three flags say whether the allocation and the creation of the mutex and of the condition succeed.\<close>

definition nabto_device_future_new :: "bool \<Rightarrow> bool \<Rightarrow> bool \<Rightarrow> nabto_device_future option" where
  "nabto_device_future_new mem mutex cond =
     (if \<not> mem then None else if \<not> mutex then None else if \<not> cond then None else Some future_zero)"

section \<open>The queue of futures\<close>

definition nabto_device_future_queue_init ::
    "('l, nat) nn_llist \<Rightarrow> bool \<Rightarrow> bool \<Rightarrow> bool \<Rightarrow> np_error_code \<Rightarrow> 'l nabto_device_future_queue
       \<Rightarrow> np_error_code \<times> 'l nabto_device_future_queue" where
  "nabto_device_future_queue_init L thread mutex condition run queue =
     (if \<not> thread \<or> \<not> mutex \<or> \<not> condition then (NABTO_EC_OUT_OF_MEMORY, queue)
      else (run, queue\<lparr>fq_futureList := ll_init L\<rparr>))"

definition nabto_device_future_queue_stop :: "'l fut_act" where
  "nabto_device_future_queue_stop s = emit [QueueSignal] (s\<lparr>fut_queue := (fut_queue s)\<lparr>fq_stopped := True\<rparr>\<rparr>)"

text \<open>The node of a future is a field of it, so that a future must not be appended twice.\<close>

definition nabto_device_future_queue_post :: "('l, nat) nn_llist \<Rightarrow> nat \<Rightarrow> 'l fut_act" where
  "nabto_device_future_queue_post L fut s =
     (let q = fut_queue s in
      if fut \<in> set (ll_items L (fq_futureList q)) then Inl NodeInUse
      else emit [QueueSignal] (s\<lparr>fut_queue := q\<lparr>fq_futureList := ll_append L (fq_futureList q) fut\<rparr>\<rparr>))"

section \<open>Futures\<close>

definition upd_future :: "nat \<Rightarrow> (nabto_device_future \<Rightarrow> nabto_device_future) \<Rightarrow> 'l future_state \<Rightarrow> 'l future_state" where
  "upd_future f g s = s\<lparr>fut_of := (fut_of s)(f := g (fut_of s f))\<rparr>"

definition nabto_device_future_set_callback :: "('l, nat) nn_llist \<Rightarrow> nat \<Rightarrow> nat option \<Rightarrow> 'l fut_act" where
  "nabto_device_future_set_callback L fut callback s =
     (let s1 = upd_future fut (\<lambda>x. x\<lparr>fut_cb := callback\<rparr>) s in
      if fut_ready (fut_of s1 fut) then nabto_device_future_queue_post L fut s1 else emit [] s1)"

text \<open>
  A wait that finds the future not resolved returns when its condition variable wakes it up; \<open>woken\<close> is the state then.
\<close>

definition nabto_device_future_wait :: "nat \<Rightarrow> 'l future_state \<Rightarrow> 'l future_state \<Rightarrow> np_error_code" where
  "nabto_device_future_wait fut s woken =
     (if \<not> fut_ready (fut_of s fut) then fut_ec (fut_of woken fut) else fut_ec (fut_of s fut))"

definition nabto_device_future_timed_wait :: "nat \<Rightarrow> 'l future_state \<Rightarrow> 'l future_state \<Rightarrow> np_error_code" where
  "nabto_device_future_timed_wait fut s woken =
     (if fut_ready (fut_of s fut) then fut_ec (fut_of s fut)
      else if fut_ready (fut_of woken fut) then fut_ec (fut_of woken fut)
      else NABTO_EC_FUTURE_NOT_RESOLVED)"

definition nabto_device_future_error_code :: "nat \<Rightarrow> 'l future_state \<Rightarrow> np_error_code" where
  "nabto_device_future_error_code fut s =
     (if \<not> fut_ready (fut_of s fut) then NABTO_EC_FUTURE_NOT_RESOLVED else fut_ec (fut_of s fut))"

definition nabto_device_future_ready :: "nat \<Rightarrow> 'l future_state \<Rightarrow> np_error_code" where
  "nabto_device_future_ready = nabto_device_future_error_code"

definition nabto_device_future_reset :: "nat \<Rightarrow> 'l fut_act" where
  "nabto_device_future_reset fut = modify (upd_future fut (\<lambda>x. x\<lparr>fut_ec := NABTO_EC_OK, fut_ready := False, fut_cb := None\<rparr>))"

definition nabto_device_future_popped :: "nat \<Rightarrow> 'l fut_act" where
  "nabto_device_future_popped fut s =
     (let x = fut_of s fut; s1 = upd_future fut (\<lambda>x. x\<lparr>fut_cb := None\<rparr>) s in
      emit (case fut_cb x of None \<Rightarrow> [] | Some cb \<Rightarrow> [FutCallback fut cb (fut_ec x)]) s1)"

definition nabto_device_future_resolve :: "('l, nat) nn_llist \<Rightarrow> nat \<Rightarrow> np_error_code \<Rightarrow> 'l fut_act" where
  "nabto_device_future_resolve L fut ec s =
     (let s1 = upd_future fut (\<lambda>x. x\<lparr>fut_ec := ec, fut_ready := True\<rparr>) s in
      if fut_cb (fut_of s1 fut) \<noteq> None then nabto_device_future_queue_post L fut s1 else emit [FutSignal fut] s1)"

text \<open>One turn of the thread; it waits for a signal when there is nothing to do and returns when it is stopped.\<close>

definition execution_thread :: "('l, nat) nn_llist \<Rightarrow> 'l fut_act" where
  "execution_thread L s =
     (let q = fut_queue s in
      case ll_items L (fq_futureList q) of
        future # _ \<Rightarrow>
          nabto_device_future_popped future (s\<lparr>fut_queue := q\<lparr>fq_futureList := ll_erase L (fq_futureList q) 0\<rparr>\<rparr>)
      | [] \<Rightarrow> emit [] s)"

definition execution_thread_returns :: "('l, nat) nn_llist \<Rightarrow> 'l future_state \<Rightarrow> bool" where
  "execution_thread_returns L s \<longleftrightarrow> ll_items L (fq_futureList (fut_queue s)) = [] \<and> fq_stopped (fut_queue s)"

section \<open>Specification\<close>

text \<open>The steps of a program: the application sets a callback, the device resolves, the thread runs.\<close>

datatype future_label = FSetCallback nat nat | FResolve nat np_error_code | FExec | FStop

fun future_step :: "('l, nat) nn_llist \<Rightarrow> future_label \<Rightarrow> 'l fut_act" where
  "future_step L (FSetCallback f cb) = nabto_device_future_set_callback L f (Some cb)"
| "future_step L (FResolve f ec) = nabto_device_future_resolve L f ec"
| "future_step L FExec = execution_thread L"
| "future_step L FStop = nabto_device_future_queue_stop"

definition future_init :: "('l, nat) nn_llist \<Rightarrow> 'l future_state" where
  "future_init L = \<lparr>fut_of = (\<lambda>_. future_zero), fut_queue = \<lparr>fq_futureList = ll_init L, fq_stopped = False\<rparr>\<rparr>"

fun callback_of :: "nat \<Rightarrow> future_label list \<Rightarrow> nat option" where
  "callback_of f [] = None"
| "callback_of f (FSetCallback g cb # ls) = (if g = f then Some cb else callback_of f ls)"
| "callback_of f (_ # ls) = callback_of f ls"

fun result_of :: "nat \<Rightarrow> future_label list \<Rightarrow> np_error_code option" where
  "result_of f [] = None"
| "result_of f (FResolve g ec # ls) = (if g = f then Some ec else result_of f ls)"
| "result_of f (_ # ls) = result_of f ls"

text \<open>A program that sets the callback of a future once at most, and resolves it once at most.\<close>

fun used_once :: "future_label list \<Rightarrow> bool" where
  "used_once [] = True"
| "used_once (FSetCallback f cb # ls) \<longleftrightarrow> callback_of f ls = None \<and> used_once ls"
| "used_once (FResolve f ec # ls) \<longleftrightarrow> result_of f ls = None \<and> used_once ls"
| "used_once (_ # ls) = used_once ls"

fun calls_of :: "nat \<Rightarrow> future_output list \<Rightarrow> (nat \<times> np_error_code) list" where
  "calls_of f [] = []"
| "calls_of f (FutCallback g cb ec # out) = (if g = f then (cb, ec) # calls_of f out else calls_of f out)"
| "calls_of f (_ # out) = calls_of f out"

text \<open>A future after a program: whether it is queued, its callback and result in the program, and the calls made.\<close>

fun future_ok :: "bool \<Rightarrow> nabto_device_future \<Rightarrow> nat option \<Rightarrow> np_error_code option \<Rightarrow> (nat \<times> np_error_code) list \<Rightarrow> bool" where
  "future_ok queued x (Some cb) (Some ec) calls \<longleftrightarrow> fut_ready x \<and> fut_ec x = ec \<and>
     (if queued then fut_cb x = Some cb \<and> calls = [] else fut_cb x = None \<and> calls = [(cb, ec)])"
| "future_ok queued x cb (Some ec) calls \<longleftrightarrow> fut_ready x \<and> fut_ec x = ec \<and> \<not> queued \<and> fut_cb x = cb \<and> calls = []"
| "future_ok queued x cb None calls \<longleftrightarrow> \<not> fut_ready x \<and> \<not> queued \<and> fut_cb x = cb \<and> calls = []"

definition queued_futures :: "('l, nat) nn_llist \<Rightarrow> 'l future_state \<Rightarrow> nat list" where
  "queued_futures L s = ll_items L (fq_futureList (fut_queue s))"

definition future_inv :: "('l, nat) nn_llist \<Rightarrow> future_label list \<Rightarrow> 'l future_state \<Rightarrow> future_output list \<Rightarrow> bool" where
  "future_inv L ls s out \<longleftrightarrow> distinct (queued_futures L s) \<and>
     (\<forall>f. future_ok (f \<in> set (queued_futures L s)) (fut_of s f) (callback_of f ls) (result_of f ls) (calls_of f out))"

section \<open>A callback is called exactly once\<close>

lemma callback_of_append: "callback_of f (ks @ ls) = (case callback_of f ks of None \<Rightarrow> callback_of f ls | Some cb \<Rightarrow> Some cb)"
  by (induction f ks rule: callback_of.induct) simp_all

lemma result_of_append: "result_of f (ks @ ls) = (case result_of f ks of None \<Rightarrow> result_of f ls | Some ec \<Rightarrow> Some ec)"
  by (induction f ks rule: result_of.induct) simp_all

lemma calls_of_append [simp]: "calls_of f (xs @ ys) = calls_of f xs @ calls_of f ys"
  by (induction f xs rule: calls_of.induct) simp_all

lemma used_once_append:
  "used_once (ks @ ls) \<Longrightarrow> used_once ks \<and> used_once ls \<and>
     (\<forall>f. callback_of f ks = None \<or> callback_of f ls = None) \<and> (\<forall>f. result_of f ks = None \<or> result_of f ls = None)"
  by (induction ks rule: used_once.induct) (auto simp: callback_of_append result_of_append split: option.splits if_splits)

lemma future_ok_no_callback [simp]:
  "future_ok q x None r calls \<longleftrightarrow> \<not> q \<and> fut_cb x = None \<and> calls = [] \<and> fut_ready x = (r \<noteq> None) \<and> (r = None \<or> r = Some (fut_ec x))"
  by (cases r) auto

lemma future_invD:
  "future_inv L ls s out \<Longrightarrow> future_ok (f \<in> set (queued_futures L s)) (fut_of s f) (callback_of f ls) (result_of f ls) (calls_of f out)"
  by (simp add: future_inv_def)

text \<open>A step works on one future \<open>f\<close>: the others keep what the invariant says of them.\<close>

lemma future_invI:
  assumes inv: "future_inv L ls s out" and dist: "distinct (queued_futures L s')"
    and f: "future_ok (f \<in> set (queued_futures L s')) (fut_of s' f) (callback_of f (ls @ [l])) (result_of f (ls @ [l])) (calls_of f (out @ out'))"
    and other: "\<And>g. g \<noteq> f \<Longrightarrow> (g \<in> set (queued_futures L s')) = (g \<in> set (queued_futures L s)) \<and> fut_of s' g = fut_of s g \<and>
      callback_of g [l] = None \<and> result_of g [l] = None \<and> calls_of g out' = []"
  shows "future_inv L (ls @ [l]) s' (out @ out')"
  unfolding future_inv_def
proof (intro conjI allI dist)
  fix g
  show "future_ok (g \<in> set (queued_futures L s')) (fut_of s' g) (callback_of g (ls @ [l])) (result_of g (ls @ [l])) (calls_of g (out @ out'))"
  proof (cases "g = f")
    case True
    with f show ?thesis by simp
  next
    case False
    from other [OF this] future_invD [OF inv, of g] show ?thesis
      by (cases "callback_of g ls"; cases "result_of g ls") (simp_all add: callback_of_append result_of_append)
  qed
qed

lemma future_inv_frame:
  assumes "future_inv L ls s out" "queued_futures L s' = queued_futures L s" "fut_of s' = fut_of s" "l = FExec \<or> l = FStop"
    and "\<And>g. calls_of g out' = []"
  shows "future_inv L (ls @ [l]) s' (out @ out')"
proof -
  have "callback_of g (ls @ [l]) = callback_of g ls \<and> result_of g (ls @ [l]) = result_of g ls" for g
    using assms(4) by (cases "callback_of g ls"; cases "result_of g ls") (auto simp: callback_of_append result_of_append)
  with assms show ?thesis by (simp add: future_inv_def)
qed

lemma nabto_device_future_queue_post_new:
  assumes "nn_llist_laws L" "f \<notin> set (queued_futures L s)"
  shows "\<exists>s'. nabto_device_future_queue_post L f s = Inr (s', [QueueSignal]) \<and>
    queued_futures L s' = queued_futures L s @ [f] \<and> fut_of s' = fut_of s"
  using assms by (simp add: nabto_device_future_queue_post_def queued_futures_def Let_def emit_def ll_items_append)

lemma future_step_inv:
  assumes L: "nn_llist_laws L" and inv: "future_inv L ls s out" and once: "used_once (ls @ [l])"
  shows "\<exists>s' out'. future_step L l s = Inr (s', out') \<and> future_inv L (ls @ [l]) s' (out @ out')"
proof (cases l)
  case (FSetCallback f cb)
  let ?s = "upd_future f (\<lambda>x. x\<lparr>fut_cb := Some cb\<rparr>) s"
  have q: "queued_futures L ?s = queued_futures L s" by (simp add: upd_future_def queued_futures_def)
  have new: "callback_of f ls = None" using used_once_append [OF once] FSetCallback by auto
  note old = future_invD [OF inv, of f, unfolded new]
  show ?thesis
  proof (cases "fut_ready (fut_of s f)")
    case True
    from old q have "f \<notin> set (queued_futures L ?s)" by simp
    from nabto_device_future_queue_post_new [OF L this] obtain s' where
      post: "nabto_device_future_queue_post L f ?s = Inr (s', [QueueSignal])"
        "queued_futures L s' = queued_futures L s @ [f]" "fut_of s' = fut_of ?s" by (auto simp: q)
    have "future_inv L (ls @ [l]) s' (out @ [QueueSignal])"
      by (rule future_invI [OF inv, where f = f])
        (use post old new True inv in \<open>auto simp: FSetCallback future_inv_def callback_of_append result_of_append upd_future_def\<close>)
    with post True show ?thesis
      by (auto simp: FSetCallback nabto_device_future_set_callback_def upd_future_def)
  next
    case False
    have "future_inv L (ls @ [l]) ?s (out @ [])"
      by (rule future_invI [OF inv, where f = f])
        (use q old new False inv in \<open>auto simp: FSetCallback future_inv_def callback_of_append result_of_append upd_future_def\<close>)
    with False show ?thesis
      by (auto simp: FSetCallback nabto_device_future_set_callback_def upd_future_def emit_def)
  qed
next
  case (FResolve f ec)
  let ?s = "upd_future f (\<lambda>x. x\<lparr>fut_ec := ec, fut_ready := True\<rparr>) s"
  have q: "queued_futures L ?s = queued_futures L s" by (simp add: upd_future_def queued_futures_def)
  have new: "result_of f ls = None" using used_once_append [OF once] FResolve by auto
  note old = future_invD [OF inv, of f, unfolded new]
  show ?thesis
  proof (cases "callback_of f ls")
    case (Some cb)
    from old q have "f \<notin> set (queued_futures L ?s)" by simp
    from nabto_device_future_queue_post_new [OF L this] obtain s' where
      post: "nabto_device_future_queue_post L f ?s = Inr (s', [QueueSignal])"
        "queued_futures L s' = queued_futures L s @ [f]" "fut_of s' = fut_of ?s" by (auto simp: q)
    have "future_inv L (ls @ [l]) s' (out @ [QueueSignal])"
      by (rule future_invI [OF inv, where f = f])
        (use post old new Some inv in \<open>auto simp: FResolve future_inv_def callback_of_append result_of_append upd_future_def\<close>)
    with post Some old show ?thesis
      by (auto simp: FResolve nabto_device_future_resolve_def upd_future_def)
  next
    case None
    have "future_inv L (ls @ [l]) ?s (out @ [FutSignal f])"
      by (rule future_invI [OF inv, where f = f])
        (use q old new None inv in \<open>auto simp: FResolve future_inv_def callback_of_append result_of_append upd_future_def\<close>)
    with None old show ?thesis
      by (auto simp: FResolve nabto_device_future_resolve_def upd_future_def emit_def)
  qed
next
  case FExec
  show ?thesis
  proof (cases "queued_futures L s")
    case Nil
    have "future_inv L (ls @ [l]) s (out @ [])"
      by (rule future_inv_frame [OF inv]) (simp_all add: FExec)
    with Nil show ?thesis by (auto simp: FExec execution_thread_def emit_def queued_futures_def)
  next
    case (Cons f fs)
    let ?s = "s\<lparr>fut_queue := (fut_queue s)\<lparr>fq_futureList := ll_erase L (fq_futureList (fut_queue s)) 0\<rparr>\<rparr>"
    let ?s' = "upd_future f (\<lambda>x. x\<lparr>fut_cb := None\<rparr>) ?s"
    have q: "queued_futures L ?s' = fs"
      using Cons L by (simp add: queued_futures_def upd_future_def ll_items_erase)
    have fs: "f \<notin> set fs" "distinct fs" using inv Cons by (auto simp: future_inv_def)
    obtain cb ec where x: "callback_of f ls = Some cb" "result_of f ls = Some ec" "fut_cb (fut_of s f) = Some cb"
        "fut_ec (fut_of s f) = ec" "calls_of f out = []" "fut_ready (fut_of s f)"
      using future_invD [OF inv, of f] Cons by (cases "callback_of f ls"; cases "result_of f ls") auto
    have "future_inv L (ls @ [l]) ?s' (out @ [FutCallback f cb ec])"
      by (rule future_invI [OF inv, where f = f])
        (use q fs x Cons in \<open>auto simp: FExec callback_of_append result_of_append upd_future_def\<close>)
    with x Cons show ?thesis
      by (auto simp: FExec execution_thread_def nabto_device_future_popped_def emit_def queued_futures_def Let_def)
  qed
next
  case FStop
  let ?s = "s\<lparr>fut_queue := (fut_queue s)\<lparr>fq_stopped := True\<rparr>\<rparr>"
  have "future_inv L (ls @ [l]) ?s (out @ [QueueSignal])"
    by (rule future_inv_frame [OF inv]) (simp_all add: FStop queued_futures_def)
  then show ?thesis by (auto simp: FStop nabto_device_future_queue_stop_def emit_def)
qed

lemma future_run_inv:
  assumes L: "nn_llist_laws L"
  shows "used_once ls \<Longrightarrow> \<exists>s out. run_acts (future_step L) ls (future_init L) = Inr (s, out) \<and> future_inv L ls s out"
proof (induction ls rule: rev_induct)
  case Nil
  show ?case using L by (simp add: future_inv_def future_init_def future_zero_def ll_items_init queued_futures_def)
next
  case (snoc l ls)
  from snoc.IH used_once_append [OF snoc.prems] obtain s out where
    run: "run_acts (future_step L) ls (future_init L) = Inr (s, out)" and inv: "future_inv L ls s out" by blast
  from future_step_inv [OF L inv snoc.prems] obtain s' out' where
    "future_step L l s = Inr (s', out')" "future_inv L (ls @ [l]) s' (out @ out')" by blast
  with run show ?case by (auto simp: run_acts_append andThen_def)
qed

text \<open>
  C21. The callback of a future is called exactly once, with the code the future was resolved with, whether the
  callback is set before or after it, and whatever other futures the thread works on in between: for every program that sets
  the callback of a future and resolves it once at most, the calls of the callback are none until both have happened
  and the thread has reached the future, and then this one.
\<close>

theorem future_callback_once:
  assumes "nn_llist_laws L" "used_once ls"
  shows "\<exists>s out. run_acts (future_step L) ls (future_init L) = Inr (s, out) \<and>
    (\<forall>f. calls_of f out = (case (callback_of f ls, result_of f ls) of
        (Some cb, Some ec) \<Rightarrow> if f \<in> set (queued_futures L s) then [] else [(cb, ec)]
      | _ \<Rightarrow> [])) \<and>
    (\<forall>f. nabto_device_future_error_code f s = (case result_of f ls of None \<Rightarrow> NABTO_EC_FUTURE_NOT_RESOLVED | Some ec \<Rightarrow> ec))"
proof -
  obtain s out where "run_acts (future_step L) ls (future_init L) = Inr (s, out)" "future_inv L ls s out"
    using future_run_inv [OF assms] by blast
  moreover have "calls_of f out = (case (callback_of f ls, result_of f ls) of
        (Some cb, Some ec) \<Rightarrow> if f \<in> set (queued_futures L s) then [] else [(cb, ec)] | _ \<Rightarrow> []) \<and>
      nabto_device_future_error_code f s = (case result_of f ls of None \<Rightarrow> NABTO_EC_FUTURE_NOT_RESOLVED | Some ec \<Rightarrow> ec)" for f
    using future_invD [OF calculation(2), of f]
    by (cases "callback_of f ls"; cases "result_of f ls") (auto simp: nabto_device_future_error_code_def)
  ultimately show ?thesis by blast
qed

theorem future_callback_once_witness:
  "\<exists>s out. run_acts (future_step llist_by_list) [FSetCallback 1 5, FResolve 2 NABTO_EC_EOF, FResolve 1 NABTO_EC_OK, FExec] (future_init llist_by_list)
       = Inr (s, out) \<and> nabto_device_future_error_code 2 s = NABTO_EC_EOF"
proof -
  have "used_once [FSetCallback 1 5, FResolve 2 NABTO_EC_EOF, FResolve 1 NABTO_EC_OK, FExec]" by simp
  from future_callback_once [OF nn_llist_laws_by_list this] show ?thesis by fastforce
qed

end
