(* ===== verification/NdListener.thy ===== *)
theory NdListener
  imports NdFuture NcAttacher NcClientConnection
begin

text \<open>
  Listeners of the device API: the queue of events between the core and the application
  (\<^verbatim>\<open>src/api/nabto_device_event_handler.c\<close>), and the six modules that use it: device events, connection events, streams,
  CoAP requests, authorization requests and password requests. A listener calls its module through a function pointer with
  untyped pointers to an event and to the data of the module; a cast to the wrong type is the fault \<open>WrongType\<close>.
  Every operation runs while it holds the event mutex, so that an operation is one step. The codes of the API are those
  of the core, see \<^verbatim>\<open>nabto_device_error_core_to_api\<close>.
\<close>

section \<open>Calls that return a value\<close>

type_synonym ('s, 'o, 'a) call = "'s \<Rightarrow> ('a \<times> 's \<times> 'o list) outcome"

definition callThen :: "('s, 'o, 'a) call \<Rightarrow> ('a \<Rightarrow> ('s, 'o, 'b) call) \<Rightarrow> ('s, 'o, 'b) call" where
  "callThen f g s = obind (f s) (\<lambda>(a, s1, o1). obind (g a s1) (\<lambda>(b, s2, o2). Inr (b, s2, o1 @ o2)))"

definition ret :: "'a \<Rightarrow> 'o list \<Rightarrow> ('s, 'o, 'a) call" where
  "ret a out s = Inr (a, s, out)"

definition call_act :: "('s, 'o, 'a) call \<Rightarrow> ('s, 'o) act" where
  "call_act f s = obind (f s) (\<lambda>(_, s1, out). Inr (s1, out))"

section \<open>State\<close>

datatype nabto_device_listener_type =
    LISTENER_TYPE_NONE
  | LISTENER_TYPE_CONNECTION_EVENTS
  | LISTENER_TYPE_DEVICE_EVENTS
  | LISTENER_TYPE_STREAMS
  | LISTENER_TYPE_COAP
  | LISTENER_TYPE_AUTHORIZATION
  | LISTENER_TYPE_PASSWORD_REQUESTS

text \<open>The events of the modules. A stream, a CoAP request and the other requests are numbers.\<close>

datatype api_event =
    EvDevice nc_device_event
  | EvConnection u64 nc_connection_event
  | EvStream nat
  | EvCoap nat u64
  | EvAuthorization nat
  | EvPassword nat

text \<open>
  The data of a listener: a context that the module allocated, the authorization module, or the listener itself.
  The contexts hold the listener they belong to and the addresses of the variables of the application that
  the next event is written to.
\<close>

datatype listener_data = DataNull | DataContext nat | DataAuthorization | DataListener nat

datatype listener_context =
    DeviceContext nat "nat option"
  | ConnectionContext nat "nat option" "nat option"
  | StreamContext nat "nat option"
  | CoapResource nat "nat option"

text \<open>The function pointer of a listener is the type of the module whose function it is.\<close>

record 'l nabto_device_listener =
  lst_eventsList :: 'l
  lst_cb :: "nabto_device_listener_type option"
  lst_listenerData :: listener_data
  lst_genericFutureResolverData :: "nat option"
  lst_fut :: "nat option"
  lst_ec :: np_error_code
  lst_type :: nabto_device_listener_type
  lst_isInitialized :: bool

text \<open>
  The state of the device: its listeners and the contexts of the modules (none: not allocated, or freed), the
  listeners of each type that the core calls, and the listeners for authorization and for passwords.
  \<open>api_eventMutex\<close> says that an operation returned without releasing the mutex.
\<close>

record ('l, 'r) api_state =
  api_listener :: "nat \<Rightarrow> 'l nabto_device_listener option"
  api_listeners :: 'r
  api_context :: "nat \<Rightarrow> listener_context option"
  api_next :: nat
  api_core :: "nabto_device_listener_type \<Rightarrow> 'r"
  api_authorization_listener :: "nat option"
  api_authorization_request :: "nat option"
  api_passwordRequestHandler :: "nat option"
  api_eventMutex :: bool

datatype api_output =
    OFutureReset nat
  | OFutureResolve nat np_error_code
  | ODeliver "nat list" api_event
  | OStoreNull nat
  | OFree api_event
  | OStreamRelease nat
  | OCoapError nat nat nat
  | OCoapRequestFree nat
  | ONcStunSetHost string u16

type_synonym ('l, 'r) api_act = "(('l, 'r) api_state, api_output) act"
type_synonym ('l, 'r, 'a) api_call = "(('l, 'r) api_state, api_output, 'a) call"

definition with_listener :: "nat \<Rightarrow> ('l nabto_device_listener \<Rightarrow> ('l, 'r, 'a) api_call) \<Rightarrow> ('l, 'r, 'a) api_call" where
  "with_listener l f s = (case api_listener s l of None \<Rightarrow> Inl UseAfterFree | Some x \<Rightarrow> f x s)"

definition upd_listener ::
    "nat \<Rightarrow> ('l nabto_device_listener \<Rightarrow> 'l nabto_device_listener) \<Rightarrow> ('l, 'r) api_state \<Rightarrow> ('l, 'r) api_state" where
  "upd_listener l f s = s\<lparr>api_listener := (api_listener s)(l := map_option f (api_listener s l))\<rparr>"

text \<open>A pointer to the data of a listener, used as a pointer to a context.\<close>

definition context_of :: "listener_data \<Rightarrow> ('l, 'r) api_state \<Rightarrow> (nat \<times> listener_context) outcome" where
  "context_of data s =
     (case data of
        DataNull \<Rightarrow> Inl NullPointer
      | DataContext p \<Rightarrow> (case api_context s p of None \<Rightarrow> Inl UseAfterFree | Some c \<Rightarrow> Inr (p, c))
      | _ \<Rightarrow> Inl WrongType)"

definition set_context :: "nat \<Rightarrow> listener_context option \<Rightarrow> ('l, 'r) api_state \<Rightarrow> ('l, 'r) api_state" where
  "set_context p c s = s\<lparr>api_context := (api_context s)(p := c)\<rparr>"

text \<open>The core forgets the listener whose context is \<open>p\<close>.\<close>

definition core_remove :: "('r, nat) nn_llist \<Rightarrow> nabto_device_listener_type \<Rightarrow> nat \<Rightarrow> ('l, 'r) api_state \<Rightarrow> ('l, 'r) api_state" where
  "core_remove R t p s = s\<lparr>api_core := (api_core s)(t := ll_erase_node R (api_core s t) p)\<rparr>"

definition core_add :: "('r, nat) nn_llist \<Rightarrow> nabto_device_listener_type \<Rightarrow> nat \<Rightarrow> ('l, 'r) api_state \<Rightarrow> ('l, 'r) api_state" where
  "core_add R t p s = s\<lparr>api_core := (api_core s)(t := ll_append R (api_core s t) p)\<rparr>"

section \<open>The functions the listeners call\<close>

definition free_event :: "api_event option \<Rightarrow> api_output list" where
  "free_event ev = (case ev of None \<Rightarrow> [] | Some e \<Rightarrow> [OFree e])"

definition nabto_device_events_listener_cb ::
    "('r, nat) nn_llist \<Rightarrow> np_error_code \<Rightarrow> api_event option \<Rightarrow> listener_data \<Rightarrow> ('l, 'r, np_error_code) api_call" where
  "nabto_device_events_listener_cb R ec eventData listenerData s =
     (if ec = NABTO_EC_OK then
        obind (context_of listenerData s) (\<lambda>(p, ctx).
          case (ctx, eventData) of
            (DeviceContext l user, Some (EvDevice e)) \<Rightarrow>
              (case user of
                 Some a \<Rightarrow> ret NABTO_EC_OK [ODeliver [a] (EvDevice e), OFree (EvDevice e)] (set_context p (Some (DeviceContext l None)) s)
               | None \<Rightarrow> ret NABTO_EC_UNKNOWN [OFree (EvDevice e)] s)
          | (DeviceContext _ _, None) \<Rightarrow> Inl NullPointer
          | _ \<Rightarrow> Inl WrongType)
      else if ec = NABTO_EC_ABORTED then
        obind (context_of listenerData s) (\<lambda>(p, ctx).
          case ctx of
            DeviceContext _ _ \<Rightarrow> ret ec [] (set_context p None (core_remove R LISTENER_TYPE_DEVICE_EVENTS p s))
          | _ \<Rightarrow> Inl WrongType)
      else ret ec (free_event eventData) s)"

definition nabto_device_connection_events_listener_cb ::
    "('r, nat) nn_llist \<Rightarrow> np_error_code \<Rightarrow> api_event option \<Rightarrow> listener_data \<Rightarrow> ('l, 'r, np_error_code) api_call" where
  "nabto_device_connection_events_listener_cb R ec eventData listenerData s =
     (if ec = NABTO_EC_OK then
        obind (context_of listenerData s) (\<lambda>(p, ctx).
          case (ctx, eventData) of
            (ConnectionContext l userRef userEvent, Some (EvConnection ref e)) \<Rightarrow>
              (case userRef of
                 Some a \<Rightarrow> obind (deref userEvent) (\<lambda>b.
                   ret NABTO_EC_OK [ODeliver [a, b] (EvConnection ref e), OFree (EvConnection ref e)]
                     (set_context p (Some (ConnectionContext l None None)) s))
               | None \<Rightarrow> ret NABTO_EC_UNKNOWN [OFree (EvConnection ref e)] s)
          | (ConnectionContext _ _ _, None) \<Rightarrow> Inl NullPointer
          | _ \<Rightarrow> Inl WrongType)
      else if ec = NABTO_EC_ABORTED then
        obind (context_of listenerData s) (\<lambda>(p, ctx).
          case ctx of
            ConnectionContext _ _ _ \<Rightarrow> ret ec [] (set_context p None (core_remove R LISTENER_TYPE_CONNECTION_EVENTS p s))
          | _ \<Rightarrow> Inl WrongType)
      else ret ec (free_event eventData) s)"

definition nabto_device_stream_listener_callback ::
    "('r, nat) nn_llist \<Rightarrow> np_error_code \<Rightarrow> api_event option \<Rightarrow> listener_data \<Rightarrow> ('l, 'r, np_error_code) api_call" where
  "nabto_device_stream_listener_callback R ec eventData listenerData s =
     (if ec = NABTO_EC_OK then
        obind (context_of listenerData s) (\<lambda>(p, ctx).
          case (ctx, eventData) of
            (StreamContext l user, Some (EvStream str)) \<Rightarrow>
              (case user of
                 Some a \<Rightarrow> ret NABTO_EC_OK [ODeliver [a] (EvStream str)] (set_context p (Some (StreamContext l None)) s)
               | None \<Rightarrow> ret NABTO_EC_UNKNOWN [] s)
          | (StreamContext _ _, None) \<Rightarrow> Inl NullPointer
          | _ \<Rightarrow> Inl WrongType)
      else if ec = NABTO_EC_ABORTED then
        obind (context_of listenerData s) (\<lambda>(p, ctx).
          case ctx of
            StreamContext _ _ \<Rightarrow> ret ec [] (set_context p None (core_remove R LISTENER_TYPE_STREAMS p s))
          | _ \<Rightarrow> Inl WrongType)
      else
        (case eventData of
           Some (EvStream str) \<Rightarrow> ret ec [OStreamRelease str, OFree (EvStream str)] s
         | None \<Rightarrow> Inl NullPointer
         | _ \<Rightarrow> Inl WrongType))"

definition nabto_device_coap_listener_callback ::
    "('r, nat) nn_llist \<Rightarrow> np_error_code \<Rightarrow> api_event option \<Rightarrow> listener_data \<Rightarrow> ('l, 'r, np_error_code) api_call" where
  "nabto_device_coap_listener_callback R ec eventData listenerData s =
     (if ec = NABTO_EC_OK then
        obind (context_of listenerData s) (\<lambda>(p, ctx).
          case (ctx, eventData) of
            (CoapResource l user, Some (EvCoap req ref)) \<Rightarrow>
              (case user of
                 Some a \<Rightarrow> ret NABTO_EC_OK [ODeliver [a] (EvCoap req ref)] (set_context p (Some (CoapResource l None)) s)
               | None \<Rightarrow> ret NABTO_EC_UNKNOWN [OCoapError req 5 3, OFree (EvCoap req ref)] s)
          | (CoapResource _ _, None) \<Rightarrow> Inl NullPointer
          | _ \<Rightarrow> Inl WrongType)
      else if ec = NABTO_EC_ABORTED then
        obind (context_of listenerData s) (\<lambda>(p, ctx).
          case ctx of
            CoapResource _ _ \<Rightarrow> ret ec [] (set_context p None (core_remove R LISTENER_TYPE_COAP p s))
          | _ \<Rightarrow> Inl WrongType)
      else
        (case eventData of
           Some (EvCoap req ref) \<Rightarrow> ret ec [OCoapError req 5 3, OFree (EvCoap req ref)] s
         | None \<Rightarrow> Inl NullPointer
         | _ \<Rightarrow> Inl WrongType))"

definition nabto_device_authorization_listener_callback ::
    "np_error_code \<Rightarrow> api_event option \<Rightarrow> listener_data \<Rightarrow> ('l, 'r, np_error_code) api_call" where
  "nabto_device_authorization_listener_callback ec eventData listenerData s =
     (if ec = NABTO_EC_OK then
        (case (listenerData, eventData) of
           (DataAuthorization, Some (EvAuthorization r)) \<Rightarrow>
             obind (deref (api_authorization_request s)) (\<lambda>a. ret NABTO_EC_OK [ODeliver [a] (EvAuthorization r)] s)
         | (DataAuthorization, None) \<Rightarrow>
             obind (deref (api_authorization_request s)) (\<lambda>a. ret NABTO_EC_OK [OStoreNull a] s)
         | _ \<Rightarrow> Inl WrongType)
      else ret NABTO_EC_OK [] s)"

definition nabto_device_password_authentication_listener_resolve_event ::
    "np_error_code \<Rightarrow> api_event option \<Rightarrow> listener_data \<Rightarrow> ('l, 'r, np_error_code) api_call" where
  "nabto_device_password_authentication_listener_resolve_event ec eventData listenerData s =
     (if ec = NABTO_EC_ABORTED then
        (case listenerData of
           DataListener l \<Rightarrow>
             (case api_listener s l of
                None \<Rightarrow> Inl UseAfterFree
              | Some _ \<Rightarrow> ret NABTO_EC_OK [] (s\<lparr>api_passwordRequestHandler := None\<rparr>))
         | DataNull \<Rightarrow> Inl NullPointer
         | _ \<Rightarrow> Inl WrongType)
      else ret NABTO_EC_OK [] s)"

text \<open>The call through the function pointer.\<close>

definition listener_call ::
    "('r, nat) nn_llist \<Rightarrow> nabto_device_listener_type \<Rightarrow> np_error_code \<Rightarrow> api_event option \<Rightarrow> listener_data
       \<Rightarrow> ('l, 'r, np_error_code) api_call" where
  "listener_call R t =
     (case t of
        LISTENER_TYPE_NONE \<Rightarrow> (\<lambda>_ _ _ _. Inl NullPointer)
      | LISTENER_TYPE_CONNECTION_EVENTS \<Rightarrow> nabto_device_connection_events_listener_cb R
      | LISTENER_TYPE_DEVICE_EVENTS \<Rightarrow> nabto_device_events_listener_cb R
      | LISTENER_TYPE_STREAMS \<Rightarrow> nabto_device_stream_listener_callback R
      | LISTENER_TYPE_COAP \<Rightarrow> nabto_device_coap_listener_callback R
      | LISTENER_TYPE_AUTHORIZATION \<Rightarrow> nabto_device_authorization_listener_callback
      | LISTENER_TYPE_PASSWORD_REQUESTS \<Rightarrow> nabto_device_password_authentication_listener_resolve_event)"

section \<open>Listeners\<close>

text \<open>Memory from \<^verbatim>\<open>calloc\<close>: no event list yet, and no type.\<close>

definition nabto_device_listener_zero :: "('l, api_event) nn_llist \<Rightarrow> 'l nabto_device_listener" where
  "nabto_device_listener_zero L =
     \<lparr>lst_eventsList = ll_init L, lst_cb = None, lst_listenerData = DataNull, lst_genericFutureResolverData = None,
      lst_fut = None, lst_ec = NABTO_EC_OK, lst_type = LISTENER_TYPE_NONE, lst_isInitialized = False\<rparr>"

definition nabto_device_listener_new ::
    "('l, api_event) nn_llist \<Rightarrow> ('r, nat) nn_llist \<Rightarrow> bool \<Rightarrow> nat \<Rightarrow> ('l, 'r) api_act" where
  "nabto_device_listener_new L R mem l s =
     (if \<not> mem then Inl NullPointer
      else emit [] (s\<lparr>api_listener := (api_listener s)(l \<mapsto> nabto_device_listener_zero L),
                      api_listeners := ll_append R (api_listeners s) l\<rparr>))"

definition nabto_device_listener_init ::
    "('l, api_event) nn_llist \<Rightarrow> nat \<Rightarrow> nabto_device_listener_type \<Rightarrow> listener_data \<Rightarrow> ('l, 'r, np_error_code) api_call" where
  "nabto_device_listener_init L l t listenerData =
     with_listener l (\<lambda>_ s. ret NABTO_EC_OK [] (upd_listener l (\<lambda>x. x\<lparr>lst_cb := Some t, lst_listenerData := listenerData,
       lst_eventsList := ll_init L, lst_ec := NABTO_EC_OK, lst_type := t, lst_isInitialized := True\<rparr>) s))"

definition nabto_device_listener_try_resolve ::
    "('l, api_event) nn_llist \<Rightarrow> ('r, nat) nn_llist \<Rightarrow> nat \<Rightarrow> ('l, 'r, unit) api_call" where
  "nabto_device_listener_try_resolve L R l =
     with_listener l (\<lambda>x.
       case (lst_fut x, ll_items L (lst_eventsList x)) of
         (Some fut, item # _) \<Rightarrow>
           (\<lambda>s. callThen (ret () (case lst_genericFutureResolverData x of None \<Rightarrow> [] | Some a \<Rightarrow> [ODeliver [a] item]))
             (\<lambda>_. callThen
               (case lst_cb x of
                  None \<Rightarrow> ret NABTO_EC_UNKNOWN []
                | Some t \<Rightarrow> listener_call R t NABTO_EC_OK (Some item) (lst_listenerData x))
               (\<lambda>ec s. ret () [OFutureResolve fut ec] (upd_listener l (\<lambda>x. x\<lparr>lst_fut := None\<rparr>) s)))
             (upd_listener l (\<lambda>x. x\<lparr>lst_eventsList := ll_erase L (lst_eventsList x) 0\<rparr>) s))
       | _ \<Rightarrow> ret () [])"

text \<open>The loop of \<^verbatim>\<open>nabto_device_listener_resolve_error_state\<close>; it runs once for each queued event.\<close>

fun discard_events ::
    "('l, api_event) nn_llist \<Rightarrow> ('r, nat) nn_llist \<Rightarrow> nat \<Rightarrow> np_error_code \<Rightarrow> nat \<Rightarrow> ('l, 'r, unit) api_call" where
  "discard_events L R l ec 0 s = ret () [] s"
| "discard_events L R l ec (Suc n) s =
     with_listener l (\<lambda>x.
       case ll_items L (lst_eventsList x) of
         [] \<Rightarrow> ret () []
       | item # _ \<Rightarrow>
           (\<lambda>s. callThen
             (case lst_cb x of
                None \<Rightarrow> ret NABTO_EC_OK []
              | Some t \<Rightarrow> listener_call R t ec (Some item) (lst_listenerData x))
             (\<lambda>_. discard_events L R l ec n)
             (upd_listener l (\<lambda>x. x\<lparr>lst_eventsList := ll_erase L (lst_eventsList x) 0\<rparr>) s))) s"

definition nabto_device_listener_resolve_error_state ::
    "('l, api_event) nn_llist \<Rightarrow> ('r, nat) nn_llist \<Rightarrow> nat \<Rightarrow> ('l, 'r, unit) api_call" where
  "nabto_device_listener_resolve_error_state L R l =
     with_listener l (\<lambda>x. callThen
       (discard_events L R l (if lst_ec x = NABTO_EC_ABORTED then NABTO_EC_STOPPED else lst_ec x)
          (length (ll_items L (lst_eventsList x))))
       (\<lambda>_. callThen
         (case lst_fut x of
            None \<Rightarrow> ret () []
          | Some fut \<Rightarrow> (\<lambda>s. ret () [OFutureResolve fut (lst_ec x)] (upd_listener l (\<lambda>x. x\<lparr>lst_fut := None\<rparr>) s)))
         (\<lambda>_. callThen
           (case lst_cb x of
              None \<Rightarrow> ret NABTO_EC_OK []
            | Some t \<Rightarrow> listener_call R t NABTO_EC_ABORTED None (lst_listenerData x))
           (\<lambda>_ s. ret () [] (upd_listener l (\<lambda>x. x\<lparr>lst_cb := None\<rparr>) s)))))"

definition nabto_device_listener_set_error_code ::
    "('l, api_event) nn_llist \<Rightarrow> ('r, nat) nn_llist \<Rightarrow> nat \<Rightarrow> np_error_code \<Rightarrow> ('l, 'r, unit) api_call" where
  "nabto_device_listener_set_error_code L R l ec =
     with_listener l (\<lambda>x.
       if \<not> lst_isInitialized x then ret () []
       else (\<lambda>s. nabto_device_listener_resolve_error_state L R l (upd_listener l (\<lambda>x. x\<lparr>lst_ec := ec\<rparr>) s)))"

definition nabto_device_listener_add_event ::
    "('l, api_event) nn_llist \<Rightarrow> ('r, nat) nn_llist \<Rightarrow> nat \<Rightarrow> api_event \<Rightarrow> ('l, 'r, np_error_code) api_call" where
  "nabto_device_listener_add_event L R l ev =
     with_listener l (\<lambda>x.
       if \<not> lst_isInitialized x then ret NABTO_EC_INVALID_STATE []
       else if lst_ec x \<noteq> NABTO_EC_OK then ret (lst_ec x) []
       else (\<lambda>s. callThen (nabto_device_listener_try_resolve L R l) (\<lambda>_. ret NABTO_EC_OK [])
              (upd_listener l (\<lambda>x. x\<lparr>lst_eventsList := ll_append L (lst_eventsList x) ev\<rparr>) s)))"

definition nabto_device_listener_free :: "('r, nat) nn_llist \<Rightarrow> nat \<Rightarrow> ('l, 'r) api_act" where
  "nabto_device_listener_free R l =
     call_act (with_listener l (\<lambda>_ s. ret () [] (s\<lparr>api_listeners := ll_erase_node R (api_listeners s) l,
       api_listener := (api_listener s)(l := None)\<rparr>)))"

definition nabto_device_listener_get_listener_data :: "'l nabto_device_listener \<Rightarrow> listener_data" where
  "nabto_device_listener_get_listener_data x = (if \<not> lst_isInitialized x then DataNull else lst_listenerData x)"

definition nabto_device_listener_init_future :: "nat \<Rightarrow> nat \<Rightarrow> ('l, 'r, np_error_code) api_call" where
  "nabto_device_listener_init_future l future =
     with_listener l (\<lambda>x.
       if \<not> lst_isInitialized x then ret NABTO_EC_INVALID_STATE []
       else if lst_ec x \<noteq> NABTO_EC_OK then ret (lst_ec x) []
       else if lst_fut x \<noteq> None then ret NABTO_EC_OPERATION_IN_PROGRESS []
       else (\<lambda>s. ret NABTO_EC_OK [] (upd_listener l (\<lambda>x. x\<lparr>lst_fut := Some future\<rparr>) s)))"

definition nabto_device_listener_stop_internal ::
    "('l, api_event) nn_llist \<Rightarrow> ('r, nat) nn_llist \<Rightarrow> nat \<Rightarrow> ('l, 'r, np_error_code) api_call" where
  "nabto_device_listener_stop_internal L R l =
     with_listener l (\<lambda>x.
       if \<not> lst_isInitialized x then ret NABTO_EC_INVALID_STATE []
       else if lst_ec x = NABTO_EC_OK then
         callThen (nabto_device_listener_set_error_code L R l NABTO_EC_STOPPED) (\<lambda>_. ret NABTO_EC_STOPPED [])
       else ret (lst_ec x) [])"

definition nabto_device_listener_stop ::
    "('l, api_event) nn_llist \<Rightarrow> ('r, nat) nn_llist \<Rightarrow> nat \<Rightarrow> ('l, 'r, np_error_code) api_call" where
  "nabto_device_listener_stop = nabto_device_listener_stop_internal"

definition nabto_device_listener_stop_all ::
    "('l, api_event) nn_llist \<Rightarrow> ('r, nat) nn_llist \<Rightarrow> ('l, 'r) api_act" where
  "nabto_device_listener_stop_all L R s =
     run_acts (\<lambda>l. call_act (nabto_device_listener_stop_internal L R l)) (ll_items R (api_listeners s)) s"

section \<open>The modules: initialisation of a listener\<close>

text \<open>A context is new memory, at a number that was not used before; \<open>mem\<close> says whether there is memory.\<close>

definition new_context :: "listener_context \<Rightarrow> ('l, 'r, nat) api_call" where
  "new_context c s =
     (let p = api_next s in ret p [] (s\<lparr>api_context := (api_context s)(p \<mapsto> c), api_next := Suc p\<rparr>))"

definition nabto_device_device_events_init_listener ::
    "('l, api_event) nn_llist \<Rightarrow> ('r, nat) nn_llist \<Rightarrow> bool \<Rightarrow> nat \<Rightarrow> ('l, 'r, np_error_code) api_call" where
  "nabto_device_device_events_init_listener L R mem l =
     (if \<not> mem then ret NABTO_EC_OUT_OF_MEMORY []
      else callThen (new_context (DeviceContext l None)) (\<lambda>p.
        callThen (nabto_device_listener_init L l LISTENER_TYPE_DEVICE_EVENTS (DataContext p)) (\<lambda>ec s.
          if ec \<noteq> NABTO_EC_OK then ret ec [] (set_context p None s)
          else ret NABTO_EC_OK [] (core_add R LISTENER_TYPE_DEVICE_EVENTS p s))))"

definition nabto_device_connection_events_init_listener ::
    "('l, api_event) nn_llist \<Rightarrow> ('r, nat) nn_llist \<Rightarrow> bool \<Rightarrow> nat \<Rightarrow> ('l, 'r, np_error_code) api_call" where
  "nabto_device_connection_events_init_listener L R mem l =
     (if \<not> mem then ret NABTO_EC_OUT_OF_MEMORY []
      else callThen (new_context (ConnectionContext l None None)) (\<lambda>p.
        callThen (nabto_device_listener_init L l LISTENER_TYPE_CONNECTION_EVENTS (DataContext p)) (\<lambda>ec s.
          if ec \<noteq> NABTO_EC_OK then ret ec [] (set_context p None s)
          else ret NABTO_EC_OK [] (core_add R LISTENER_TYPE_CONNECTION_EVENTS p s))))"

text \<open>
  \<open>added\<close> is the answer of the stream manager, or of the CoAP server. The two paths of a stream listener that fail return
  while they hold the mutex.
\<close>

definition nabto_device_stream_init_listener ::
    "('l, api_event) nn_llist \<Rightarrow> ('r, nat) nn_llist \<Rightarrow> bool \<Rightarrow> np_error_code \<Rightarrow> nat \<Rightarrow> ('l, 'r, np_error_code) api_call" where
  "nabto_device_stream_init_listener L R mem added l =
     (if \<not> mem then ret NABTO_EC_OUT_OF_MEMORY []
      else callThen (new_context (StreamContext l None)) (\<lambda>p.
        callThen (nabto_device_listener_init L l LISTENER_TYPE_STREAMS (DataContext p)) (\<lambda>ec s.
          if ec \<noteq> NABTO_EC_OK then ret ec [] (set_context p None s\<lparr>api_eventMutex := True\<rparr>)
          else if added \<noteq> NABTO_EC_OK then ret added [] (set_context p None s\<lparr>api_eventMutex := True\<rparr>)
          else ret NABTO_EC_OK [] (core_add R LISTENER_TYPE_STREAMS p s))))"

text \<open>With the type zero the stream manager chooses one, \<open>port\<close>, which is returned.\<close>

definition nabto_device_stream_init_listener_ephemeral ::
    "('l, api_event) nn_llist \<Rightarrow> ('r, nat) nn_llist \<Rightarrow> bool \<Rightarrow> np_error_code \<Rightarrow> u32 \<Rightarrow> nat
       \<Rightarrow> ('l, 'r, np_error_code \<times> u32 option) api_call" where
  "nabto_device_stream_init_listener_ephemeral L R mem added port l =
     callThen (nabto_device_stream_init_listener L R mem added l) (\<lambda>ec.
       ret (ec, if ec = NABTO_EC_OK then Some port else None) [])"

definition nabto_device_coap_init_listener ::
    "('l, api_event) nn_llist \<Rightarrow> ('r, nat) nn_llist \<Rightarrow> bool \<Rightarrow> np_error_code \<Rightarrow> nat \<Rightarrow> ('l, 'r, np_error_code) api_call" where
  "nabto_device_coap_init_listener L R mem added l =
     (if \<not> mem then ret NABTO_EC_OUT_OF_MEMORY []
      else callThen (new_context (CoapResource l None)) (\<lambda>p.
        callThen (nabto_device_listener_init L l LISTENER_TYPE_COAP (DataContext p)) (\<lambda>ec s.
          if ec \<noteq> NABTO_EC_OK then ret ec [] (set_context p None s)
          else if added \<noteq> NABTO_EC_OK then ret added [] (set_context p None s)
          else ret NABTO_EC_OK [] (core_add R LISTENER_TYPE_COAP p s))))"

definition nabto_device_authorization_request_init_listener ::
    "('l, api_event) nn_llist \<Rightarrow> nat \<Rightarrow> ('l, 'r, np_error_code) api_call" where
  "nabto_device_authorization_request_init_listener L l s =
     (if api_authorization_listener s \<noteq> None then ret NABTO_EC_IN_USE [] s
      else callThen (nabto_device_listener_init L l LISTENER_TYPE_AUTHORIZATION DataAuthorization) (\<lambda>ec s.
        ret ec [] (if ec = NABTO_EC_OK then s\<lparr>api_authorization_listener := Some l\<rparr> else s)) s)"

definition nabto_device_password_authentication_request_init_listener ::
    "('l, api_event) nn_llist \<Rightarrow> nat \<Rightarrow> ('l, 'r, np_error_code) api_call" where
  "nabto_device_password_authentication_request_init_listener L l s =
     (if api_passwordRequestHandler s \<noteq> None then ret NABTO_EC_IN_USE [] s
      else callThen (nabto_device_listener_init L l LISTENER_TYPE_PASSWORD_REQUESTS (DataListener l)) (\<lambda>ec s.
        ret ec [] (if ec = NABTO_EC_OK then s\<lparr>api_passwordRequestHandler := Some l\<rparr> else s)) s)"

section \<open>The modules: waiting for an event\<close>

text \<open>
  The functions for the six types differ in the type they ask for and in where they store the addresses of the
  variables for the event, \<open>prepare\<close>.
\<close>

definition listener_wait ::
    "('l, api_event) nn_llist \<Rightarrow> ('r, nat) nn_llist \<Rightarrow> nabto_device_listener_type
       \<Rightarrow> ('l nabto_device_listener \<Rightarrow> ('l, 'r, unit) api_call) \<Rightarrow> nat \<Rightarrow> nat \<Rightarrow> ('l, 'r, unit) api_call" where
  "listener_wait L R t prepare l fut =
     with_listener l (\<lambda>x. callThen (ret () [OFutureReset fut]) (\<lambda>_.
       if lst_type x \<noteq> t then ret () [OFutureResolve fut NABTO_EC_INVALID_ARGUMENT]
       else if lst_ec x \<noteq> NABTO_EC_OK then ret () [OFutureResolve fut (lst_ec x)]
       else callThen (nabto_device_listener_init_future l fut) (\<lambda>ec.
         if ec \<noteq> NABTO_EC_OK then ret () [OFutureResolve fut ec]
         else callThen (prepare x) (\<lambda>_. nabto_device_listener_try_resolve L R l))))"

definition nabto_device_listener_device_event ::
    "('l, api_event) nn_llist \<Rightarrow> ('r, nat) nn_llist \<Rightarrow> nat \<Rightarrow> nat \<Rightarrow> nat \<Rightarrow> ('l, 'r, unit) api_call" where
  "nabto_device_listener_device_event L R l fut event =
     listener_wait L R LISTENER_TYPE_DEVICE_EVENTS (\<lambda>x s.
       obind (context_of (nabto_device_listener_get_listener_data x) s) (\<lambda>(p, ctx).
         case ctx of
           DeviceContext l' _ \<Rightarrow> ret () [] (set_context p (Some (DeviceContext l' (Some event))) s)
         | _ \<Rightarrow> Inl WrongType)) l fut"

definition nabto_device_listener_connection_event ::
    "('l, api_event) nn_llist \<Rightarrow> ('r, nat) nn_llist \<Rightarrow> nat \<Rightarrow> nat \<Rightarrow> nat \<Rightarrow> nat \<Rightarrow> ('l, 'r, unit) api_call" where
  "nabto_device_listener_connection_event L R l fut ref event =
     listener_wait L R LISTENER_TYPE_CONNECTION_EVENTS (\<lambda>x s.
       obind (context_of (nabto_device_listener_get_listener_data x) s) (\<lambda>(p, ctx).
         case ctx of
           ConnectionContext l' _ _ \<Rightarrow> ret () [] (set_context p (Some (ConnectionContext l' (Some ref) (Some event))) s)
         | _ \<Rightarrow> Inl WrongType)) l fut"

definition nabto_device_listener_new_stream ::
    "('l, api_event) nn_llist \<Rightarrow> ('r, nat) nn_llist \<Rightarrow> nat \<Rightarrow> nat \<Rightarrow> nat \<Rightarrow> ('l, 'r, unit) api_call" where
  "nabto_device_listener_new_stream L R l fut stream =
     listener_wait L R LISTENER_TYPE_STREAMS (\<lambda>x s.
       obind (context_of (nabto_device_listener_get_listener_data x) s) (\<lambda>(p, ctx).
         case ctx of
           StreamContext l' _ \<Rightarrow> ret () [OStoreNull stream] (set_context p (Some (StreamContext l' (Some stream))) s)
         | _ \<Rightarrow> Inl WrongType)) l fut"

definition nabto_device_listener_new_coap_request ::
    "('l, api_event) nn_llist \<Rightarrow> ('r, nat) nn_llist \<Rightarrow> nat \<Rightarrow> nat \<Rightarrow> nat \<Rightarrow> ('l, 'r, unit) api_call" where
  "nabto_device_listener_new_coap_request L R l fut request =
     listener_wait L R LISTENER_TYPE_COAP (\<lambda>x s.
       obind (context_of (nabto_device_listener_get_listener_data x) s) (\<lambda>(p, ctx).
         case ctx of
           CoapResource l' _ \<Rightarrow> ret () [OStoreNull request] (set_context p (Some (CoapResource l' (Some request))) s)
         | _ \<Rightarrow> Inl WrongType)) l fut"

definition nabto_device_listener_new_authorization_request ::
    "('l, api_event) nn_llist \<Rightarrow> ('r, nat) nn_llist \<Rightarrow> nat \<Rightarrow> nat \<Rightarrow> nat \<Rightarrow> ('l, 'r, unit) api_call" where
  "nabto_device_listener_new_authorization_request L R l fut request =
     listener_wait L R LISTENER_TYPE_AUTHORIZATION
       (\<lambda>_ s. ret () [OStoreNull request] (s\<lparr>api_authorization_request := Some request\<rparr>)) l fut"

definition nabto_device_listener_new_password_authentication_request ::
    "('l, api_event) nn_llist \<Rightarrow> ('r, nat) nn_llist \<Rightarrow> nat \<Rightarrow> nat \<Rightarrow> nat \<Rightarrow> ('l, 'r, unit) api_call" where
  "nabto_device_listener_new_password_authentication_request L R l fut request =
     listener_wait L R LISTENER_TYPE_PASSWORD_REQUESTS
       (\<lambda>_ s. ret () [OStoreNull request] (upd_listener l (\<lambda>x. x\<lparr>lst_genericFutureResolverData := Some request\<rparr>) s)) l fut"

section \<open>The modules: events from the core\<close>

definition nabto_device_events_core_cb ::
    "('l, api_event) nn_llist \<Rightarrow> ('r, nat) nn_llist \<Rightarrow> bool \<Rightarrow> nc_device_event \<Rightarrow> nat \<Rightarrow> ('l, 'r, unit) api_call" where
  "nabto_device_events_core_cb L R mem event p s =
     obind (context_of (DataContext p) s) (\<lambda>(_, ctx).
       case ctx of
         DeviceContext l _ \<Rightarrow>
           (if \<not> mem then nabto_device_listener_set_error_code L R l NABTO_EC_OUT_OF_MEMORY s
            else callThen (nabto_device_listener_add_event L R l (EvDevice event)) (\<lambda>ec.
              ret () (if ec \<noteq> NABTO_EC_OK then [OFree (EvDevice event)] else [])) s)
       | _ \<Rightarrow> Inl WrongType)"

definition nabto_device_connection_events_core_cb ::
    "('l, api_event) nn_llist \<Rightarrow> ('r, nat) nn_llist \<Rightarrow> bool \<Rightarrow> u64 \<Rightarrow> nc_connection_event \<Rightarrow> nat \<Rightarrow> ('l, 'r, unit) api_call" where
  "nabto_device_connection_events_core_cb L R mem cref event p s =
     obind (context_of (DataContext p) s) (\<lambda>(_, ctx).
       case ctx of
         ConnectionContext l _ _ \<Rightarrow>
           (if \<not> mem then nabto_device_listener_set_error_code L R l NABTO_EC_OUT_OF_MEMORY s
            else callThen (nabto_device_listener_add_event L R l (EvConnection cref event)) (\<lambda>ec.
              ret () (if ec \<noteq> NABTO_EC_OK then [OFree (EvConnection cref event)] else [])) s)
       | _ \<Rightarrow> Inl WrongType)"

text \<open>
  Both notifications take the next listener before they call the current one, which may remove itself. \<open>mem p\<close> says
  whether there is memory for the event of the listener with context \<open>p\<close>.
\<close>

definition nc_device_events_listener_notify ::
    "('l, api_event) nn_llist \<Rightarrow> ('r, nat) nn_llist \<Rightarrow> (nat \<Rightarrow> bool) \<Rightarrow> nc_attach_context \<Rightarrow> nc_device_event \<Rightarrow> ('l, 'r) api_act" where
  "nc_device_events_listener_notify L R mem attacher event =
     andThen (emit (if event = NC_DEVICE_EVENT_ATTACHED \<and> stunPort attacher \<noteq> 0 then [ONcStunSetHost (stunHost attacher) (stunPort attacher)] else []))
       (\<lambda>s. run_acts (\<lambda>p. call_act (nabto_device_events_core_cb L R (mem p) event p))
         (ll_items R (api_core s LISTENER_TYPE_DEVICE_EVENTS)) s)"

definition nc_device_connection_events_listener_notify ::
    "('l, api_event) nn_llist \<Rightarrow> ('r, nat) nn_llist \<Rightarrow> (nat \<Rightarrow> bool) \<Rightarrow> u64 \<Rightarrow> nc_connection_event \<Rightarrow> ('l, 'r) api_act" where
  "nc_device_connection_events_listener_notify L R mem cref event s =
     run_acts (\<lambda>p. call_act (nabto_device_connection_events_core_cb L R (mem p) cref event p))
       (ll_items R (api_core s LISTENER_TYPE_CONNECTION_EVENTS)) s"

definition nabto_device_stream_core_callback ::
    "('l, api_event) nn_llist \<Rightarrow> ('r, nat) nn_llist \<Rightarrow> bool \<Rightarrow> np_error_code \<Rightarrow> nat \<Rightarrow> nat \<Rightarrow> ('l, 'r, unit) api_call" where
  "nabto_device_stream_core_callback L R mem ec stream p s =
     obind (context_of (DataContext p) s) (\<lambda>(_, ctx).
       case ctx of
         StreamContext l _ \<Rightarrow>
           (if ec = NABTO_EC_OK then
              (if \<not> mem then Inl NullPointer
               else callThen (nabto_device_listener_add_event L R l (EvStream stream)) (\<lambda>ec.
                 ret () (if ec \<noteq> NABTO_EC_OK then [OStreamRelease stream, OFree (EvStream stream)] else [])) s)
            else nabto_device_listener_set_error_code L R l ec s)
       | _ \<Rightarrow> Inl WrongType)"

definition nabto_device_coap_resource_handler ::
    "('l, api_event) nn_llist \<Rightarrow> ('r, nat) nn_llist \<Rightarrow> bool \<Rightarrow> nat \<Rightarrow> u64 option \<Rightarrow> nat \<Rightarrow> ('l, 'r, unit) api_call" where
  "nabto_device_coap_resource_handler L R mem request connection p s =
     obind (context_of (DataContext p) s) (\<lambda>(_, ctx).
       case ctx of
         CoapResource l _ \<Rightarrow>
           (if \<not> mem then ret () [OCoapError request 5 0, OCoapRequestFree request] s
            else let ev = EvCoap request (case connection of Some ref \<Rightarrow> ref | None \<Rightarrow> 0) in
              callThen (nabto_device_listener_add_event L R l ev) (\<lambda>ec.
                ret () (if ec \<noteq> NABTO_EC_OK then [OCoapError request 5 0, OCoapRequestFree request, OFree ev] else [])) s)
       | _ \<Rightarrow> Inl WrongType)"

definition password_request_handler ::
    "('l, api_event) nn_llist \<Rightarrow> ('r, nat) nn_llist \<Rightarrow> bool \<Rightarrow> nat \<Rightarrow> nat \<Rightarrow> ('l, 'r, np_error_code) api_call" where
  "password_request_handler L R mem req l =
     (if \<not> mem then ret NABTO_EC_OUT_OF_MEMORY []
      else nabto_device_listener_add_event L R l (EvPassword req))"

text \<open>The part of \<^verbatim>\<open>check_access\<close> that hands a request to the listener; the answer says whether it took it.\<close>

definition authorization_add_request ::
    "('l, api_event) nn_llist \<Rightarrow> ('r, nat) nn_llist \<Rightarrow> nat \<Rightarrow> ('l, 'r, bool) api_call" where
  "authorization_add_request L R r s =
     (case api_authorization_listener s of
        Some l \<Rightarrow> callThen (nabto_device_listener_add_event L R l (EvAuthorization r)) (\<lambda>ec. ret (ec = NABTO_EC_OK) []) s
      | None \<Rightarrow> ret False [] s)"

section \<open>Specification\<close>

text \<open>The type of an event, and of the context of a module.\<close>

fun event_type :: "api_event \<Rightarrow> nabto_device_listener_type" where
  "event_type (EvDevice _) = LISTENER_TYPE_DEVICE_EVENTS"
| "event_type (EvConnection _ _) = LISTENER_TYPE_CONNECTION_EVENTS"
| "event_type (EvStream _) = LISTENER_TYPE_STREAMS"
| "event_type (EvCoap _ _) = LISTENER_TYPE_COAP"
| "event_type (EvAuthorization _) = LISTENER_TYPE_AUTHORIZATION"
| "event_type (EvPassword _) = LISTENER_TYPE_PASSWORD_REQUESTS"

fun context_shape :: "listener_context \<Rightarrow> nabto_device_listener_type \<times> nat" where
  "context_shape (DeviceContext l _) = (LISTENER_TYPE_DEVICE_EVENTS, l)"
| "context_shape (ConnectionContext l _ _) = (LISTENER_TYPE_CONNECTION_EVENTS, l)"
| "context_shape (StreamContext l _) = (LISTENER_TYPE_STREAMS, l)"
| "context_shape (CoapResource l _) = (LISTENER_TYPE_COAP, l)"

text \<open>The variables for the next event are known; the context once they have been written.\<close>

fun context_ready :: "listener_context \<Rightarrow> bool" where
  "context_ready (DeviceContext _ u) \<longleftrightarrow> u \<noteq> None"
| "context_ready (ConnectionContext _ u v) \<longleftrightarrow> u \<noteq> None \<and> v \<noteq> None"
| "context_ready (StreamContext _ u) \<longleftrightarrow> u \<noteq> None"
| "context_ready (CoapResource _ u) \<longleftrightarrow> u \<noteq> None"

fun context_done :: "listener_context \<Rightarrow> listener_context" where
  "context_done (DeviceContext l _) = DeviceContext l None"
| "context_done (ConnectionContext l _ _) = ConnectionContext l None None"
| "context_done (StreamContext l _) = StreamContext l None"
| "context_done (CoapResource l _) = CoapResource l None"

definition uses_context :: "nabto_device_listener_type \<Rightarrow> bool" where
  "uses_context t \<longleftrightarrow> t \<in> {LISTENER_TYPE_DEVICE_EVENTS, LISTENER_TYPE_CONNECTION_EVENTS, LISTENER_TYPE_STREAMS, LISTENER_TYPE_COAP}"

definition shape_at :: "('l, 'r) api_state \<Rightarrow> nat \<Rightarrow> (nabto_device_listener_type \<times> nat) option" where
  "shape_at s p = map_option context_shape (api_context s p)"

text \<open>The data of listener \<open>l\<close> is what the module of type \<open>t\<close> takes it for.\<close>

definition data_ok :: "('l, 'r) api_state \<Rightarrow> nat \<Rightarrow> nabto_device_listener_type \<Rightarrow> listener_data \<Rightarrow> bool" where
  "data_ok s l t data =
     (case data of
        DataNull \<Rightarrow> False
      | DataContext p \<Rightarrow> shape_at s p = Some (t, l)
      | DataAuthorization \<Rightarrow> t = LISTENER_TYPE_AUTHORIZATION
      | DataListener k \<Rightarrow> t = LISTENER_TYPE_PASSWORD_REQUESTS \<and> k = l \<and> api_listener s l \<noteq> None)"

definition data_ready :: "('l, 'r) api_state \<Rightarrow> nat option \<Rightarrow> listener_data \<Rightarrow> bool" where
  "data_ready s generic data =
     (case data of
        DataNull \<Rightarrow> False
      | DataContext p \<Rightarrow> (\<exists>c. api_context s p = Some c \<and> context_ready c)
      | DataAuthorization \<Rightarrow> api_authorization_request s \<noteq> None
      | DataListener _ \<Rightarrow> generic \<noteq> None)"

text \<open>The effect of a delivered event on the data of the module, and of the last call to it.\<close>

definition data_taken :: "listener_data \<Rightarrow> ('l, 'r) api_state \<Rightarrow> ('l, 'r) api_state" where
  "data_taken data s =
     (case data of DataContext p \<Rightarrow> set_context p (map_option context_done (api_context s p)) s | _ \<Rightarrow> s)"

definition data_released ::
    "('r, nat) nn_llist \<Rightarrow> nabto_device_listener_type \<Rightarrow> listener_data \<Rightarrow> ('l, 'r) api_state \<Rightarrow> ('l, 'r) api_state" where
  "data_released R t data s =
     (case data of
        DataContext p \<Rightarrow> set_context p None (core_remove R t p s)
      | DataListener _ \<Rightarrow> s\<lparr>api_passwordRequestHandler := None\<rparr>
      | _ \<Rightarrow> s)"

text \<open>What an application sees: an event that is delivered, and a future that is resolved.\<close>

datatype queue_output = QDeliver api_event | QResolve nat np_error_code

fun visible :: "api_output list \<Rightarrow> queue_output list" where
  "visible [] = []"
| "visible (ODeliver as e # out) = QDeliver e # visible out"
| "visible (OFutureResolve f ec # out) = QResolve f ec # visible out"
| "visible (_ # out) = visible out"

text \<open>A well-typed listener: before it is initialised, while it is active, and after it has been stopped.\<close>

definition listener_ok :: "('l, api_event) nn_llist \<Rightarrow> ('l, 'r) api_state \<Rightarrow> nat \<Rightarrow> 'l nabto_device_listener \<Rightarrow> bool" where
  "listener_ok L s l x \<longleftrightarrow>
     (lst_type x \<noteq> LISTENER_TYPE_PASSWORD_REQUESTS \<longrightarrow> lst_genericFutureResolverData x = None) \<and>
     (if \<not> lst_isInitialized x then
        lst_type x = LISTENER_TYPE_NONE \<and> ll_items L (lst_eventsList x) = [] \<and> lst_fut x = None \<and> lst_cb x = None
      else lst_type x \<noteq> LISTENER_TYPE_NONE \<and>
        (case lst_cb x of
           None \<Rightarrow> lst_ec x \<noteq> NABTO_EC_OK \<and> ll_items L (lst_eventsList x) = [] \<and> lst_fut x = None
         | Some t \<Rightarrow> lst_ec x = NABTO_EC_OK \<and> lst_type x = t \<and> data_ok s l t (lst_listenerData x) \<and>
             list_all (\<lambda>e. event_type e = t) (ll_items L (lst_eventsList x)) \<and>
             (lst_fut x \<noteq> None \<longrightarrow> data_ready s (lst_genericFutureResolverData x) (lst_listenerData x))))"

text \<open>The core calls exactly the listeners whose context is allocated.\<close>

definition core_ok :: "('r, nat) nn_llist \<Rightarrow> ('l, 'r) api_state \<Rightarrow> bool" where
  "core_ok R s \<longleftrightarrow> (\<forall>t. distinct (ll_items R (api_core s t)) \<and>
     set (ll_items R (api_core s t)) = {p. \<exists>l. shape_at s p = Some (t, l)})"

text \<open>A context belongs to an active listener, so that none is lost.\<close>

definition owner_ok :: "('l, 'r) api_state \<Rightarrow> bool" where
  "owner_ok s \<longleftrightarrow> (\<forall>p t l. shape_at s p = Some (t, l) \<longrightarrow>
     (\<exists>x. api_listener s l = Some x \<and> lst_isInitialized x \<and> lst_cb x = Some t \<and> lst_listenerData x = DataContext p))"

definition single_ok :: "('l, 'r) api_state \<Rightarrow> bool" where
  "single_ok s \<longleftrightarrow>
     (\<forall>l. api_authorization_listener s = Some l \<longrightarrow>
        (\<exists>x. api_listener s l = Some x \<and> lst_isInitialized x \<and> lst_type x = LISTENER_TYPE_AUTHORIZATION)) \<and>
     (\<forall>l. api_passwordRequestHandler s = Some l \<longrightarrow>
        (\<exists>x. api_listener s l = Some x \<and> lst_isInitialized x \<and> lst_cb x = Some LISTENER_TYPE_PASSWORD_REQUESTS))"

definition memory_ok :: "('r, nat) nn_llist \<Rightarrow> ('l, 'r) api_state \<Rightarrow> bool" where
  "memory_ok R s \<longleftrightarrow> (\<forall>p \<ge> api_next s. api_context s p = None) \<and> \<not> api_eventMutex s \<and>
     distinct (ll_items R (api_listeners s)) \<and> set (ll_items R (api_listeners s)) = dom (api_listener s)"

definition api_ok :: "('l, api_event) nn_llist \<Rightarrow> ('r, nat) nn_llist \<Rightarrow> ('l, 'r) api_state \<Rightarrow> bool" where
  "api_ok L R s \<longleftrightarrow> (\<forall>l x. api_listener s l = Some x \<longrightarrow> listener_ok L s l x) \<and>
     core_ok R s \<and> owner_ok s \<and> single_ok s \<and> memory_ok R s"

text \<open>A step on an active listener that keeps its module and its data: the rest of the state is unaffected.\<close>

definition same_listener :: "'l nabto_device_listener \<Rightarrow> 'l nabto_device_listener \<Rightarrow> bool" where
  "same_listener x y \<longleftrightarrow> lst_cb y = lst_cb x \<and> lst_listenerData y = lst_listenerData x \<and> lst_type y = lst_type x \<and>
     lst_isInitialized y = lst_isInitialized x"

definition same_shape :: "('l, 'r) api_state \<Rightarrow> ('l, 'r) api_state \<Rightarrow> nat \<Rightarrow> bool" where
  "same_shape s s' l \<longleftrightarrow> (\<forall>k. k \<noteq> l \<longrightarrow> api_listener s' k = api_listener s k) \<and>
     shape_at s' = shape_at s \<and> (\<forall>p t k. shape_at s p = Some (t, k) \<longrightarrow> k \<noteq> l \<longrightarrow> api_context s' p = api_context s p) \<and>
     api_core s' = api_core s \<and> api_listeners s' = api_listeners s \<and> api_next s' = api_next s \<and>
     api_authorization_listener s' = api_authorization_listener s \<and>
     (api_authorization_request s \<noteq> None \<longrightarrow> api_authorization_request s' \<noteq> None) \<and>
     api_passwordRequestHandler s' = api_passwordRequestHandler s \<and> api_eventMutex s' = api_eventMutex s"

text \<open>A stopped listener: its module has released its data.\<close>

definition stopped_listener :: "('l, api_event) nn_llist \<Rightarrow> 'l nabto_device_listener \<Rightarrow> bool" where
  "stopped_listener L y \<longleftrightarrow> lst_isInitialized y \<and> lst_type y \<noteq> LISTENER_TYPE_NONE \<and> lst_cb y = None \<and> lst_ec y \<noteq> NABTO_EC_OK \<and>
     (lst_type y \<noteq> LISTENER_TYPE_PASSWORD_REQUESTS \<longrightarrow> lst_genericFutureResolverData y = None) \<and>
     ll_items L (lst_eventsList y) = [] \<and> lst_fut y = None"

text \<open>
  The steps of the device and of its application. Of the paths that run out of memory or of resources, the labels carry
  the answer.
\<close>

datatype api_label =
    ListenerNew bool nat
  | ListenerFree nat
  | ListenerStop nat
  | ListenerStopAll
  | ListenerInit nabto_device_listener_type bool np_error_code nat
  | ListenerWait nabto_device_listener_type nat nat nat nat
  | CoreDeviceEvent "nat \<Rightarrow> bool" nc_attach_context nc_device_event
  | CoreConnectionEvent "nat \<Rightarrow> bool" u64 nc_connection_event
  | CoreStream bool np_error_code nat nat
  | CoreCoapRequest bool nat "u64 option" nat
  | CorePasswordRequest bool nat
  | CoreAuthorizationRequest nat

fun init_listener ::
    "('l, api_event) nn_llist \<Rightarrow> ('r, nat) nn_llist \<Rightarrow> nabto_device_listener_type \<Rightarrow> bool \<Rightarrow> np_error_code \<Rightarrow> nat
       \<Rightarrow> ('l, 'r, np_error_code) api_call" where
  "init_listener L R LISTENER_TYPE_NONE mem added l = ret NABTO_EC_OK []"
| "init_listener L R LISTENER_TYPE_DEVICE_EVENTS mem added l = nabto_device_device_events_init_listener L R mem l"
| "init_listener L R LISTENER_TYPE_CONNECTION_EVENTS mem added l = nabto_device_connection_events_init_listener L R mem l"
| "init_listener L R LISTENER_TYPE_STREAMS mem added l = nabto_device_stream_init_listener L R mem added l"
| "init_listener L R LISTENER_TYPE_COAP mem added l = nabto_device_coap_init_listener L R mem added l"
| "init_listener L R LISTENER_TYPE_AUTHORIZATION mem added l = nabto_device_authorization_request_init_listener L l"
| "init_listener L R LISTENER_TYPE_PASSWORD_REQUESTS mem added l = nabto_device_password_authentication_request_init_listener L l"

fun wait_listener ::
    "('l, api_event) nn_llist \<Rightarrow> ('r, nat) nn_llist \<Rightarrow> nabto_device_listener_type \<Rightarrow> nat \<Rightarrow> nat \<Rightarrow> nat \<Rightarrow> nat
       \<Rightarrow> ('l, 'r, unit) api_call" where
  "wait_listener L R LISTENER_TYPE_NONE l fut a b = ret () []"
| "wait_listener L R LISTENER_TYPE_DEVICE_EVENTS l fut a b = nabto_device_listener_device_event L R l fut a"
| "wait_listener L R LISTENER_TYPE_CONNECTION_EVENTS l fut a b = nabto_device_listener_connection_event L R l fut a b"
| "wait_listener L R LISTENER_TYPE_STREAMS l fut a b = nabto_device_listener_new_stream L R l fut a"
| "wait_listener L R LISTENER_TYPE_COAP l fut a b = nabto_device_listener_new_coap_request L R l fut a"
| "wait_listener L R LISTENER_TYPE_AUTHORIZATION l fut a b = nabto_device_listener_new_authorization_request L R l fut a"
| "wait_listener L R LISTENER_TYPE_PASSWORD_REQUESTS l fut a b = nabto_device_listener_new_password_authentication_request L R l fut a"

fun api_step :: "('l, api_event) nn_llist \<Rightarrow> ('r, nat) nn_llist \<Rightarrow> api_label \<Rightarrow> ('l, 'r) api_act" where
  "api_step L R (ListenerNew mem l) s = nabto_device_listener_new L R mem l s"
| "api_step L R (ListenerFree l) s = nabto_device_listener_free R l s"
| "api_step L R (ListenerStop l) s = call_act (nabto_device_listener_stop L R l) s"
| "api_step L R ListenerStopAll s = nabto_device_listener_stop_all L R s"
| "api_step L R (ListenerInit t mem added l) s = call_act (init_listener L R t mem added l) s"
| "api_step L R (ListenerWait t l fut a b) s = call_act (wait_listener L R t l fut a b) s"
| "api_step L R (CoreDeviceEvent mem att e) s = nc_device_events_listener_notify L R mem att e s"
| "api_step L R (CoreConnectionEvent mem ref e) s = nc_device_connection_events_listener_notify L R mem ref e s"
| "api_step L R (CoreStream mem ec stream p) s = call_act (nabto_device_stream_core_callback L R mem ec stream p) s"
| "api_step L R (CoreCoapRequest mem req conn p) s = call_act (nabto_device_coap_resource_handler L R mem req conn p) s"
| "api_step L R (CorePasswordRequest mem req) s =
     (case api_passwordRequestHandler s of
        None \<Rightarrow> emit [] s
      | Some l \<Rightarrow> call_act (password_request_handler L R mem req l) s)"
| "api_step L R (CoreAuthorizationRequest r) s = call_act (authorization_add_request L R r) s"

text \<open>
  The application keeps to the documentation: it initialises a listener once, and frees it when it has been
  stopped. The authorization listener cannot be freed, since the core keeps a pointer to it. The core calls the
  streams and resources it knows of. There is memory for a listener and for a stream, and the stream manager and
  the CoAP server take a new listener.
\<close>

fun api_allowed :: "('r, nat) nn_llist \<Rightarrow> ('l, 'r) api_state \<Rightarrow> api_label \<Rightarrow> bool" where
  "api_allowed R s (ListenerNew mem l) \<longleftrightarrow> mem \<and> api_listener s l = None"
| "api_allowed R s (ListenerFree l) \<longleftrightarrow>
     (case api_listener s l of None \<Rightarrow> False
      | Some x \<Rightarrow> \<not> lst_isInitialized x \<or> lst_ec x \<noteq> NABTO_EC_OK \<and> lst_type x \<noteq> LISTENER_TYPE_AUTHORIZATION)"
| "api_allowed R s (ListenerStop l) \<longleftrightarrow> api_listener s l \<noteq> None"
| "api_allowed R s (ListenerInit t mem added l) \<longleftrightarrow> added = NABTO_EC_OK \<and>
     (case api_listener s l of None \<Rightarrow> False | Some x \<Rightarrow> \<not> lst_isInitialized x)"
| "api_allowed R s (ListenerWait t l fut a b) \<longleftrightarrow> api_listener s l \<noteq> None"
| "api_allowed R s (CoreStream mem ec stream p) \<longleftrightarrow>
     p \<in> set (ll_items R (api_core s LISTENER_TYPE_STREAMS)) \<and> (ec = NABTO_EC_OK \<longrightarrow> mem)"
| "api_allowed R s (CoreCoapRequest mem req conn p) \<longleftrightarrow> p \<in> set (ll_items R (api_core s LISTENER_TYPE_COAP))"
| "api_allowed R s _ \<longleftrightarrow> True"

definition api_init :: "('r, nat) nn_llist \<Rightarrow> ('l, 'r) api_state" where
  "api_init R =
     \<lparr>api_listener = (\<lambda>_. None), api_listeners = ll_init R, api_context = (\<lambda>_. None), api_next = 0,
      api_core = (\<lambda>_. ll_init R), api_authorization_listener = None, api_authorization_request = None,
      api_passwordRequestHandler = None, api_eventMutex = False\<rparr>"

inductive api_reachable :: "('l, api_event) nn_llist \<Rightarrow> ('r, nat) nn_llist \<Rightarrow> ('l, 'r) api_state \<Rightarrow> bool"
  for L R where
  start: "api_reachable L R (api_init R)"
| step: "api_reachable L R s \<Longrightarrow> api_allowed R s lab \<Longrightarrow> api_step L R lab s = Inr (s', out) \<Longrightarrow> api_reachable L R s'"

definition init_with :: "('l, api_event) nn_llist \<Rightarrow> nabto_device_listener_type \<Rightarrow> listener_data \<Rightarrow> 'l nabto_device_listener \<Rightarrow> 'l nabto_device_listener" where
  "init_with L t data x = x\<lparr>lst_cb := Some t, lst_listenerData := data, lst_eventsList := ll_init L, lst_ec := NABTO_EC_OK,
     lst_type := t, lst_isInitialized := True\<rparr>"

text \<open>
  A listener on which a future begins to wait: \<open>y\<close> is \<open>x\<close> with the future, and the variables for the event are known.
\<close>

definition prepared :: "('l, api_event) nn_llist \<Rightarrow> ('r, nat) nn_llist \<Rightarrow> nat \<Rightarrow> nat \<Rightarrow> 'l nabto_device_listener
    \<Rightarrow> (unit \<times> ('l, 'r) api_state \<times> api_output list) outcome \<Rightarrow> bool" where
  "prepared L R l fut x res \<longleftrightarrow> (\<exists>s' out y. res = Inr ((), s', out) \<and> visible out = [] \<and> api_ok L R s' \<and> api_listener s' l = Some y \<and>
     lst_fut y = Some fut \<and> lst_eventsList y = lst_eventsList x \<and> same_listener x y \<and> lst_ec y = lst_ec x \<and>
     (lst_type x \<noteq> LISTENER_TYPE_PASSWORD_REQUESTS \<longrightarrow> lst_genericFutureResolverData y = lst_genericFutureResolverData x))"

text \<open>The step of each of the six functions that stores the variables for the event.\<close>

definition wait_prepare :: "nabto_device_listener_type \<Rightarrow> nat \<Rightarrow> nat \<Rightarrow> nat \<Rightarrow> 'l nabto_device_listener \<Rightarrow> ('l, 'r, unit) api_call" where
  "wait_prepare t l a b = (case t of
     LISTENER_TYPE_NONE \<Rightarrow> (\<lambda>x s. ret () [] s)
   | LISTENER_TYPE_DEVICE_EVENTS \<Rightarrow> (\<lambda>x s. obind (context_of (nabto_device_listener_get_listener_data x) s) (\<lambda>(p, ctx). case ctx of
       DeviceContext l' _ \<Rightarrow> ret () [] (set_context p (Some (DeviceContext l' (Some a))) s) | _ \<Rightarrow> Inl WrongType))
   | LISTENER_TYPE_CONNECTION_EVENTS \<Rightarrow> (\<lambda>x s. obind (context_of (nabto_device_listener_get_listener_data x) s) (\<lambda>(p, ctx). case ctx of
       ConnectionContext l' _ _ \<Rightarrow> ret () [] (set_context p (Some (ConnectionContext l' (Some a) (Some b))) s) | _ \<Rightarrow> Inl WrongType))
   | LISTENER_TYPE_STREAMS \<Rightarrow> (\<lambda>x s. obind (context_of (nabto_device_listener_get_listener_data x) s) (\<lambda>(p, ctx). case ctx of
       StreamContext l' _ \<Rightarrow> ret () [OStoreNull a] (set_context p (Some (StreamContext l' (Some a))) s) | _ \<Rightarrow> Inl WrongType))
   | LISTENER_TYPE_COAP \<Rightarrow> (\<lambda>x s. obind (context_of (nabto_device_listener_get_listener_data x) s) (\<lambda>(p, ctx). case ctx of
       CoapResource l' _ \<Rightarrow> ret () [OStoreNull a] (set_context p (Some (CoapResource l' (Some a))) s) | _ \<Rightarrow> Inl WrongType))
   | LISTENER_TYPE_AUTHORIZATION \<Rightarrow> (\<lambda>x s. ret () [OStoreNull a] (s\<lparr>api_authorization_request := Some a\<rparr>))
   | LISTENER_TYPE_PASSWORD_REQUESTS \<Rightarrow> (\<lambda>x s. ret () [OStoreNull a] (upd_listener l (\<lambda>x. x\<lparr>lst_genericFutureResolverData := Some a\<rparr>) s)))"

text \<open>What a call of the core for the context \<open>p\<close> keeps: the other contexts.\<close>

definition core_call_ok :: "('l, api_event) nn_llist \<Rightarrow> ('r, nat) nn_llist \<Rightarrow> ('l, 'r) api_state \<Rightarrow> nat
    \<Rightarrow> (unit \<times> ('l, 'r) api_state \<times> api_output list) outcome \<Rightarrow> bool" where
  "core_call_ok L R s p res \<longleftrightarrow> (\<exists>s' out. res = Inr ((), s', out) \<and> api_ok L R s' \<and> (\<forall>q. q \<noteq> p \<longrightarrow> shape_at s' q = shape_at s q))"

text \<open>The states of a program with one stream listener.\<close>

definition fault_of :: "'a outcome \<Rightarrow> fault option" where
  "fault_of r = (case r of Inl e \<Rightarrow> Some e | Inr _ \<Rightarrow> None)"

definition demo_program :: "api_label list" where
  "demo_program = [ListenerNew True 7, ListenerInit LISTENER_TYPE_STREAMS True NABTO_EC_OK 7, CoreStream True NABTO_EC_OK 3 0]"

fun api_allowed_run :: "('l, api_event) nn_llist \<Rightarrow> ('r, nat) nn_llist \<Rightarrow> api_label list \<Rightarrow> ('l, 'r) api_state \<Rightarrow> bool" where
  "api_allowed_run L R [] s = True"
| "api_allowed_run L R (lab # labs) s \<longleftrightarrow> api_allowed R s lab \<and>
     (case api_step L R lab s of Inl _ \<Rightarrow> False | Inr (s', _) \<Rightarrow> api_allowed_run L R labs s')"

text \<open>
  What a listener promises its application: a queue. An event goes to the future that waits, or else to the end of the
  queue; a wait takes the first event, or stays; a second wait is refused; a stop drops the events and ends the wait.
\<close>

record listener_queue =
  lq_events :: "api_event list"
  lq_waiting :: "nat option"
  lq_stopped :: bool

datatype queue_label = QAdd api_event | QWait nat nat nat | QStop

definition queue_take :: "listener_queue \<Rightarrow> listener_queue \<times> queue_output list" where
  "queue_take q =
     (case (lq_waiting q, lq_events q) of
        (Some f, e # es) \<Rightarrow> (q\<lparr>lq_events := es, lq_waiting := None\<rparr>, [QDeliver e, QResolve f NABTO_EC_OK])
      | _ \<Rightarrow> (q, []))"

fun queue_spec :: "queue_label \<Rightarrow> listener_queue \<Rightarrow> listener_queue \<times> queue_output list" where
  "queue_spec (QAdd e) q = (if lq_stopped q then (q, []) else queue_take (q\<lparr>lq_events := lq_events q @ [e]\<rparr>))"
| "queue_spec (QWait f a b) q =
     (if lq_stopped q then (q, [QResolve f NABTO_EC_STOPPED])
      else if lq_waiting q \<noteq> None then (q, [QResolve f NABTO_EC_OPERATION_IN_PROGRESS])
      else queue_take (q\<lparr>lq_waiting := Some f\<rparr>))"
| "queue_spec QStop q =
     (if lq_stopped q then (q, [])
      else (\<lparr>lq_events = [], lq_waiting = None, lq_stopped = True\<rparr>,
            case lq_waiting q of None \<Rightarrow> [] | Some f \<Rightarrow> [QResolve f NABTO_EC_STOPPED]))"

definition show_visible :: "('l, 'r) api_act \<Rightarrow> (('l, 'r) api_state, queue_output) act" where
  "show_visible f s = obind (f s) (\<lambda>(s', out). Inr (s', visible out))"

fun queue_step ::
    "('l, api_event) nn_llist \<Rightarrow> ('r, nat) nn_llist \<Rightarrow> nat \<Rightarrow> nabto_device_listener_type \<Rightarrow> queue_label
       \<Rightarrow> (('l, 'r) api_state, queue_output) act" where
  "queue_step L R l t (QAdd e) s = show_visible (call_act (nabto_device_listener_add_event L R l e)) s"
| "queue_step L R l t (QWait f a b) s = show_visible (call_act (wait_listener L R t l f a b)) s"
| "queue_step L R l t QStop s = show_visible (call_act (nabto_device_listener_stop L R l)) s"

definition queue_abs :: "('l, api_event) nn_llist \<Rightarrow> nat \<Rightarrow> ('l, 'r) api_state \<Rightarrow> listener_queue" where
  "queue_abs L l s =
     (case api_listener s l of
        None \<Rightarrow> \<lparr>lq_events = [], lq_waiting = None, lq_stopped = True\<rparr>
      | Some x \<Rightarrow> \<lparr>lq_events = ll_items L (lst_eventsList x), lq_waiting = lst_fut x, lq_stopped = (lst_ec x \<noteq> NABTO_EC_OK)\<rparr>)"

definition queue_inv :: "('l, api_event) nn_llist \<Rightarrow> ('r, nat) nn_llist \<Rightarrow> nat \<Rightarrow> nabto_device_listener_type \<Rightarrow> ('l, 'r) api_state \<Rightarrow> bool" where
  "queue_inv L R l t s \<longleftrightarrow> api_ok L R s \<and> (\<exists>x. api_listener s l = Some x \<and> lst_isInitialized x \<and> lst_type x = t \<and>
     (lst_ec x = NABTO_EC_OK \<or> lst_ec x = NABTO_EC_STOPPED))"

fun queue_ok :: "nabto_device_listener_type \<Rightarrow> queue_label \<Rightarrow> bool" where
  "queue_ok t (QAdd e) \<longleftrightarrow> event_type e = t"
| "queue_ok t _ \<longleftrightarrow> True"

text \<open>
  What a listener promises its module and the module the listener: with data and an event of its type the function of
  the module does not fault; an event is delivered when a future waits for it; the error of a stopped listener
  changes nothing but the event; the last call releases the data.
\<close>

locale listener_module =
  fixes t :: nabto_device_listener_type
    and cb :: "('r, nat) nn_llist \<Rightarrow> np_error_code \<Rightarrow> api_event option \<Rightarrow> listener_data \<Rightarrow> ('l, 'r, np_error_code) api_call"
  assumes call: "listener_call R t = cb R"
    and delivers: "data_ok s l t data \<Longrightarrow> data_ready s g data \<Longrightarrow> event_type ev = t \<Longrightarrow>
      \<exists>out. cb R NABTO_EC_OK (Some ev) data s = Inr (NABTO_EC_OK, data_taken data s, out) \<and>
        visible out = (if t = LISTENER_TYPE_PASSWORD_REQUESTS then [] else [QDeliver ev])"
    and discards: "event_type ev = t \<Longrightarrow> ec \<noteq> NABTO_EC_OK \<Longrightarrow> ec \<noteq> NABTO_EC_ABORTED \<Longrightarrow>
      \<exists>ret out. cb R ec (Some ev) data s = Inr (ret, s, out) \<and> visible out = []"
    and releases: "data_ok s l t data \<Longrightarrow>
      \<exists>ret. cb R NABTO_EC_ABORTED None data s = Inr (ret, data_released R t data s, [])"

lemma context_cases:
  assumes "shape_at s p = Some (t, l)"
  obtains u where "t = LISTENER_TYPE_DEVICE_EVENTS" "api_context s p = Some (DeviceContext l u)"
  | u v where "t = LISTENER_TYPE_CONNECTION_EVENTS" "api_context s p = Some (ConnectionContext l u v)"
  | u where "t = LISTENER_TYPE_STREAMS" "api_context s p = Some (StreamContext l u)"
  | u where "t = LISTENER_TYPE_COAP" "api_context s p = Some (CoapResource l u)"
proof -
  from assms obtain c where c: "api_context s p = Some c" "context_shape c = (t, l)" by (auto simp: shape_at_def)
  then show ?thesis by (cases c) (auto intro: that)
qed

lemma data_cases:
  assumes "data_ok s l t data"
  obtains p where "data = DataContext p" "shape_at s p = Some (t, l)" "uses_context t"
  | "data = DataAuthorization" "t = LISTENER_TYPE_AUTHORIZATION"
  | "data = DataListener l" "t = LISTENER_TYPE_PASSWORD_REQUESTS" "api_listener s l \<noteq> None"
proof (cases data)
  case (DataContext p)
  with assms have s: "shape_at s p = Some (t, l)" by (simp add: data_ok_def)
  then have "uses_context t" by (cases rule: context_cases) (simp_all add: uses_context_def)
  with s DataContext that(1) show ?thesis by blast
qed (use assms that in \<open>auto simp: data_ok_def\<close>)

lemma event_of_type:
  "event_type ev = LISTENER_TYPE_DEVICE_EVENTS \<longleftrightarrow> (\<exists>e. ev = EvDevice e)"
  "event_type ev = LISTENER_TYPE_CONNECTION_EVENTS \<longleftrightarrow> (\<exists>r e. ev = EvConnection r e)"
  "event_type ev = LISTENER_TYPE_STREAMS \<longleftrightarrow> (\<exists>n. ev = EvStream n)"
  "event_type ev = LISTENER_TYPE_COAP \<longleftrightarrow> (\<exists>n r. ev = EvCoap n r)"
  "event_type ev = LISTENER_TYPE_AUTHORIZATION \<longleftrightarrow> (\<exists>n. ev = EvAuthorization n)"
  "event_type ev = LISTENER_TYPE_PASSWORD_REQUESTS \<longleftrightarrow> (\<exists>n. ev = EvPassword n)"
  by (cases ev; simp)+

lemmas module_simps = ret_def context_of_def data_taken_def data_released_def data_ready_def listener_call_def event_of_type free_event_def

interpretation device_events: listener_module LISTENER_TYPE_DEVICE_EVENTS nabto_device_events_listener_cb
  by unfold_locales (auto elim!: data_cases context_cases simp: nabto_device_events_listener_cb_def module_simps)

interpretation connection_events: listener_module LISTENER_TYPE_CONNECTION_EVENTS nabto_device_connection_events_listener_cb
  by unfold_locales (auto elim!: data_cases context_cases simp: nabto_device_connection_events_listener_cb_def module_simps)

interpretation streams: listener_module LISTENER_TYPE_STREAMS nabto_device_stream_listener_callback
  by unfold_locales (auto elim!: data_cases context_cases simp: nabto_device_stream_listener_callback_def module_simps)

interpretation coap_requests: listener_module LISTENER_TYPE_COAP nabto_device_coap_listener_callback
  by unfold_locales (auto elim!: data_cases context_cases simp: nabto_device_coap_listener_callback_def module_simps)

interpretation authorization_requests:
  listener_module LISTENER_TYPE_AUTHORIZATION "\<lambda>R. nabto_device_authorization_listener_callback"
  by unfold_locales (auto elim!: data_cases context_cases simp: nabto_device_authorization_listener_callback_def module_simps)

interpretation password_requests:
  listener_module LISTENER_TYPE_PASSWORD_REQUESTS "\<lambda>R. nabto_device_password_authentication_listener_resolve_event"
  by unfold_locales
    (auto elim!: data_cases context_cases simp: nabto_device_password_authentication_listener_resolve_event_def module_simps
      split: option.splits)

lemma listener_module_any:
  assumes "t \<noteq> LISTENER_TYPE_NONE"
  shows "listener_module t (\<lambda>R. listener_call R t)"
  using assms
  by (cases t) (simp_all add: listener_call_def device_events.listener_module_axioms connection_events.listener_module_axioms
    streams.listener_module_axioms coap_requests.listener_module_axioms authorization_requests.listener_module_axioms
    password_requests.listener_module_axioms)

lemma api_listener_upd [simp]: "api_listener (upd_listener l f s) k = (if k = l then map_option f (api_listener s l) else api_listener s k)"
  by (simp add: upd_listener_def)

lemma api_upd_frame [simp]:
  "api_context (upd_listener l f s) = api_context s" "api_core (upd_listener l f s) = api_core s"
  "api_listeners (upd_listener l f s) = api_listeners s" "api_next (upd_listener l f s) = api_next s"
  "api_authorization_listener (upd_listener l f s) = api_authorization_listener s"
  "api_authorization_request (upd_listener l f s) = api_authorization_request s"
  "api_passwordRequestHandler (upd_listener l f s) = api_passwordRequestHandler s"
  "api_eventMutex (upd_listener l f s) = api_eventMutex s"
  by (simp_all add: upd_listener_def)

lemma upd_listener_upd [simp]: "upd_listener l f (upd_listener l g s) = upd_listener l (\<lambda>x. f (g x)) s"
  by (simp add: upd_listener_def option.map_comp o_def)

lemma upd_listener_same: "api_listener s l = Some x \<Longrightarrow> f x = g x \<Longrightarrow> upd_listener l f s = upd_listener l g s"
  by (simp add: upd_listener_def)

lemma upd_listener_id: "api_listener s l = Some x \<Longrightarrow> f x = x \<Longrightarrow> upd_listener l f s = s"
  by (simp add: upd_listener_def fun_upd_idem)

lemma shape_at_upd [simp]: "shape_at (upd_listener l f s) = shape_at s"
  by (simp add: shape_at_def fun_eq_iff)

lemma data_ok_upd [simp]: "data_ok (upd_listener l f s) k t data = data_ok s k t data"
  by (auto simp: data_ok_def split: listener_data.splits)

lemma data_ready_upd [simp]: "data_ready (upd_listener l f s) g data = data_ready s g data"
  by (simp add: data_ready_def split: listener_data.splits)

lemma data_taken_upd [simp]: "data_taken data (upd_listener l f s) = upd_listener l f (data_taken data s)"
  by (simp add: data_taken_def upd_listener_def set_context_def split: listener_data.splits)

lemma data_released_upd [simp]: "data_released R t data (upd_listener l f s) = upd_listener l f (data_released R t data s)"
  by (simp add: data_released_def upd_listener_def set_context_def core_remove_def split: listener_data.splits)

lemma data_released_listener [simp]:
  "api_listener (data_released R t data s) = api_listener s" "api_listener (data_taken data s) = api_listener s"
  by (simp_all add: data_released_def data_taken_def set_context_def core_remove_def split: listener_data.splits)

lemma with_listener_Some [simp]: "api_listener s l = Some x \<Longrightarrow> with_listener l f s = f x s"
  by (simp add: with_listener_def)

lemma callThen_Inr [simp]:
  "f s = Inr (a, s1, o1) \<Longrightarrow> callThen f g s = obind (g a s1) (\<lambda>(b, s2, o2). Inr (b, s2, o1 @ o2))"
  by (simp add: callThen_def)

lemma callThen_ret [simp]: "callThen (ret a out) g s = obind (g a s) (\<lambda>(b, s2, o2). Inr (b, s2, out @ o2))"
  by (simp add: callThen_def ret_def)

lemma visible_append [simp]: "visible (xs @ ys) = visible xs @ visible ys"
  by (induction xs rule: visible.induct) simp_all

context listener_module

begin

lemma try_resolve_waiting:
  fixes s :: "('l, 'r) api_state"
  assumes L: "nn_llist_laws L" and x: "api_listener s l = Some x" "lst_cb x = Some t" "data_ok s l t (lst_listenerData x)"
    and fut: "lst_fut x = Some fut" "data_ready s (lst_genericFutureResolverData x) (lst_listenerData x)"
    and items: "ll_items L (lst_eventsList x) = ev # evs" "event_type ev = t"
  shows "\<exists>e' out. ll_items L e' = evs \<and> nabto_device_listener_try_resolve L R l s =
    Inr ((), upd_listener l (\<lambda>x. x\<lparr>lst_eventsList := e', lst_fut := None\<rparr>) (data_taken (lst_listenerData x) s), out) \<and>
    ((lst_genericFutureResolverData x \<noteq> None) = (t = LISTENER_TYPE_PASSWORD_REQUESTS) \<longrightarrow>
       visible out = [QDeliver ev, QResolve fut NABTO_EC_OK])"
proof -
  let ?e = "ll_erase L (lst_eventsList x) 0"
  let ?s = "upd_listener l (\<lambda>x. x\<lparr>lst_eventsList := ll_erase L (lst_eventsList x) 0\<rparr>) s"
  have "data_ok ?s l t (lst_listenerData x)" "data_ready ?s (lst_genericFutureResolverData x) (lst_listenerData x)"
    using x fut by simp_all
  from delivers [OF this items(2)] obtain out where
    "cb R NABTO_EC_OK (Some ev) (lst_listenerData x) ?s = Inr (NABTO_EC_OK, data_taken (lst_listenerData x) ?s, out)"
    "visible out = (if t = LISTENER_TYPE_PASSWORD_REQUESTS then [] else [QDeliver ev])" by blast
  moreover have "ll_items L ?e = evs" using L items by (simp add: ll_items_erase)
  ultimately show ?thesis
    using x fut items
    by (auto simp: nabto_device_listener_try_resolve_def call ret_def callThen_def
        intro!: exI [of _ ?e] upd_listener_same split: option.splits)
qed

lemma discard_events_all:
  fixes s :: "('l, 'r) api_state"
  assumes L: "nn_llist_laws L" and ec: "ec \<noteq> NABTO_EC_OK" "ec \<noteq> NABTO_EC_ABORTED"
  shows "api_listener s l = Some x \<Longrightarrow> lst_cb x = Some t \<Longrightarrow> list_all (\<lambda>e. event_type e = t) (ll_items L (lst_eventsList x)) \<Longrightarrow>
    n = length (ll_items L (lst_eventsList x)) \<Longrightarrow>
    \<exists>e' out. ll_items L e' = [] \<and>
      discard_events L R l ec n s = Inr ((), upd_listener l (\<lambda>x. x\<lparr>lst_eventsList := e'\<rparr>) s, out) \<and> visible out = []"
proof (induction n arbitrary: s x)
  case 0
  then show ?case by (auto simp: ret_def intro!: exI [of _ "lst_eventsList x"] upd_listener_id [symmetric])
next
  case (Suc n)
  from Suc.prems obtain ev evs where items: "ll_items L (lst_eventsList x) = ev # evs" "event_type ev = t"
    by (cases "ll_items L (lst_eventsList x)") auto
  let ?x = "x\<lparr>lst_eventsList := ll_erase L (lst_eventsList x) 0\<rparr>"
  let ?s = "upd_listener l (\<lambda>x. x\<lparr>lst_eventsList := ll_erase L (lst_eventsList x) 0\<rparr>) s"
  have evs: "ll_items L (ll_erase L (lst_eventsList x) 0) = evs" using L items by (simp add: ll_items_erase)
  from discards [OF items(2) ec] obtain ret out where
    cb: "cb R ec (Some ev) (lst_listenerData x) ?s = Inr (ret, ?s, out)" "visible out = []" by blast
  from Suc.IH [of ?s ?x] Suc.prems items evs obtain e' out' where
    "ll_items L e' = []" "discard_events L R l ec n ?s = Inr ((), upd_listener l (\<lambda>x. x\<lparr>lst_eventsList := e'\<rparr>) ?s, out')"
    "visible out' = []" by auto
  with cb items Suc.prems show ?case by (auto simp: call)
qed

lemma resolve_error_state_all:
  fixes s :: "('l, 'r) api_state"
  assumes L: "nn_llist_laws L" and x: "api_listener s l = Some x" "lst_cb x = Some t" "data_ok s l t (lst_listenerData x)"
    and ev: "list_all (\<lambda>e. event_type e = t) (ll_items L (lst_eventsList x))" and ec: "lst_ec x \<noteq> NABTO_EC_OK"
  shows "\<exists>e' out. ll_items L e' = [] \<and> nabto_device_listener_resolve_error_state L R l s =
    Inr ((), upd_listener l (\<lambda>x. x\<lparr>lst_eventsList := e', lst_fut := None, lst_cb := None\<rparr>)
       (data_released R t (lst_listenerData x) s), out) \<and>
    visible out = (case lst_fut x of None \<Rightarrow> [] | Some f \<Rightarrow> [QResolve f (lst_ec x)])"
proof -
  let ?ec = "if lst_ec x = NABTO_EC_ABORTED then NABTO_EC_STOPPED else lst_ec x"
  have "?ec \<noteq> NABTO_EC_OK" "?ec \<noteq> NABTO_EC_ABORTED" using ec by auto
  from discard_events_all [OF L this x(1,2) ev refl] obtain e' out where
    e': "ll_items L e' = []" and d: "discard_events L R l ?ec (length (ll_items L (lst_eventsList x))) s
      = Inr ((), upd_listener l (\<lambda>x. x\<lparr>lst_eventsList := e'\<rparr>) s, out)" "visible out = []" by blast
  let ?s = "upd_listener l (\<lambda>x. x\<lparr>lst_eventsList := e', lst_fut := None\<rparr>) s"
  have "data_ok ?s l t (lst_listenerData x)" using x by simp
  from releases [OF this] obtain r where
    c: "cb R NABTO_EC_ABORTED None (lst_listenerData x) ?s = Inr (r, data_released R t (lst_listenerData x) ?s, [])" by blast
  have same: "lst_fut x = None \<Longrightarrow> upd_listener l (\<lambda>x. x\<lparr>lst_eventsList := e'\<rparr>) s = ?s"
    using x by (auto intro!: upd_listener_same)
  show ?thesis
    using e' d c x same
    by (cases "lst_fut x") (auto simp: nabto_device_listener_resolve_error_state_def call ret_def callThen_def)
qed

end

lemma api_ok_listener: "api_ok L R s \<Longrightarrow> api_listener s l = Some x \<Longrightarrow> listener_ok L s l x"
  by (simp add: api_ok_def)

lemma listener_ok_active:
  assumes "listener_ok L s l x" "lst_isInitialized x" "lst_ec x = NABTO_EC_OK"
  shows "lst_cb x = Some (lst_type x) \<and> lst_type x \<noteq> LISTENER_TYPE_NONE \<and> data_ok s l (lst_type x) (lst_listenerData x) \<and>
    list_all (\<lambda>e. event_type e = lst_type x) (ll_items L (lst_eventsList x)) \<and>
    (lst_fut x \<noteq> None \<longrightarrow> data_ready s (lst_genericFutureResolverData x) (lst_listenerData x)) \<and>
    (lst_type x \<noteq> LISTENER_TYPE_PASSWORD_REQUESTS \<longrightarrow> lst_genericFutureResolverData x = None)"
  using assms by (auto simp: listener_ok_def split: option.splits)

lemma listener_ok_frame:
  assumes ok: "listener_ok L s l x" and l: "api_listener s l \<noteq> None" "api_listener s' l \<noteq> None"
    and ctx: "\<And>p t. shape_at s p = Some (t, l) \<Longrightarrow> api_context s' p = api_context s p"
    and auth: "api_authorization_request s \<noteq> None \<Longrightarrow> api_authorization_request s' \<noteq> None"
  shows "listener_ok L s' l x"
proof (cases "lst_isInitialized x \<and> lst_cb x \<noteq> None")
  case True
  then obtain t where t: "lst_isInitialized x" "lst_cb x = Some t" by auto
  with ok have d: "data_ok s l t (lst_listenerData x)" by (simp add: listener_ok_def)
  let ?g = "lst_genericFutureResolverData x"
  have "data_ok s' l t (lst_listenerData x) \<and> (data_ready s ?g (lst_listenerData x) \<longrightarrow> data_ready s' ?g (lst_listenerData x))"
    using d
  proof (cases rule: data_cases)
    case (1 p)
    with ctx [OF 1(2)] show ?thesis by (simp add: data_ok_def data_ready_def shape_at_def)
  qed (use l auth in \<open>simp_all add: data_ok_def data_ready_def\<close>)
  with ok t show ?thesis unfolding listener_ok_def by auto
next
  case False
  with ok show ?thesis by (auto simp: listener_ok_def split: option.splits)
qed

lemma core_ok_same: "core_ok R s \<Longrightarrow> same_shape s s' l \<Longrightarrow> core_ok R s'"
  by (simp add: core_ok_def same_shape_def)

lemma owner_ok_same:
  assumes ok: "owner_ok s" and x: "api_listener s l = Some x" and y: "api_listener s' l = Some y" "same_listener x y"
    and same: "same_shape s s' l"
  shows "owner_ok s'"
  unfolding owner_ok_def
proof (intro allI impI)
  fix p t k
  assume "shape_at s' p = Some (t, k)"
  then have "shape_at s p = Some (t, k)" using same by (simp add: same_shape_def)
  with ok obtain z where "api_listener s k = Some z" "lst_isInitialized z" "lst_cb z = Some t" "lst_listenerData z = DataContext p"
    unfolding owner_ok_def by blast
  then show "\<exists>x. api_listener s' k = Some x \<and> lst_isInitialized x \<and> lst_cb x = Some t \<and> lst_listenerData x = DataContext p"
    using x y same by (cases "k = l") (simp_all add: same_listener_def same_shape_def)
qed

lemma single_ok_same:
  assumes ok: "single_ok s" and x: "api_listener s l = Some x" and y: "api_listener s' l = Some y" "same_listener x y"
    and same: "same_shape s s' l"
  shows "single_ok s'"
proof -
  have keep: "\<exists>z'. api_listener s' k = Some z' \<and> lst_isInitialized z' \<and> lst_type z' = lst_type z \<and> lst_cb z' = lst_cb z"
    if "api_listener s k = Some z" "lst_isInitialized z" for k z
    using that x y same by (cases "k = l") (auto simp: same_listener_def same_shape_def)
  have "\<exists>z. api_listener s' k = Some z \<and> lst_isInitialized z \<and> lst_type z = t"
    if "\<exists>z. api_listener s k = Some z \<and> lst_isInitialized z \<and> lst_type z = t" for k t
    using keep [of k] that by auto
  moreover have "\<exists>z. api_listener s' k = Some z \<and> lst_isInitialized z \<and> lst_cb z = t"
    if "\<exists>z. api_listener s k = Some z \<and> lst_isInitialized z \<and> lst_cb z = t" for k t
    using keep [of k] that by auto
  moreover have "api_authorization_listener s' = api_authorization_listener s"
    "api_passwordRequestHandler s' = api_passwordRequestHandler s"
    using same by (simp_all add: same_shape_def)
  ultimately show ?thesis using ok unfolding single_ok_def by simp
qed

lemma memory_ok_same:
  assumes ok: "memory_ok R s" and x: "api_listener s l = Some x" and y: "api_listener s' l = Some y"
    and same: "same_shape s s' l"
  shows "memory_ok R s'"
proof -
  have none: "api_listener s' k = None \<longleftrightarrow> api_listener s k = None" for k
    using x y same by (cases "k = l") (simp_all add: same_shape_def)
  have dom: "dom (api_listener s') = dom (api_listener s)" by (simp add: set_eq_iff domIff none)
  have sh: "shape_at s' = shape_at s" using same by (simp add: same_shape_def)
  have "api_context s' p = None \<longleftrightarrow> api_context s p = None" for p
    using fun_cong [OF sh, of p] by (metis shape_at_def map_option_is_None)
  with ok same show ?thesis by (simp add: memory_ok_def same_shape_def dom none)
qed

lemma api_ok_same:
  assumes ok: "api_ok L R s" and x: "api_listener s l = Some x" and y: "api_listener s' l = Some y" "same_listener x y" "listener_ok L s' l y"
    and same: "same_shape s s' l"
  shows "api_ok L R s'"
proof -
  have "listener_ok L s' k z" if k: "api_listener s' k = Some z" for k z
  proof (cases "k = l")
    case True
    with k y show ?thesis by simp
  next
    case False
    with k same have k': "api_listener s k = Some z" by (simp add: same_shape_def)
    have "api_context s' p = api_context s p" if "shape_at s p = Some (t, k)" for p t
      using that False same unfolding same_shape_def by blast
    moreover have "api_authorization_request s \<noteq> None \<longrightarrow> api_authorization_request s' \<noteq> None"
      using same by (simp add: same_shape_def)
    ultimately show ?thesis
      using listener_ok_frame [OF api_ok_listener [OF ok k'], of s'] k k' by simp
  qed
  moreover have "core_ok R s" "owner_ok s" "single_ok s" "memory_ok R s" using ok by (simp_all add: api_ok_def)
  ultimately show ?thesis
    using core_ok_same [OF _ same] owner_ok_same [OF _ x y(1,2) same] single_ok_same [OF _ x y(1,2) same] memory_ok_same [OF _ x y(1) same]
    by (simp add: api_ok_def)
qed

lemma context_done_shape [simp]: "context_shape (context_done c) = context_shape c"
  by (cases c) simp_all

lemma shape_at_taken [simp]: "shape_at (data_taken data s) = shape_at s"
  by (auto simp: data_taken_def shape_at_def set_context_def fun_eq_iff option.map_comp o_def split: listener_data.splits)

lemma same_shape_upd: "same_shape s (upd_listener l f s) l"
  by (simp add: same_shape_def)

lemma same_shape_taken:
  assumes "data_ok s l t data"
  shows "same_shape s (upd_listener l f (data_taken data s)) l"
  using assms
proof (cases rule: data_cases)
  case (1 p)
  then have "api_context (data_taken data s) q = api_context s q" if "q \<noteq> p" for q
    using that by (simp add: data_taken_def set_context_def)
  with 1 have "api_context (data_taken data s) q = api_context s q" if "shape_at s q = Some (u, k)" "k \<noteq> l" for q u k
    using that by (cases "q = p") auto
  then show ?thesis using 1 by (simp add: same_shape_def) (simp add: data_taken_def set_context_def)
qed (simp_all add: same_shape_def data_taken_def)

lemma try_resolve_ok:
  assumes L: "nn_llist_laws L" and ok: "api_ok L R s" and x: "api_listener s l = Some x"
  shows "\<exists>s' out. nabto_device_listener_try_resolve L R l s = Inr ((), s', out) \<and> api_ok L R s' \<and> shape_at s' = shape_at s \<and>
    (case (lst_fut x, ll_items L (lst_eventsList x)) of
       (Some fut, ev # evs) \<Rightarrow> \<exists>e'. ll_items L e' = evs \<and> api_listener s' l = Some (x\<lparr>lst_eventsList := e', lst_fut := None\<rparr>) \<and>
         (lst_type x = LISTENER_TYPE_PASSWORD_REQUESTS \<or> lst_genericFutureResolverData x = None \<longrightarrow>
            visible out = [QDeliver ev, QResolve fut NABTO_EC_OK])
     | _ \<Rightarrow> s' = s \<and> out = [])"
proof (cases "lst_fut x = None \<or> ll_items L (lst_eventsList x) = []")
  case True
  with x ok show ?thesis
    by (auto simp: nabto_device_listener_try_resolve_def ret_def split: option.splits list.splits)
next
  case False
  then obtain fut ev evs where f: "lst_fut x = Some fut" and items: "ll_items L (lst_eventsList x) = ev # evs"
    by (cases "ll_items L (lst_eventsList x)") auto
  have xo: "listener_ok L s l x" by (rule api_ok_listener [OF ok x])
  with f have act: "lst_isInitialized x" "lst_ec x = NABTO_EC_OK" by (auto simp: listener_ok_def split: if_splits option.splits)
  note a = listener_ok_active [OF xo act]
  have m: "listener_module (lst_type x) (\<lambda>R. listener_call R (lst_type x))" using a by (intro listener_module_any) simp
  have "lst_cb x = Some (lst_type x)" "data_ok s l (lst_type x) (lst_listenerData x)"
    "data_ready s (lst_genericFutureResolverData x) (lst_listenerData x)" "event_type ev = lst_type x"
    using a f items by simp_all
  from listener_module.try_resolve_waiting [OF m L x this(1,2) f this(3) items this(4), of R]
  obtain e' out where e': "ll_items L e' = evs" and r: "nabto_device_listener_try_resolve L R l s =
    Inr ((), upd_listener l (\<lambda>x. x\<lparr>lst_eventsList := e', lst_fut := None\<rparr>) (data_taken (lst_listenerData x) s), out)"
    and vis: "(lst_genericFutureResolverData x \<noteq> None) = (lst_type x = LISTENER_TYPE_PASSWORD_REQUESTS) \<longrightarrow>
       visible out = [QDeliver ev, QResolve fut NABTO_EC_OK]" by auto
  have pw: "lst_type x = LISTENER_TYPE_PASSWORD_REQUESTS \<Longrightarrow> lst_genericFutureResolverData x \<noteq> None"
  proof -
    assume t: "lst_type x = LISTENER_TYPE_PASSWORD_REQUESTS"
    have "data_ok s l (lst_type x) (lst_listenerData x)" "data_ready s (lst_genericFutureResolverData x) (lst_listenerData x)"
      using a f by simp_all
    then show "lst_genericFutureResolverData x \<noteq> None"
      using t by (cases rule: data_cases) (auto simp: uses_context_def data_ready_def)
  qed
  let ?y = "x\<lparr>lst_eventsList := e', lst_fut := None\<rparr>"
  let ?s = "upd_listener l (\<lambda>x. x\<lparr>lst_eventsList := e', lst_fut := None\<rparr>) (data_taken (lst_listenerData x) s)"
  have "data_ok ?s l (lst_type x) (lst_listenerData x)"
    using a x by (auto simp: data_ok_def split: listener_data.splits)
  then have "listener_ok L ?s l ?y" using a act e' items by (simp add: listener_ok_def)
  then have "api_ok L R ?s"
    using a x by (intro api_ok_same [OF ok x]) (auto simp: same_listener_def intro: same_shape_taken)
  moreover have "shape_at ?s = shape_at s" by simp
  moreover have "api_listener ?s l = Some ?y" using x by simp
  ultimately show ?thesis using r e' f items vis pw by (auto simp del: api_listener_upd)
qed

lemma add_event_ok:
  assumes L: "nn_llist_laws L" and ok: "api_ok L R s" and x: "api_listener s l = Some x"
    and ty: "lst_isInitialized x \<Longrightarrow> event_type ev = lst_type x"
  shows "\<exists>ec s' out. nabto_device_listener_add_event L R l ev s = Inr (ec, s', out) \<and> api_ok L R s' \<and> shape_at s' = shape_at s"
proof (cases "lst_isInitialized x \<and> lst_ec x = NABTO_EC_OK")
  case False
  with x ok show ?thesis by (auto simp: nabto_device_listener_add_event_def ret_def)
next
  case True
  have xo: "listener_ok L s l x" by (rule api_ok_listener [OF ok x])
  let ?f = "\<lambda>x. x\<lparr>lst_eventsList := ll_append L (lst_eventsList x) ev\<rparr>"
  have a: "listener_ok L (upd_listener l ?f s) l (?f x)"
    using listener_ok_active [OF xo] True ty L by (simp add: listener_ok_def ll_items_append)
  have "api_ok L R (upd_listener l ?f s)"
    by (rule api_ok_same [OF ok x _ _ a same_shape_upd]) (simp_all add: x same_listener_def)
  from try_resolve_ok [OF L this, of l "?f x"] x True show ?thesis
    by (auto simp: nabto_device_listener_add_event_def ret_def)
qed

lemma released_frame [simp]:
  "api_listeners (data_released R t data s) = api_listeners s" "api_next (data_released R t data s) = api_next s"
  "api_authorization_listener (data_released R t data s) = api_authorization_listener s"
  "api_authorization_request (data_released R t data s) = api_authorization_request s"
  "api_eventMutex (data_released R t data s) = api_eventMutex s"
  by (simp_all add: data_released_def set_context_def core_remove_def split: listener_data.splits)

lemma released_context:
  "api_context (data_released R t data s) p = (if data = DataContext p then None else api_context s p)"
  by (simp add: data_released_def set_context_def core_remove_def split: listener_data.splits)

lemma released_shape:
  "shape_at (data_released R t data s) p = (if data = DataContext p then None else shape_at s p)"
  by (simp add: shape_at_def released_context)

lemma released_core:
  assumes "nn_llist_laws R" "distinct (ll_items R (api_core s k))"
  shows "ll_items R (api_core (data_released R t data s) k) =
    (case data of DataContext p \<Rightarrow> if k = t then remove1 p (ll_items R (api_core s k)) else ll_items R (api_core s k)
      | _ \<Rightarrow> ll_items R (api_core s k))"
  using assms by (auto simp: data_released_def set_context_def core_remove_def ll_items_erase_node split: listener_data.splits)

lemma core_ok_released:
  assumes R: "nn_llist_laws R" and ok: "core_ok R s" and d: "data_ok s l t data"
  shows "core_ok R (upd_listener l f (data_released R t data s))"
  unfolding core_ok_def
proof (intro allI)
  fix k
  have k: "distinct (ll_items R (api_core s k))" "set (ll_items R (api_core s k)) = {p. \<exists>l. shape_at s p = Some (k, l)}"
    using ok by (simp_all add: core_ok_def)
  have "DataContext p = data \<Longrightarrow> shape_at s p = Some (t, l)" for p using d by (auto simp: data_ok_def)
  then show "distinct (ll_items R (api_core (upd_listener l f (data_released R t data s)) k)) \<and>
    set (ll_items R (api_core (upd_listener l f (data_released R t data s)) k)) =
      {p. \<exists>j. shape_at (upd_listener l f (data_released R t data s)) p = Some (k, j)}"
    using k by (auto simp: released_core [OF R k(1)] released_shape split: listener_data.splits)
qed

lemma owner_ok_released:
  assumes ok: "owner_ok s" and x: "api_listener s l = Some x" "lst_cb x = Some t"
  shows "owner_ok (upd_listener l f (data_released R t (lst_listenerData x) s))"
  unfolding owner_ok_def
proof (intro allI impI)
  fix p k u
  assume "shape_at (upd_listener l f (data_released R t (lst_listenerData x) s)) p = Some (u, k)"
  then have p: "shape_at s p = Some (u, k)" "lst_listenerData x \<noteq> DataContext p"
    by (auto simp: released_shape split: if_splits)
  with ok obtain z where "api_listener s k = Some z" "lst_isInitialized z" "lst_cb z = Some u" "lst_listenerData z = DataContext p"
    unfolding owner_ok_def by blast
  with p x show "\<exists>z. api_listener (upd_listener l f (data_released R t (lst_listenerData x) s)) k = Some z \<and> lst_isInitialized z \<and>
      lst_cb z = Some u \<and> lst_listenerData z = DataContext p"
    by (cases "k = l") simp_all
qed

lemma single_ok_released:
  assumes ok: "single_ok s" and x: "api_listener s l = Some x" "lst_isInitialized x" "lst_cb x = Some t" "lst_type x = t"
    and d: "data_ok s l t (lst_listenerData x)" and f: "lst_isInitialized (f x)" "lst_type (f x) = t"
  shows "single_ok (upd_listener l f (data_released R t (lst_listenerData x) s))" (is "single_ok ?s")
  unfolding single_ok_def
proof (intro conjI allI impI)
  fix k
  assume "api_authorization_listener ?s = Some k"
  then have "api_authorization_listener s = Some k" by simp
  with ok obtain z where z: "api_listener s k = Some z" "lst_isInitialized z" "lst_type z = LISTENER_TYPE_AUTHORIZATION"
    unfolding single_ok_def by blast
  then show "\<exists>x. api_listener ?s k = Some x \<and> lst_isInitialized x \<and> lst_type x = LISTENER_TYPE_AUTHORIZATION"
    using x f by (cases "k = l") simp_all
next
  fix k
  assume k: "api_passwordRequestHandler ?s = Some k"
  then have k': "api_passwordRequestHandler s = Some k" and np: "\<nexists>j. lst_listenerData x = DataListener j"
    by (auto simp: data_released_def set_context_def core_remove_def split: listener_data.splits)
  with ok obtain z where z: "api_listener s k = Some z" "lst_isInitialized z" "lst_cb z = Some LISTENER_TYPE_PASSWORD_REQUESTS"
    unfolding single_ok_def by blast
  have "k \<noteq> l"
  proof
    assume "k = l"
    with z x have "t = LISTENER_TYPE_PASSWORD_REQUESTS" by simp
    with d np show False by (cases rule: data_cases) (auto simp: uses_context_def)
  qed
  with z show "\<exists>x. api_listener ?s k = Some x \<and> lst_isInitialized x \<and> lst_cb x = Some LISTENER_TYPE_PASSWORD_REQUESTS"
    by simp
qed

lemma memory_ok_released:
  assumes ok: "memory_ok R s" and x: "api_listener s l = Some x"
  shows "memory_ok R (upd_listener l f (data_released R t data s))"
proof -
  have "dom (api_listener (upd_listener l f (data_released R t data s))) = dom (api_listener s)" using x by (auto simp: dom_def)
  with ok show ?thesis by (simp add: memory_ok_def released_context)
qed

lemma api_ok_stopped:
  assumes R: "nn_llist_laws R" and ok: "api_ok L R s" and x: "api_listener s l = Some x" "lst_isInitialized x" "lst_ec x = NABTO_EC_OK"
    and f: "stopped_listener L (f x)" "lst_type (f x) = lst_type x"
  shows "api_ok L R (upd_listener l f (data_released R (lst_type x) (lst_listenerData x) s))" (is "api_ok L R ?s")
proof -
  note a = listener_ok_active [OF api_ok_listener [OF ok x(1)] x(2,3)]
  have "listener_ok L ?s k z" if k: "api_listener ?s k = Some z" for k z
  proof (cases "k = l")
    case True
    with k x f show ?thesis by (auto simp: listener_ok_def stopped_listener_def)
  next
    case False
    with k have k': "api_listener s k = Some z" by simp
    have "api_context ?s p = api_context s p" if "shape_at s p = Some (t, k)" for p t
      using that False a by (auto simp: released_context data_ok_def)
    then show ?thesis
      using listener_ok_frame [OF api_ok_listener [OF ok k'], of ?s] k k' by simp
  qed
  moreover have "core_ok R ?s" by (rule core_ok_released [OF R]) (use ok a in \<open>simp_all add: api_ok_def\<close>)
  moreover have "owner_ok ?s" by (rule owner_ok_released [OF _ x(1)]) (use ok a in \<open>simp_all add: api_ok_def\<close>)
  moreover have "single_ok ?s"
    by (rule single_ok_released [OF _ x(1,2)]) (use ok a f in \<open>simp_all add: api_ok_def stopped_listener_def\<close>)
  moreover have "memory_ok R ?s" by (rule memory_ok_released [OF _ x(1)]) (use ok in \<open>simp add: api_ok_def\<close>)
  ultimately show ?thesis unfolding api_ok_def by blast
qed

lemma set_error_code_ok:
  assumes L: "nn_llist_laws L" and R: "nn_llist_laws R" and ok: "api_ok L R s"
    and x: "api_listener s l = Some x" "lst_isInitialized x" "lst_ec x = NABTO_EC_OK" and ec: "ec \<noteq> NABTO_EC_OK"
  shows "\<exists>s' out. nabto_device_listener_set_error_code L R l ec s = Inr ((), s', out) \<and> api_ok L R s' \<and>
    (\<forall>q. lst_listenerData x \<noteq> DataContext q \<longrightarrow> shape_at s' q = shape_at s q) \<and> api_listeners s' = api_listeners s \<and>
    (\<exists>e'. ll_items L e' = [] \<and> api_listener s' l = Some (x\<lparr>lst_ec := ec, lst_eventsList := e', lst_fut := None, lst_cb := None\<rparr>)) \<and>
    visible out = (case lst_fut x of None \<Rightarrow> [] | Some f \<Rightarrow> [QResolve f ec])"
proof -
  note a = listener_ok_active [OF api_ok_listener [OF ok x(1)] x(2,3)]
  have m: "listener_module (lst_type x) (\<lambda>R. listener_call R (lst_type x))" using a by (intro listener_module_any) simp
  let ?s = "upd_listener l (\<lambda>x. x\<lparr>lst_ec := ec\<rparr>) s"
  from listener_module.resolve_error_state_all [OF m L, of ?s l "x\<lparr>lst_ec := ec\<rparr>" R] a x ec obtain e' out where
    e': "ll_items L e' = []" and r: "nabto_device_listener_resolve_error_state L R l ?s =
      Inr ((), upd_listener l (\<lambda>x. x\<lparr>lst_eventsList := e', lst_fut := None, lst_cb := None\<rparr>)
        (data_released R (lst_type x) (lst_listenerData x) ?s), out)"
    and vis: "visible out = (case lst_fut x of None \<Rightarrow> [] | Some f \<Rightarrow> [QResolve f ec])" by (auto cong: option.case_cong)
  have "api_ok L R (upd_listener l (\<lambda>x. x\<lparr>lst_ec := ec, lst_eventsList := e', lst_fut := None, lst_cb := None\<rparr>)
      (data_released R (lst_type x) (lst_listenerData x) s))"
    using a e' ec x by (intro api_ok_stopped [OF R ok x]) (simp_all add: stopped_listener_def)
  with r x vis e' show ?thesis by (auto simp: nabto_device_listener_set_error_code_def released_shape)
qed

lemma stop_internal_ok:
  assumes "nn_llist_laws L" "nn_llist_laws R" "api_ok L R s" "api_listener s l = Some x"
  shows "\<exists>ec s' out. nabto_device_listener_stop_internal L R l s = Inr (ec, s', out) \<and> api_ok L R s' \<and>
    api_listeners s' = api_listeners s"
proof (cases "lst_isInitialized x \<and> lst_ec x = NABTO_EC_OK")
  case True
  with set_error_code_ok [OF assms(1-4), of NABTO_EC_STOPPED] assms(4) show ?thesis
    by (auto simp: nabto_device_listener_stop_internal_def ret_def)
qed (use assms in \<open>auto simp: nabto_device_listener_stop_internal_def ret_def\<close>)

lemma api_ok_parts:
  assumes "api_ok L R s"
  shows "core_ok R s" "owner_ok s" "single_ok s" "memory_ok R s"
  using assms by (simp_all add: api_ok_def)

lemma listener_new_ok:
  assumes L: "nn_llist_laws L" and R: "nn_llist_laws R" and ok: "api_ok L R s" and new: "api_listener s l = None"
  shows "api_ok L R (s\<lparr>api_listener := (api_listener s)(l \<mapsto> nabto_device_listener_zero L), api_listeners := ll_append R (api_listeners s) l\<rparr>)"
    (is "api_ok L R ?s")
proof -
  note parts = api_ok_parts [OF ok]
  have sh: "shape_at ?s = shape_at s" by (simp add: shape_at_def fun_eq_iff)
  have "listener_ok L ?s k z" if "api_listener ?s k = Some z" for k z
  proof (cases "k = l")
    case True
    with that L show ?thesis by (auto simp: listener_ok_def nabto_device_listener_zero_def ll_items_init)
  next
    case False
    with that have k: "api_listener s k = Some z" by simp
    show ?thesis using listener_ok_frame [OF api_ok_listener [OF ok k], of ?s] k that by simp
  qed
  moreover have "core_ok R ?s" using parts(1) by (simp add: core_ok_def sh)
  moreover have "owner_ok ?s" using parts(2) new unfolding owner_ok_def sh by fastforce
  moreover have "single_ok ?s" using parts(3) new unfolding single_ok_def by auto
  moreover have "memory_ok R ?s" using parts(4) new R by (auto simp: memory_ok_def ll_items_append)
  ultimately show ?thesis by (simp add: api_ok_def)
qed

lemma listener_free_ok:
  assumes R: "nn_llist_laws R" and ok: "api_ok L R s" and x: "api_listener s l = Some x"
    and a: "\<not> lst_isInitialized x \<or> lst_ec x \<noteq> NABTO_EC_OK \<and> lst_type x \<noteq> LISTENER_TYPE_AUTHORIZATION"
  shows "api_ok L R (s\<lparr>api_listeners := ll_erase_node R (api_listeners s) l, api_listener := (api_listener s)(l := None)\<rparr>)"
    (is "api_ok L R ?s")
proof -
  note parts = api_ok_parts [OF ok]
  have sh: "shape_at ?s = shape_at s" by (simp add: shape_at_def fun_eq_iff)
  have inactive: "lst_isInitialized x \<Longrightarrow> lst_cb x = None"
    using a api_ok_listener [OF ok x] by (auto simp: listener_ok_def split: option.splits)
  have "listener_ok L ?s k z" if "api_listener ?s k = Some z" for k z
  proof -
    from that have k: "api_listener s k = Some z" by (simp split: if_splits)
    show ?thesis using listener_ok_frame [OF api_ok_listener [OF ok k], of ?s] k that by simp
  qed
  moreover have "core_ok R ?s" using parts(1) by (simp add: core_ok_def sh)
  moreover have "owner_ok ?s" using parts(2) x inactive unfolding owner_ok_def sh by fastforce
  moreover have "single_ok ?s" using parts(3) x a inactive unfolding single_ok_def by auto
  moreover have "memory_ok R ?s" using parts(4) R by (auto simp: memory_ok_def ll_items_erase_node)
  ultimately show ?thesis by (simp add: api_ok_def)
qed

lemma listener_init_init_with:
  "api_listener s l = Some x \<Longrightarrow>
     nabto_device_listener_init L l t data s = Inr (NABTO_EC_OK, upd_listener l (init_with L t data) s, [])"
  by (simp add: nabto_device_listener_init_def ret_def init_with_def [abs_def])

lemma init_context_ok:
  assumes L: "nn_llist_laws L" and R: "nn_llist_laws R" and ok: "api_ok L R s" and x: "api_listener s l = Some x" "\<not> lst_isInitialized x"
    and c: "context_shape c = (t, l)"
  shows "api_ok L R (core_add R t (api_next s) (upd_listener l (init_with L t (DataContext (api_next s)))
    (s\<lparr>api_context := (api_context s)(api_next s \<mapsto> c), api_next := Suc (api_next s)\<rparr>)))" (is "api_ok L R ?s")
proof -
  note parts = api_ok_parts [OF ok]
  let ?p = "api_next s"
  have fresh: "shape_at s ?p = None" using parts(4) by (simp add: memory_ok_def shape_at_def)
  have sh: "shape_at ?s p = (if p = ?p then Some (t, l) else shape_at s p)" for p
    using c by (simp add: shape_at_def core_add_def)
  have none: "shape_at s p \<noteq> Some (u, l)" for p u using parts(2) x unfolding owner_ok_def by fastforce
  have lst: "api_listener ?s k = (if k = l then Some (init_with L t (DataContext ?p) x) else api_listener s k)" for k
    using x by (simp add: core_add_def)
  have t: "t \<noteq> LISTENER_TYPE_NONE" using c by (cases c) auto
  have fut: "lst_fut x = None" "lst_genericFutureResolverData x = None"
    using api_ok_listener [OF ok x(1)] x(2) by (simp_all add: listener_ok_def)
  have "listener_ok L ?s k z" if "api_listener ?s k = Some z" for k z
  proof (cases "k = l")
    case True
    with that L t fut show ?thesis by (auto simp: lst listener_ok_def init_with_def ll_items_init data_ok_def sh)
  next
    case False
    with that have k: "api_listener s k = Some z" by (simp add: lst)
    have "api_context ?s p = api_context s p" if "shape_at s p = Some (u, k)" for p u
      using that fresh by (auto simp: core_add_def)
    then show ?thesis using listener_ok_frame [OF api_ok_listener [OF ok k], of ?s] k that by (simp add: core_add_def)
  qed
  moreover have "core_ok R ?s"
  proof -
    have "?p \<notin> set (ll_items R (api_core s k))" for k using parts(1) fresh by (simp add: core_ok_def)
    then show ?thesis using parts(1) R fresh by (auto simp: core_ok_def sh) (auto simp: core_add_def ll_items_append split: if_splits)
  qed
  moreover have "owner_ok ?s" using parts(2) none unfolding owner_ok_def sh lst by (auto simp: init_with_def)
  moreover have "single_ok ?s" using parts(3) x unfolding single_ok_def lst by (auto simp: core_add_def)
  moreover have "memory_ok R ?s"
  proof -
    have "dom (api_listener ?s) = dom (api_listener s)" using x by (auto simp: lst dom_def)
    with parts(4) show ?thesis by (simp add: memory_ok_def) (simp add: core_add_def)
  qed
  ultimately show ?thesis by (simp add: api_ok_def)
qed

lemma init_single_ok:
  assumes L: "nn_llist_laws L" and ok: "api_ok L R s" and x: "api_listener s l = Some x" "\<not> lst_isInitialized x"
    and s': "api_listener s' = (api_listener s)(l \<mapsto> init_with L t data x)" "api_context s' = api_context s" "api_core s' = api_core s"
      "api_listeners s' = api_listeners s" "api_next s' = api_next s" "api_authorization_request s' = api_authorization_request s"
      "api_eventMutex s' = api_eventMutex s"
    and t: "t \<noteq> LISTENER_TYPE_NONE" "data_ok s' l t data" and single: "single_ok s'"
  shows "api_ok L R s'"
proof -
  note parts = api_ok_parts [OF ok]
  have sh: "shape_at s' = shape_at s" using s' by (simp add: shape_at_def fun_eq_iff)
  have none: "shape_at s p \<noteq> Some (u, l)" for p u using parts(2) x unfolding owner_ok_def by fastforce
  have fut: "lst_fut x = None" "lst_genericFutureResolverData x = None"
    using api_ok_listener [OF ok x(1)] x(2) by (simp_all add: listener_ok_def)
  have "listener_ok L s' k z" if "api_listener s' k = Some z" for k z
  proof (cases "k = l")
    case True
    with that L t fut s' show ?thesis by (auto simp: listener_ok_def init_with_def ll_items_init)
  next
    case False
    with that s' have k: "api_listener s k = Some z" by simp
    show ?thesis using listener_ok_frame [OF api_ok_listener [OF ok k], of s'] k that s' by simp
  qed
  moreover have "core_ok R s'" using parts(1) s' by (simp add: core_ok_def sh)
  moreover have "owner_ok s'" using parts(2) none s' unfolding owner_ok_def sh by fastforce
  moreover have "memory_ok R s'" using parts(4) x s' by (auto simp: memory_ok_def)
  ultimately show ?thesis using single by (simp add: api_ok_def)
qed

lemma init_listener_ok:
  assumes L: "nn_llist_laws L" and R: "nn_llist_laws R" and ok: "api_ok L R s" and x: "api_listener s l = Some x" "\<not> lst_isInitialized x"
  shows "\<exists>ec s' out. init_listener L R t mem NABTO_EC_OK l s = Inr (ec, s', out) \<and> api_ok L R s'"
proof -
  note parts = api_ok_parts [OF ok]
  have ctx: "\<exists>ec s' out. (if \<not> mem then ret NABTO_EC_OUT_OF_MEMORY []
      else callThen (new_context c) (\<lambda>p. callThen (nabto_device_listener_init L l t (DataContext p)) (g p))) s = Inr (ec, s', out) \<and> api_ok L R s'"
    if "context_shape c = (t, l)" "\<And>p s. g p NABTO_EC_OK s = ret NABTO_EC_OK [] (core_add R t p s)"
    for c t and g :: "nat \<Rightarrow> np_error_code \<Rightarrow> ('a, 'b, np_error_code) api_call"
    using init_context_ok [OF L R ok x that(1)] ok x that
    by (auto simp: new_context_def ret_def Let_def callThen_def listener_init_init_with)
  show ?thesis
  proof (cases t)
    case LISTENER_TYPE_AUTHORIZATION
    let ?s = "upd_listener l (init_with L LISTENER_TYPE_AUTHORIZATION DataAuthorization) s\<lparr>api_authorization_listener := Some l\<rparr>"
    have "api_ok L R ?s"
      by (rule init_single_ok [OF L ok x, of _ LISTENER_TYPE_AUTHORIZATION DataAuthorization])
        (use x parts(3) in \<open>auto simp: upd_listener_def data_ok_def single_ok_def init_with_def\<close>)
    with LISTENER_TYPE_AUTHORIZATION ok x show ?thesis
      by (auto simp: nabto_device_authorization_request_init_listener_def listener_init_init_with ret_def)
  next
    case LISTENER_TYPE_PASSWORD_REQUESTS
    let ?s = "upd_listener l (init_with L LISTENER_TYPE_PASSWORD_REQUESTS (DataListener l)) s\<lparr>api_passwordRequestHandler := Some l\<rparr>"
    have "api_ok L R ?s"
      by (rule init_single_ok [OF L ok x, of _ LISTENER_TYPE_PASSWORD_REQUESTS "DataListener l"])
        (use x parts(3) in \<open>auto simp: upd_listener_def data_ok_def single_ok_def init_with_def\<close>)
    with LISTENER_TYPE_PASSWORD_REQUESTS ok x show ?thesis
      by (auto simp: nabto_device_password_authentication_request_init_listener_def listener_init_init_with ret_def)
  next
    case LISTENER_TYPE_NONE
    with ok show ?thesis by (simp add: ret_def)
  next
    case LISTENER_TYPE_DEVICE_EVENTS
    show ?thesis unfolding LISTENER_TYPE_DEVICE_EVENTS init_listener.simps nabto_device_device_events_init_listener_def by (rule ctx) simp_all
  next
    case LISTENER_TYPE_CONNECTION_EVENTS
    show ?thesis unfolding LISTENER_TYPE_CONNECTION_EVENTS init_listener.simps nabto_device_connection_events_init_listener_def by (rule ctx) simp_all
  next
    case LISTENER_TYPE_STREAMS
    show ?thesis unfolding LISTENER_TYPE_STREAMS init_listener.simps nabto_device_stream_init_listener_def by (rule ctx) simp_all
  next
    case LISTENER_TYPE_COAP
    show ?thesis unfolding LISTENER_TYPE_COAP init_listener.simps nabto_device_coap_init_listener_def by (rule ctx) simp_all
  qed
qed

lemma prepare_context_ok:
  assumes ok: "api_ok L R s" and x: "api_listener s l = Some x" and t: "uses_context t"
    and act: "lst_isInitialized x" "lst_ec x = NABTO_EC_OK" "lst_type x = t"
    and g: "\<And>p c s. context_shape c = (t, l) \<Longrightarrow> api_context s p = Some c \<Longrightarrow>
      \<exists>c' out. prepare' p c s = Inr ((), set_context p (Some c') s, out) \<and> context_shape c' = (t, l) \<and> context_ready c' \<and> visible out = []"
  shows "prepared L R l fut x (obind (context_of (nabto_device_listener_get_listener_data x) (upd_listener l (\<lambda>x. x\<lparr>lst_fut := Some fut\<rparr>) s))
    (\<lambda>(p, c). prepare' p c (upd_listener l (\<lambda>x. x\<lparr>lst_fut := Some fut\<rparr>) s)))"
proof -
  let ?f = "\<lambda>x :: 'a nabto_device_listener. x\<lparr>lst_fut := Some fut\<rparr>"
  let ?s = "upd_listener l ?f s"
  note a = listener_ok_active [OF api_ok_listener [OF ok x] act(1,2)]
  then have "data_ok s l t (lst_listenerData x)" using act by simp
  then obtain p c where p: "lst_listenerData x = DataContext p" "api_context s p = Some c" "context_shape c = (t, l)"
    using t by (cases rule: data_cases) (auto simp: uses_context_def shape_at_def)
  from g [OF p(3), of ?s p] p obtain c' out where c': "prepare' p c ?s = Inr ((), set_context p (Some c') ?s, out)"
    "context_shape c' = (t, l)" "context_ready c'" "visible out = []" by auto
  let ?t = "set_context p (Some c') ?s"
  have sh: "shape_at ?t = shape_at s" using p c' by (auto simp: shape_at_def set_context_def fun_eq_iff)
  have ctx: "api_context ?t = (api_context s)(p \<mapsto> c')" by (simp add: set_context_def)
  have lst: "api_listener ?t k = (if k = l then Some (?f x) else api_listener s k)" for k using x by (simp add: set_context_def)
  have "listener_ok L ?t l (?f x)"
    using a act p c' by (simp add: listener_ok_def data_ok_def data_ready_def sh ctx)
  moreover have "api_context ?t q = api_context s q" if "shape_at s q = Some (u, k)" "k \<noteq> l" for q u k
    using that p by (auto simp: ctx shape_at_def)
  ultimately have "api_ok L R ?t"
    by (intro api_ok_same [OF ok x]) (auto simp: lst same_listener_def same_shape_def sh, simp_all add: set_context_def)
  with c' p act x show ?thesis
    by (simp add: prepared_def context_of_def nabto_device_listener_get_listener_data_def lst same_listener_def)
qed

lemma wait_listener_prepare:
  "t \<noteq> LISTENER_TYPE_NONE \<Longrightarrow> wait_listener L R t l fut a b = listener_wait L R t (wait_prepare t l a b) l fut"
  by (cases t) (simp_all add: wait_prepare_def nabto_device_listener_device_event_def nabto_device_listener_connection_event_def
    nabto_device_listener_new_stream_def nabto_device_listener_new_coap_request_def
    nabto_device_listener_new_authorization_request_def nabto_device_listener_new_password_authentication_request_def)

lemma wait_prepare_ok:
  assumes ok: "api_ok L R s" and x: "api_listener s l = Some x" and t: "t \<noteq> LISTENER_TYPE_NONE"
    and act: "lst_isInitialized x" "lst_ec x = NABTO_EC_OK" "lst_type x = t"
  shows "prepared L R l fut x (wait_prepare t l a b x (upd_listener l (\<lambda>x. x\<lparr>lst_fut := Some fut\<rparr>) s))"
proof (cases t)
  case LISTENER_TYPE_DEVICE_EVENTS
  show ?thesis
    unfolding LISTENER_TYPE_DEVICE_EVENTS wait_prepare_def nabto_device_listener_type.case
    by (rule prepare_context_ok [OF ok x _ act(1,2)])
      (use act in \<open>auto simp: LISTENER_TYPE_DEVICE_EVENTS uses_context_def ret_def elim!: context_shape.elims
         intro!: exI [of _ "DeviceContext l (Some a)"]\<close>)
next
  case LISTENER_TYPE_CONNECTION_EVENTS
  show ?thesis
    unfolding LISTENER_TYPE_CONNECTION_EVENTS wait_prepare_def nabto_device_listener_type.case
    by (rule prepare_context_ok [OF ok x _ act(1,2)])
      (use act in \<open>auto simp: LISTENER_TYPE_CONNECTION_EVENTS uses_context_def ret_def elim!: context_shape.elims
         intro!: exI [of _ "ConnectionContext l (Some a) (Some b)"]\<close>)
next
  case LISTENER_TYPE_STREAMS
  show ?thesis
    unfolding LISTENER_TYPE_STREAMS wait_prepare_def nabto_device_listener_type.case
    by (rule prepare_context_ok [OF ok x _ act(1,2)])
      (use act in \<open>auto simp: LISTENER_TYPE_STREAMS uses_context_def ret_def elim!: context_shape.elims
         intro!: exI [of _ "StreamContext l (Some a)"]\<close>)
next
  case LISTENER_TYPE_COAP
  show ?thesis
    unfolding LISTENER_TYPE_COAP wait_prepare_def nabto_device_listener_type.case
    by (rule prepare_context_ok [OF ok x _ act(1,2)])
      (use act in \<open>auto simp: LISTENER_TYPE_COAP uses_context_def ret_def elim!: context_shape.elims
         intro!: exI [of _ "CoapResource l (Some a)"]\<close>)
next
  case LISTENER_TYPE_AUTHORIZATION
  let ?f = "\<lambda>x :: 'a nabto_device_listener. x\<lparr>lst_fut := Some fut\<rparr>"
  let ?s = "upd_listener l ?f s\<lparr>api_authorization_request := Some a\<rparr>"
  have "api_ok L R ?s"
  proof (rule api_ok_same [OF ok x])
    note p = listener_ok_active [OF api_ok_listener [OF ok x] act(1,2)]
    then have "data_ok s l LISTENER_TYPE_AUTHORIZATION (lst_listenerData x)" using act LISTENER_TYPE_AUTHORIZATION by simp
    then have "lst_listenerData x = DataAuthorization" by (cases rule: data_cases) (auto simp: uses_context_def)
    with p act LISTENER_TYPE_AUTHORIZATION show "listener_ok L ?s l (?f x)" by (simp add: listener_ok_def data_ok_def data_ready_def)
  qed (use x in \<open>auto simp: same_listener_def same_shape_def shape_at_def\<close>)
  with x LISTENER_TYPE_AUTHORIZATION show ?thesis by (simp add: prepared_def wait_prepare_def ret_def same_listener_def)
next
  case LISTENER_TYPE_PASSWORD_REQUESTS
  let ?f = "\<lambda>x :: 'a nabto_device_listener. x\<lparr>lst_fut := Some fut, lst_genericFutureResolverData := Some a\<rparr>"
  let ?s = "upd_listener l ?f s"
  have "api_ok L R ?s"
  proof (rule api_ok_same [OF ok x])
    note p = listener_ok_active [OF api_ok_listener [OF ok x] act(1,2)]
    then have "data_ok s l LISTENER_TYPE_PASSWORD_REQUESTS (lst_listenerData x)" using act LISTENER_TYPE_PASSWORD_REQUESTS by simp
    then have "lst_listenerData x = DataListener l" by (cases rule: data_cases) (auto simp: uses_context_def)
    with p act x LISTENER_TYPE_PASSWORD_REQUESTS show "listener_ok L ?s l (?f x)" by (simp add: listener_ok_def data_ok_def data_ready_def)
  qed (use x in \<open>auto simp: same_listener_def same_shape_def\<close>)
  with x act LISTENER_TYPE_PASSWORD_REQUESTS show ?thesis by (simp add: prepared_def wait_prepare_def ret_def same_listener_def)
qed (use t in simp)

text \<open>
  A wait: refused with a code, or it begins (in \<open>s1\<close>) and takes the first event.
\<close>

lemma wait_listener_cases:
  assumes ok: "api_ok L R s" and x: "api_listener s l = Some x" and t: "t \<noteq> LISTENER_TYPE_NONE"
  obtains ec where "lst_type x \<noteq> t \<or> lst_ec x \<noteq> NABTO_EC_OK \<or> lst_fut x \<noteq> None"
      "ec = (if lst_type x \<noteq> t then NABTO_EC_INVALID_ARGUMENT else if lst_ec x \<noteq> NABTO_EC_OK then lst_ec x else NABTO_EC_OPERATION_IN_PROGRESS)"
      "wait_listener L R t l fut a b s = Inr ((), s, [OFutureReset fut, OFutureResolve fut ec])"
  | s1 o1 y where "lst_type x = t" "lst_ec x = NABTO_EC_OK" "lst_fut x = None" "lst_isInitialized x" "visible o1 = []"
      "api_ok L R s1" "api_listener s1 l = Some y" "lst_fut y = Some fut"
      "lst_eventsList y = lst_eventsList x" "same_listener x y" "lst_ec y = lst_ec x"
      "lst_type x \<noteq> LISTENER_TYPE_PASSWORD_REQUESTS \<longrightarrow> lst_genericFutureResolverData y = lst_genericFutureResolverData x"
      "wait_listener L R t l fut a b s = obind (nabto_device_listener_try_resolve L R l s1) (\<lambda>(u, s2, o2). Inr (u, s2, o1 @ o2))"
proof (cases "lst_type x = t \<and> lst_ec x = NABTO_EC_OK \<and> lst_fut x = None")
  case True
  with api_ok_listener [OF ok x] t have init: "lst_isInitialized x" by (auto simp: listener_ok_def split: if_splits)
  from wait_prepare_ok [OF ok x t init, of fut a b] True obtain s1 o1 y where
    p: "wait_prepare t l a b x (upd_listener l (\<lambda>x. x\<lparr>lst_fut := Some fut\<rparr>) s) = Inr ((), s1, o1)" and
    q: "visible o1 = []" "api_ok L R s1" "api_listener s1 l = Some y" "lst_fut y = Some fut"
      "lst_eventsList y = lst_eventsList x" "same_listener x y" "lst_ec y = lst_ec x"
      "lst_type x \<noteq> LISTENER_TYPE_PASSWORD_REQUESTS \<longrightarrow> lst_genericFutureResolverData y = lst_genericFutureResolverData x"
    unfolding prepared_def by blast
  have "wait_listener L R t l fut a b s =
      obind (nabto_device_listener_try_resolve L R l s1) (\<lambda>(u, s2, o2). Inr (u, s2, (OFutureReset fut # o1) @ o2))"
    using p x init True
    by (cases "nabto_device_listener_try_resolve L R l s1")
      (auto simp: wait_listener_prepare [OF t] listener_wait_def nabto_device_listener_init_future_def ret_def callThen_def)
  with True init q that(2) [of "OFutureReset fut # o1"] show ?thesis by auto
next
  case False
  with x ok t api_ok_listener [OF ok x] show ?thesis
    by (intro that(1)) (auto simp: wait_listener_prepare [OF t] listener_wait_def nabto_device_listener_init_future_def ret_def callThen_def
        listener_ok_def split: if_splits)
qed

lemma wait_listener_ok:
  assumes L: "nn_llist_laws L" and ok: "api_ok L R s" and x: "api_listener s l = Some x"
  shows "\<exists>s' out. wait_listener L R t l fut a b s = Inr ((), s', out) \<and> api_ok L R s'"
proof (cases "t = LISTENER_TYPE_NONE")
  case True
  with ok show ?thesis by (simp add: ret_def)
next
  case False
  from ok x False show ?thesis
  proof (cases rule: wait_listener_cases [where fut = fut and a = a and b = b])
    case (1 ec)
    with ok show ?thesis by simp
  next
    case (2 s1 o1 y)
    from try_resolve_ok [OF L 2(6,7)] 2(13) show ?thesis by auto
  qed
qed

lemma core_listener:
  assumes ok: "api_ok L R s" and p: "p \<in> set (ll_items R (api_core s t))"
  obtains l x c where "api_context s p = Some c" "context_shape c = (t, l)" "api_listener s l = Some x" "lst_isInitialized x"
    "lst_ec x = NABTO_EC_OK" "lst_type x = t" "lst_listenerData x = DataContext p"
proof -
  from api_ok_parts [OF ok] p obtain l where l: "shape_at s p = Some (t, l)" by (auto simp: core_ok_def)
  with api_ok_parts [OF ok] obtain x where x: "api_listener s l = Some x" "lst_isInitialized x" "lst_cb x = Some t"
    "lst_listenerData x = DataContext p" unfolding owner_ok_def by blast
  with api_ok_listener [OF ok x(1)] have "lst_ec x = NABTO_EC_OK" "lst_type x = t" by (simp_all add: listener_ok_def)
  with l x that show ?thesis by (auto simp: shape_at_def)
qed

lemma core_items_shape:
  assumes "core_ok R s" "core_ok R s'" "shape_at s' q = shape_at s q"
  shows "q \<in> set (ll_items R (api_core s' t)) \<longleftrightarrow> q \<in> set (ll_items R (api_core s t))"
  using assms by (simp add: core_ok_def)

lemma core_cb_ok:
  assumes L: "nn_llist_laws L" and R: "nn_llist_laws R" and ok: "api_ok L R s" and x: "api_listener s l = Some x" "lst_isInitialized x"
      "lst_ec x = NABTO_EC_OK" "lst_listenerData x = DataContext p"
  shows "event_type ev = lst_type x \<Longrightarrow>
      core_call_ok L R s p (callThen (nabto_device_listener_add_event L R l ev) (\<lambda>ec. ret () (g ec)) s)"
    and "ec \<noteq> NABTO_EC_OK \<Longrightarrow> core_call_ok L R s p (nabto_device_listener_set_error_code L R l ec s)"
  using add_event_ok [OF L ok x(1), of ev] set_error_code_ok [OF L R ok x(1-3), of ec] x(4)
  by (auto simp: core_call_ok_def ret_def)

lemma events_core_cb_ok:
  assumes L: "nn_llist_laws L" and R: "nn_llist_laws R" and ok: "api_ok L R s"
  shows "p \<in> set (ll_items R (api_core s LISTENER_TYPE_DEVICE_EVENTS)) \<Longrightarrow>
      core_call_ok L R s p (nabto_device_events_core_cb L R mem e p s)"
    and "p \<in> set (ll_items R (api_core s LISTENER_TYPE_CONNECTION_EVENTS)) \<Longrightarrow>
      core_call_ok L R s p (nabto_device_connection_events_core_cb L R mem ref ce p s)"
    and "p \<in> set (ll_items R (api_core s LISTENER_TYPE_STREAMS)) \<Longrightarrow> ec = NABTO_EC_OK \<longrightarrow> mem \<Longrightarrow>
      core_call_ok L R s p (nabto_device_stream_core_callback L R mem ec stream p s)"
    and "p \<in> set (ll_items R (api_core s LISTENER_TYPE_COAP)) \<Longrightarrow>
      core_call_ok L R s p (nabto_device_coap_resource_handler L R mem req conn p s)"
proof -
  assume "p \<in> set (ll_items R (api_core s LISTENER_TYPE_DEVICE_EVENTS))"
  from core_listener [OF ok this] obtain l x c where x: "api_context s p = Some c" "context_shape c = (LISTENER_TYPE_DEVICE_EVENTS, l)"
    "api_listener s l = Some x" "lst_isInitialized x" "lst_ec x = NABTO_EC_OK" "lst_type x = LISTENER_TYPE_DEVICE_EVENTS"
    "lst_listenerData x = DataContext p" .
  with core_cb_ok [OF L R ok x(3,4,5,7)] show "core_call_ok L R s p (nabto_device_events_core_cb L R mem e p s)"
    by (cases c) (auto simp: nabto_device_events_core_cb_def context_of_def)
next
  assume "p \<in> set (ll_items R (api_core s LISTENER_TYPE_CONNECTION_EVENTS))"
  from core_listener [OF ok this] obtain l x c where x: "api_context s p = Some c" "context_shape c = (LISTENER_TYPE_CONNECTION_EVENTS, l)"
    "api_listener s l = Some x" "lst_isInitialized x" "lst_ec x = NABTO_EC_OK" "lst_type x = LISTENER_TYPE_CONNECTION_EVENTS"
    "lst_listenerData x = DataContext p" .
  with core_cb_ok [OF L R ok x(3,4,5,7)] show "core_call_ok L R s p (nabto_device_connection_events_core_cb L R mem ref ce p s)"
    by (cases c) (auto simp: nabto_device_connection_events_core_cb_def context_of_def)
next
  assume "p \<in> set (ll_items R (api_core s LISTENER_TYPE_STREAMS))" and mem: "ec = NABTO_EC_OK \<longrightarrow> mem"
  from core_listener [OF ok this(1)] obtain l x c where x: "api_context s p = Some c" "context_shape c = (LISTENER_TYPE_STREAMS, l)"
    "api_listener s l = Some x" "lst_isInitialized x" "lst_ec x = NABTO_EC_OK" "lst_type x = LISTENER_TYPE_STREAMS"
    "lst_listenerData x = DataContext p" .
  with core_cb_ok [OF L R ok x(3,4,5,7)] mem show "core_call_ok L R s p (nabto_device_stream_core_callback L R mem ec stream p s)"
    by (cases c) (auto simp: nabto_device_stream_core_callback_def context_of_def)
next
  assume "p \<in> set (ll_items R (api_core s LISTENER_TYPE_COAP))"
  from core_listener [OF ok this] obtain l x c where x: "api_context s p = Some c" "context_shape c = (LISTENER_TYPE_COAP, l)"
    "api_listener s l = Some x" "lst_isInitialized x" "lst_ec x = NABTO_EC_OK" "lst_type x = LISTENER_TYPE_COAP"
    "lst_listenerData x = DataContext p" .
  with core_cb_ok(1) [OF L R ok x(3,4,5,7)] ok show "core_call_ok L R s p (nabto_device_coap_resource_handler L R mem req conn p s)"
    by (cases c) (auto simp: nabto_device_coap_resource_handler_def context_of_def Let_def core_call_ok_def ret_def)
qed

lemma notify_ok:
  assumes "api_ok L R s" "distinct ps" "set ps \<subseteq> set (ll_items R (api_core s t))"
    and "\<And>s p. api_ok L R s \<Longrightarrow> p \<in> set (ll_items R (api_core s t)) \<Longrightarrow> core_call_ok L R s p (cb p s)"
  shows "\<exists>s' out. run_acts (\<lambda>p. call_act (cb p)) ps s = Inr (s', out) \<and> api_ok L R s'"
  using assms(1-3)
proof (induction ps arbitrary: s)
  case (Cons p ps)
  from assms(4) [OF Cons.prems(1), of p] Cons.prems obtain s1 o1 where
    s1: "cb p s = Inr ((), s1, o1)" "api_ok L R s1" and sh: "\<And>q. q \<noteq> p \<Longrightarrow> shape_at s1 q = shape_at s q"
    by (auto simp: core_call_ok_def)
  have "set ps \<subseteq> set (ll_items R (api_core s1 t))"
  proof
    fix q
    assume q: "q \<in> set ps"
    with Cons.prems have "q \<noteq> p" "q \<in> set (ll_items R (api_core s t))" by auto
    with core_items_shape [OF api_ok_parts(1) [OF Cons.prems(1)] api_ok_parts(1) [OF s1(2)] sh, of q t]
    show "q \<in> set (ll_items R (api_core s1 t))" by simp
  qed
  with Cons.IH [OF s1(2)] Cons.prems obtain s2 o2 where "run_acts (\<lambda>p. call_act (cb p)) ps s1 = Inr (s2, o2)" "api_ok L R s2" by auto
  moreover have "call_act (cb p) s = Inr (s1, o1)" using s1 by (simp add: call_act_def)
  ultimately show ?case by (simp add: andThen_def)
qed auto

lemma stop_all_ok:
  assumes L: "nn_llist_laws L" and R: "nn_llist_laws R"
  shows "api_ok L R s \<Longrightarrow> set ls \<subseteq> dom (api_listener s) \<Longrightarrow>
    \<exists>s' out. run_acts (\<lambda>l. call_act (nabto_device_listener_stop_internal L R l)) ls s = Inr (s', out) \<and> api_ok L R s'"
proof (induction ls arbitrary: s)
  case (Cons l ls)
  then obtain x where "api_listener s l = Some x" by auto
  from stop_internal_ok [OF L R Cons.prems(1) this] obtain ec s1 o1 where
    s1: "nabto_device_listener_stop_internal L R l s = Inr (ec, s1, o1)" "api_ok L R s1" "api_listeners s1 = api_listeners s" by blast
  with api_ok_parts(4) [OF Cons.prems(1)] api_ok_parts(4) [OF s1(2)] have "dom (api_listener s1) = dom (api_listener s)"
    by (auto simp: memory_ok_def)
  with Cons.IH [OF s1(2)] Cons.prems obtain s2 o2 where
    "run_acts (\<lambda>l. call_act (nabto_device_listener_stop_internal L R l)) ls s1 = Inr (s2, o2)" "api_ok L R s2" by auto
  moreover have "call_act (nabto_device_listener_stop_internal L R l) s = Inr (s1, o1)" using s1 by (simp add: call_act_def)
  ultimately show ?case by (simp add: andThen_def)
qed auto

lemma api_step_ok:
  assumes L: "nn_llist_laws L" and R: "nn_llist_laws R" and ok: "api_ok L R s" and allowed: "api_allowed R s lab"
  shows "\<exists>s' out. api_step L R lab s = Inr (s', out) \<and> api_ok L R s'"
proof (cases lab)
  case (ListenerNew mem l)
  with listener_new_ok [OF L R ok, of l] allowed show ?thesis by (auto simp: nabto_device_listener_new_def emit_def)
next
  case (ListenerFree l)
  then obtain x where x: "api_listener s l = Some x" using allowed by (auto split: option.splits)
  with listener_free_ok [OF R ok x] ListenerFree allowed show ?thesis
    by (auto simp: nabto_device_listener_free_def call_act_def ret_def)
next
  case (ListenerStop l)
  then obtain x where x: "api_listener s l = Some x" using allowed by auto
  from stop_internal_ok [OF L R ok x] ListenerStop show ?thesis
    by (auto simp: nabto_device_listener_stop_def call_act_def)
next
  case ListenerStopAll
  from api_ok_parts(4) [OF ok] have "set (ll_items R (api_listeners s)) \<subseteq> dom (api_listener s)" by (simp add: memory_ok_def)
  from stop_all_ok [OF L R ok this] show ?thesis
    by (simp add: ListenerStopAll nabto_device_listener_stop_all_def)
next
  case (ListenerInit t mem added l)
  then obtain x where x: "api_listener s l = Some x" "\<not> lst_isInitialized x" "added = NABTO_EC_OK"
    using allowed by (auto split: option.splits)
  from init_listener_ok [OF L R ok x(1,2), of t mem] ListenerInit x show ?thesis by (auto simp: call_act_def)
next
  case (ListenerWait t l fut a b)
  then obtain x where x: "api_listener s l = Some x" using allowed by auto
  from wait_listener_ok [OF L ok x, of t fut a b] ListenerWait show ?thesis by (auto simp: call_act_def)
next
  case (CoreDeviceEvent mem att e)
  from api_ok_parts(1) [OF ok] have "distinct (ll_items R (api_core s LISTENER_TYPE_DEVICE_EVENTS))" by (simp add: core_ok_def)
  from notify_ok [OF ok this subset_refl, of "\<lambda>p. nabto_device_events_core_cb L R (mem p) e p", OF events_core_cb_ok(1) [OF L R]]
  show ?thesis
    by (auto simp: CoreDeviceEvent nc_device_events_listener_notify_def andThen_def emit_def)
next
  case (CoreConnectionEvent mem ref e)
  from api_ok_parts(1) [OF ok] have "distinct (ll_items R (api_core s LISTENER_TYPE_CONNECTION_EVENTS))" by (simp add: core_ok_def)
  from notify_ok [OF ok this subset_refl, of "\<lambda>p. nabto_device_connection_events_core_cb L R (mem p) ref e p",
      OF events_core_cb_ok(2) [OF L R]]
  show ?thesis by (simp add: CoreConnectionEvent nc_device_connection_events_listener_notify_def)
next
  case (CoreStream mem ec stream p)
  with events_core_cb_ok(3) [OF L R ok, of p ec mem stream] allowed show ?thesis
    by (auto simp: core_call_ok_def call_act_def)
next
  case (CoreCoapRequest mem req conn p)
  with events_core_cb_ok(4) [OF L R ok, of p mem req conn] allowed show ?thesis
    by (auto simp: core_call_ok_def call_act_def)
next
  case (CorePasswordRequest mem req)
  show ?thesis
  proof (cases "api_passwordRequestHandler s")
    case None
    with CorePasswordRequest ok show ?thesis by (simp add: emit_def)
  next
    case (Some l)
    with api_ok_parts(3) [OF ok] obtain x where x: "api_listener s l = Some x" "lst_isInitialized x"
      "lst_cb x = Some LISTENER_TYPE_PASSWORD_REQUESTS" by (auto simp: single_ok_def)
    with api_ok_listener [OF ok x(1)] have "lst_type x = LISTENER_TYPE_PASSWORD_REQUESTS" by (simp add: listener_ok_def)
    with add_event_ok [OF L ok x(1), of "EvPassword req"] Some CorePasswordRequest ok show ?thesis
      by (auto simp: password_request_handler_def call_act_def ret_def)
  qed
next
  case (CoreAuthorizationRequest r)
  show ?thesis
  proof (cases "api_authorization_listener s")
    case None
    with CoreAuthorizationRequest ok show ?thesis by (simp add: authorization_add_request_def call_act_def ret_def)
  next
    case (Some l)
    with api_ok_parts(3) [OF ok] obtain x where x: "api_listener s l = Some x" "lst_type x = LISTENER_TYPE_AUTHORIZATION"
      by (auto simp: single_ok_def)
    with add_event_ok [OF L ok x(1), of "EvAuthorization r"] Some CoreAuthorizationRequest show ?thesis
      by (auto simp: authorization_add_request_def call_act_def ret_def)
  qed
qed

lemma api_init_ok:
  assumes "nn_llist_laws R"
  shows "api_ok L R (api_init R)"
  using assms
  by (simp add: api_ok_def api_init_def core_ok_def owner_ok_def single_ok_def memory_ok_def shape_at_def ll_items_init)

lemma api_reachable_ok:
  assumes "nn_llist_laws L" "nn_llist_laws R"
  shows "api_reachable L R s \<Longrightarrow> api_ok L R s"
proof (induction rule: api_reachable.induct)
  case start
  show ?case by (rule api_init_ok [OF assms(2)])
next
  case (step s lab s' out)
  with api_step_ok [OF assms step.IH step.hyps(2)] show ?case by auto
qed

lemma api_ok_typed:
  assumes ok: "api_ok L R s" and x: "api_listener s l = Some x"
  shows "list_all (\<lambda>e. event_type e = lst_type x) (ll_items L (lst_eventsList x))"
  using api_ok_listener [OF ok x] by (auto simp: listener_ok_def split: if_splits option.splits)


lemma api_allowed_run_last:
  "api_reachable L R s \<Longrightarrow> api_allowed_run L R (labs @ [lab]) s \<Longrightarrow>
     \<exists>s' out. run_acts (api_step L R) labs s = Inr (s', out) \<and> api_reachable L R s' \<and> api_allowed R s' lab"
proof (induction labs arbitrary: s)
  case (Cons k labs)
  from Cons.prems(2) obtain s1 o1 where s1: "api_allowed R s k" "api_step L R k s = Inr (s1, o1)" "api_allowed_run L R (labs @ [lab]) s1"
    by (auto split: sum.splits)
  from Cons.IH [OF api_reachable.step [OF Cons.prems(1) s1(1,2)] s1(3)] s1(2) show ?case by (auto simp: andThen_def)
qed auto


text \<open>
  Nothing keeps an application from initialising a listener twice: an event of the first purpose is then taken for
  one of the second.
\<close>

lemma listener_init_twice_wrong_type:
  "fault_of (run_acts (api_step llist_by_list llist_by_list)
     [ListenerNew True 7, ListenerInit LISTENER_TYPE_STREAMS True NABTO_EC_OK 7, ListenerInit LISTENER_TYPE_COAP True NABTO_EC_OK 7,
      CoreStream True NABTO_EC_OK 3 0, ListenerWait LISTENER_TYPE_COAP 7 1 100 0] (api_init llist_by_list)) = Some WrongType"
  by code_simp

text \<open>Nor is the authorization listener forgotten when it has been stopped and freed.\<close>

lemma authorization_listener_freed:
  "fault_of (run_acts (api_step llist_by_list llist_by_list)
     [ListenerNew True 7, ListenerInit LISTENER_TYPE_AUTHORIZATION True NABTO_EC_OK 7, ListenerStop 7, ListenerFree 7,
      CoreAuthorizationRequest 1] (api_init llist_by_list)) = Some UseAfterFree"
  by code_simp

text \<open>A stream listener whose type is taken is left with a context that was freed.\<close>

lemma stream_listener_failed_init:
  "fault_of (run_acts (api_step llist_by_list llist_by_list)
     [ListenerNew True 7, ListenerInit LISTENER_TYPE_STREAMS True NABTO_EC_RESOURCE_EXISTS 7, ListenerStop 7] (api_init llist_by_list))
     = Some UseAfterFree"
  by code_simp

lemma queue_try_resolve:
  assumes L: "nn_llist_laws L" and inv: "queue_inv L R l t s"
  shows "\<exists>s' out. nabto_device_listener_try_resolve L R l s = Inr ((), s', out) \<and> queue_inv L R l t s' \<and>
    queue_abs L l s' = fst (queue_take (queue_abs L l s)) \<and> visible out = snd (queue_take (queue_abs L l s))"
proof -
  from inv obtain x where ok: "api_ok L R s" and x: "api_listener s l = Some x" "lst_isInitialized x" "lst_type x = t"
    "lst_ec x = NABTO_EC_OK \<or> lst_ec x = NABTO_EC_STOPPED"
    by (auto simp: queue_inv_def)
  have gen: "t \<noteq> LISTENER_TYPE_PASSWORD_REQUESTS \<longrightarrow> lst_genericFutureResolverData x = None"
    using api_ok_listener [OF ok x(1)] x(3) by (simp add: listener_ok_def)
  from try_resolve_ok [OF L ok x(1)] obtain s' out where
    r: "nabto_device_listener_try_resolve L R l s = Inr ((), s', out)" "api_ok L R s'" and
    c: "case (lst_fut x, ll_items L (lst_eventsList x)) of
       (Some fut, ev # evs) \<Rightarrow> \<exists>e'. ll_items L e' = evs \<and> api_listener s' l = Some (x\<lparr>lst_eventsList := e', lst_fut := None\<rparr>) \<and>
         (lst_type x = LISTENER_TYPE_PASSWORD_REQUESTS \<or> lst_genericFutureResolverData x = None \<longrightarrow>
            visible out = [QDeliver ev, QResolve fut NABTO_EC_OK])
     | _ \<Rightarrow> s' = s \<and> out = []" by blast
  show ?thesis
  proof (cases "lst_fut x = None \<or> ll_items L (lst_eventsList x) = []")
    case True
    with c have "s' = s" "out = []" by (auto split: option.splits list.splits)
    with r inv True x show ?thesis by (auto simp: queue_abs_def queue_take_def split: option.splits list.splits)
  next
    case False
    with c r x gen show ?thesis
      by (auto simp: queue_abs_def queue_take_def queue_inv_def neq_Nil_conv split: option.splits list.splits)
  qed
qed

lemma queue_refines:
  assumes L: "nn_llist_laws L" and R: "nn_llist_laws R" and t: "t \<noteq> LISTENER_TYPE_NONE"
    and inv: "queue_inv L R l t s" and lab: "queue_ok t lab"
  shows "\<exists>s'. queue_step L R l t lab s = Inr (s', snd (queue_spec lab (queue_abs L l s))) \<and>
    queue_abs L l s' = fst (queue_spec lab (queue_abs L l s)) \<and> queue_inv L R l t s'"
proof -
  from inv obtain x where ok: "api_ok L R s" and x: "api_listener s l = Some x" "lst_isInitialized x" "lst_type x = t"
    "lst_ec x = NABTO_EC_OK \<or> lst_ec x = NABTO_EC_STOPPED"
    by (auto simp: queue_inv_def)
  have abs: "queue_abs L l s = \<lparr>lq_events = ll_items L (lst_eventsList x), lq_waiting = lst_fut x, lq_stopped = (lst_ec x \<noteq> NABTO_EC_OK)\<rparr>"
    using x by (simp add: queue_abs_def)
  show ?thesis
  proof (cases lab)
    case (QAdd e)
    show ?thesis
    proof (cases "lst_ec x = NABTO_EC_OK")
      case True
      let ?f = "\<lambda>x. x\<lparr>lst_eventsList := ll_append L (lst_eventsList x) e\<rparr>"
      have "listener_ok L (upd_listener l ?f s) l (?f x)"
        using listener_ok_active [OF api_ok_listener [OF ok x(1)] x(2) True] x(2,3) True L lab QAdd
        by (simp add: listener_ok_def ll_items_append)
      then have "api_ok L R (upd_listener l ?f s)"
        by (intro api_ok_same [OF ok x(1) _ _ _ same_shape_upd]) (simp_all add: x same_listener_def)
      then have "queue_inv L R l t (upd_listener l ?f s)" using x by (simp add: queue_inv_def)
      from queue_try_resolve [OF L this] obtain s' out where
        "nabto_device_listener_try_resolve L R l (upd_listener l ?f s) = Inr ((), s', out)" "queue_inv L R l t s'"
        "queue_abs L l s' = fst (queue_take (queue_abs L l (upd_listener l ?f s)))"
        "visible out = snd (queue_take (queue_abs L l (upd_listener l ?f s)))" by blast
      then show ?thesis using True x L
        by (simp add: QAdd show_visible_def call_act_def nabto_device_listener_add_event_def ret_def abs queue_abs_def ll_items_append)
    next
      case False
      with x inv show ?thesis
        by (simp add: QAdd show_visible_def call_act_def nabto_device_listener_add_event_def ret_def abs)
    qed
  next
    case (QWait f a b)
    from ok x(1) t show ?thesis
    proof (cases rule: wait_listener_cases [where fut = f and a = a and b = b])
      case (1 ec)
      with x inv show ?thesis by (auto simp: QWait show_visible_def call_act_def abs)
    next
      case (2 s1 o1 y)
      have "queue_inv L R l t s1" using 2 x by (simp add: queue_inv_def same_listener_def)
      from queue_try_resolve [OF L this] 2 x show ?thesis
        by (auto simp: QWait show_visible_def call_act_def abs queue_abs_def)
    qed
  next
    case QStop
    show ?thesis
    proof (cases "lst_ec x = NABTO_EC_OK")
      case True
      from set_error_code_ok [OF L R ok x(1,2) True, of NABTO_EC_STOPPED] obtain s' out e' where
        "nabto_device_listener_set_error_code L R l NABTO_EC_STOPPED s = Inr ((), s', out)" "api_ok L R s'" "ll_items L e' = []"
        "api_listener s' l = Some (x\<lparr>lst_ec := NABTO_EC_STOPPED, lst_eventsList := e', lst_fut := None, lst_cb := None\<rparr>)"
        "visible out = (case lst_fut x of None \<Rightarrow> [] | Some f \<Rightarrow> [QResolve f NABTO_EC_STOPPED])" by auto
      with True x show ?thesis
        by (simp add: QStop show_visible_def call_act_def nabto_device_listener_stop_def nabto_device_listener_stop_internal_def
            ret_def abs queue_abs_def queue_inv_def)
    next
      case False
      with x inv show ?thesis
        by (simp add: QStop show_visible_def call_act_def nabto_device_listener_stop_def nabto_device_listener_stop_internal_def ret_def abs)
    qed
  qed
qed

lemma queue_refinement:
  assumes "nn_llist_laws L" "nn_llist_laws R" "t \<noteq> LISTENER_TYPE_NONE"
  shows "refinement (queue_ok t) (queue_inv L R l t) (queue_abs L l) (queue_step L R l t) queue_spec"
  by unfold_locales (rule queue_refines [OF assms])

text \<open>
  C12. An active listener of any of the six types is a queue: whatever sequence of events, waits and stops follows, the events
  the application gets, the codes its futures are resolved with, and the order of both are those of
  the specification. No event is lost, repeated or overtaken; a future is resolved once; a second wait while one is pending is
  refused; after a stop every wait is answered with \<open>NABTO_EC_STOPPED\<close> and no event is delivered.
\<close>

theorem listener_is_queue:
  assumes "nn_llist_laws L" "nn_llist_laws R" "api_reachable L R s"
    and "api_listener s l = Some x" "lst_isInitialized x" "lst_ec x = NABTO_EC_OK" "lst_type x = t"
    and "list_all (queue_ok t) labs"
  shows "\<exists>s'. run_acts (queue_step L R l t) labs s = Inr (s', snd (run_spec queue_spec labs (queue_abs L l s))) \<and>
    queue_abs L l s' = fst (run_spec queue_spec labs (queue_abs L l s))"
proof -
  have ok: "api_ok L R s" by (rule api_reachable_ok [OF assms(1-3)])
  with assms(4-7) have inv: "queue_inv L R l t s" by (simp add: queue_inv_def)
  have t: "t \<noteq> LISTENER_TYPE_NONE" using api_ok_listener [OF ok assms(4)] assms(5,7) by (auto simp: listener_ok_def)
  from refinement.run_refines [OF queue_refinement [OF assms(1,2) t] inv assms(8)] show ?thesis by blast
qed

theorem listener_is_queue_witness:
  "\<exists>s out x. run_acts (api_step llist_by_list llist_by_list) demo_program (api_init llist_by_list) = Inr (s, out) \<and>
     api_listener s 7 = Some x \<and>
     (\<exists>s'. run_acts (queue_step llist_by_list llist_by_list 7 LISTENER_TYPE_STREAMS) [QAdd (EvStream 4), QWait 1 100 0, QStop] s
        = Inr (s', snd (run_spec queue_spec [QAdd (EvStream 4), QWait 1 100 0, QStop] (queue_abs llist_by_list 7 s))))"
proof -
  have "api_allowed_run llist_by_list llist_by_list (demo_program @ [ListenerStop 7]) (api_init llist_by_list)"
    by code_simp
  from api_allowed_run_last [OF api_reachable.start this] obtain s out where
    s: "run_acts (api_step llist_by_list llist_by_list) demo_program (api_init llist_by_list) = Inr (s, out)"
    "api_reachable llist_by_list llist_by_list s" by blast
  have "case run_acts (api_step llist_by_list llist_by_list) demo_program (api_init llist_by_list) of Inl _ \<Rightarrow> False
    | Inr (s, out) \<Rightarrow> (case api_listener s 7 of None \<Rightarrow> False
       | Some x \<Rightarrow> lst_isInitialized x \<and> lst_ec x = NABTO_EC_OK \<and> lst_type x = LISTENER_TYPE_STREAMS)"
    by code_simp
  with s(1) obtain x where x: "api_listener s 7 = Some x" "lst_isInitialized x" "lst_ec x = NABTO_EC_OK" "lst_type x = LISTENER_TYPE_STREAMS"
    by (auto split: option.splits)
  have "list_all (queue_ok LISTENER_TYPE_STREAMS) [QAdd (EvStream 4), QWait 1 100 0, QStop]" by simp
  from listener_is_queue [OF nn_llist_laws_by_list nn_llist_laws_by_list s(2) x this] s(1) x(1) show ?thesis by blast
qed

end
