(* ===== verification/NdAuthorization.thy ===== *)
theory NdAuthorization
  imports NdListener
begin

text \<open>
  Authorization requests of the device API (\<^verbatim>\<open>src/api/nabto_device_authorization.c\<close>). A module of the core creates a request,
  adds attributes to it and either discards it or asks for access; the application decides, and frees
  the request. Both sides own the request: the one that is done last frees it. A pointer to a request is a number.
\<close>

section \<open>State\<close>

record nabto_device_authorization_request =
  ar_attributes :: "(string \<times> string) list"
  ar_connectionReference :: u64
  ar_action :: string
  ar_apiDone :: bool
  ar_platformDone :: bool
  ar_verdict :: bool
  ar_verdictDone :: bool
  ar_verdictEvent :: bool
  ar_verdictCallback :: "nat option"

text \<open>\<open>ar_verdictEvent\<close> says that the event is posted on the event queue. A request that has been freed is none.\<close>

type_synonym auth_state = "nat \<Rightarrow> nabto_device_authorization_request option"

datatype auth_output = AVerdictCallback nat nat bool | AFreed nat

type_synonym auth_act = "(auth_state, auth_output) act"

definition with_request :: "nat \<Rightarrow> (nabto_device_authorization_request \<Rightarrow> auth_act) \<Rightarrow> auth_act" where
  "with_request r f s = (case s r of None \<Rightarrow> Inl UseAfterFree | Some x \<Rightarrow> f x s)"

definition put_request :: "nat \<Rightarrow> nabto_device_authorization_request \<Rightarrow> auth_state \<Rightarrow> auth_state" where
  "put_request r x s = s(r \<mapsto> x)"

section \<open>The platform's side\<close>

text \<open>The flags say whether there is memory for the request, and whether its event can be created.\<close>

definition create_request :: "bool \<Rightarrow> bool \<Rightarrow> nat \<Rightarrow> u64 \<Rightarrow> string \<Rightarrow> auth_act" where
  "create_request mem event r ref action s =
     (if \<not> mem then Inl NullPointer
      else if \<not> event then emit [] s
      else emit [] (put_request r \<lparr>ar_attributes = [], ar_connectionReference = ref, ar_action = action, ar_apiDone = True,
             ar_platformDone = False, ar_verdict = False, ar_verdictDone = False, ar_verdictEvent = False,
             ar_verdictCallback = None\<rparr> s))"

definition free_request_when_unused :: "nat \<Rightarrow> auth_act" where
  "free_request_when_unused r = with_request r (\<lambda>_ s. emit [AFreed r] (s(r := None)))"

definition discard_request :: "nat \<Rightarrow> auth_act" where
  "discard_request r = with_request r (\<lambda>x s.
     let s1 = put_request r (x\<lparr>ar_platformDone := True\<rparr>) s in
     if ar_apiDone x then free_request_when_unused r s1 else emit [] s1)"

definition handle_verdict :: "nat \<Rightarrow> auth_act" where
  "handle_verdict r = with_request r (\<lambda>x s.
     obind (deref (ar_verdictCallback x)) (\<lambda>cb.
       let s1 = put_request r (x\<lparr>ar_platformDone := True, ar_verdictEvent := False\<rparr>) s in
       andThen (emit [AVerdictCallback r cb (ar_verdict x)])
         (if ar_apiDone x then free_request_when_unused r else emit []) s1))"

definition do_verdict :: "nat \<Rightarrow> bool \<Rightarrow> auth_act" where
  "do_verdict r verdict = with_request r (\<lambda>x s.
     if \<not> ar_verdictDone x
     then emit [] (put_request r (x\<lparr>ar_verdict := verdict, ar_verdictDone := True, ar_verdictEvent := True\<rparr>) s)
     else emit [] s)"

text \<open>\<open>added\<close> is the answer of the listener to the request, see \<^const>\<open>authorization_add_request\<close>.\<close>

definition check_access :: "bool \<Rightarrow> nat \<Rightarrow> nat \<Rightarrow> auth_act" where
  "check_access added r callback = with_request r (\<lambda>x s.
     let s1 = put_request r (x\<lparr>ar_apiDone := False, ar_verdictCallback := Some callback\<rparr>) s in
     if added then emit [] s1
     else do_verdict r False (put_request r (x\<lparr>ar_apiDone := True, ar_verdictCallback := Some callback\<rparr>) s1))"

definition add_string_attribute :: "bool \<Rightarrow> nat option \<Rightarrow> string \<Rightarrow> string \<Rightarrow> auth_state \<Rightarrow> (np_error_code \<times> auth_state) outcome" where
  "add_string_attribute mem request key value s =
     (case request of
        None \<Rightarrow> Inr (NABTO_EC_OUT_OF_MEMORY, s)
      | Some r \<Rightarrow>
          (if \<not> mem then Inr (NABTO_EC_OUT_OF_MEMORY, s)
           else case s r of
             None \<Rightarrow> Inl UseAfterFree
           | Some x \<Rightarrow> Inr (NABTO_EC_OK, put_request r (x\<lparr>ar_attributes := (key, value) # ar_attributes x\<rparr>) s)))"

section \<open>The application's side\<close>

definition nabto_device_authorization_request_free :: "nat \<Rightarrow> auth_act" where
  "nabto_device_authorization_request_free r =
     andThen (with_request r (\<lambda>x. if \<not> ar_verdictDone x then do_verdict r False else emit []))
       (with_request r (\<lambda>x s.
         let s1 = put_request r (x\<lparr>ar_apiDone := True\<rparr>) s in
         if ar_platformDone x then free_request_when_unused r s1 else emit [] s1))"

definition nabto_device_authorization_request_verdict :: "nat \<Rightarrow> bool \<Rightarrow> auth_act" where
  "nabto_device_authorization_request_verdict = do_verdict"

definition nabto_device_authorization_request_get_action :: "nat \<Rightarrow> auth_state \<Rightarrow> string outcome" where
  "nabto_device_authorization_request_get_action r s = (case s r of None \<Rightarrow> Inl UseAfterFree | Some x \<Rightarrow> Inr (ar_action x))"

definition nabto_device_authorization_request_get_connection_ref :: "nat \<Rightarrow> auth_state \<Rightarrow> u64 outcome" where
  "nabto_device_authorization_request_get_connection_ref r s =
     (case s r of None \<Rightarrow> Inl UseAfterFree | Some x \<Rightarrow> Inr (ar_connectionReference x))"

text \<open>The walk along the list of attributes: none when the list ends first.\<close>

fun auth_get_attribute :: "(string \<times> string) list \<Rightarrow> nat \<Rightarrow> (string \<times> string) option" where
  "auth_get_attribute [] index = None"
| "auth_get_attribute (a # as) 0 = Some a"
| "auth_get_attribute (a # as) (Suc index) = auth_get_attribute as index"

fun get_attributes_size :: "(string \<times> string) list \<Rightarrow> nat" where
  "get_attributes_size [] = 0"
| "get_attributes_size (_ # as) = Suc (get_attributes_size as)"

definition nabto_device_authorization_request_get_attributes_size :: "nat \<Rightarrow> auth_state \<Rightarrow> nat outcome" where
  "nabto_device_authorization_request_get_attributes_size r s =
     (case s r of None \<Rightarrow> Inl UseAfterFree | Some x \<Rightarrow> Inr (get_attributes_size (ar_attributes x)))"

definition nabto_device_authorization_request_get_attribute_name :: "nat \<Rightarrow> nat \<Rightarrow> auth_state \<Rightarrow> string outcome" where
  "nabto_device_authorization_request_get_attribute_name r index s =
     (case s r of None \<Rightarrow> Inl UseAfterFree
      | Some x \<Rightarrow> obind (deref (auth_get_attribute (ar_attributes x) index)) (\<lambda>a. Inr (fst a)))"

definition nabto_device_authorization_request_get_attribute_value :: "nat \<Rightarrow> nat \<Rightarrow> auth_state \<Rightarrow> string outcome" where
  "nabto_device_authorization_request_get_attribute_value r index s =
     (case s r of None \<Rightarrow> Inl UseAfterFree
      | Some x \<Rightarrow> obind (deref (auth_get_attribute (ar_attributes x) index)) (\<lambda>a. Inr (snd a)))"

section \<open>Specification\<close>

datatype auth_label =
    ACreate nat u64 string
  | AAttribute nat string string
  | ADiscard nat
  | ACheck bool nat nat
  | AVerdictEvent nat
  | AVerdict nat bool
  | AFree nat

fun auth_step :: "auth_label \<Rightarrow> auth_act" where
  "auth_step (ACreate r ref action) s = create_request True True r ref action s"
| "auth_step (AAttribute r key value) s = obind (add_string_attribute True (Some r) key value s) (\<lambda>(_, s1). Inr (s1, []))"
| "auth_step (ADiscard r) s = discard_request r s"
| "auth_step (ACheck added r callback) s = check_access added r callback s"
| "auth_step (AVerdictEvent r) s = handle_verdict r s"
| "auth_step (AVerdict r v) s = nabto_device_authorization_request_verdict r v s"
| "auth_step (AFree r) s = nabto_device_authorization_request_free r s"

text \<open>
  The life of a request. \<open>ACreated\<close>: the platform fills it. \<open>AAsked\<close>: the application has it and has not decided.
  \<open>ADecided\<close>: the application has it and has decided, and the answer is on its way. \<open>AAnswered\<close>: the platform has its
  answer, the application still has the request. \<open>ALeft\<close>: the application is done, the answer is on its way.
\<close>

datatype auth_phase = ANone | ACreated | AAsked nat | ADecided nat bool | AAnswered | ALeft nat bool | AGone

fun label_request :: "auth_label \<Rightarrow> nat" where
  "label_request (ACreate r _ _) = r"
| "label_request (AAttribute r _ _) = r"
| "label_request (ADiscard r) = r"
| "label_request (ACheck _ r _) = r"
| "label_request (AVerdictEvent r) = r"
| "label_request (AVerdict r _) = r"
| "label_request (AFree r) = r"

text \<open>What each side may do in each phase, and what follows; none where the step is not allowed.\<close>

fun auth_spec :: "auth_label \<Rightarrow> auth_phase \<Rightarrow> (auth_phase \<times> auth_output list) option" where
  "auth_spec (ACreate r _ _) ANone = Some (ACreated, [])"
| "auth_spec (AAttribute r _ _) ACreated = Some (ACreated, [])"
| "auth_spec (ADiscard r) ACreated = Some (AGone, [AFreed r])"
| "auth_spec (ACheck added r cb) ACreated = Some (if added then AAsked cb else ALeft cb False, [])"
| "auth_spec (AVerdict r v) (AAsked cb) = Some (ADecided cb v, [])"
| "auth_spec (AVerdict r v) (ADecided cb w) = Some (ADecided cb w, [])"
| "auth_spec (AVerdict r v) AAnswered = Some (AAnswered, [])"
| "auth_spec (AFree r) (AAsked cb) = Some (ALeft cb False, [])"
| "auth_spec (AFree r) (ADecided cb v) = Some (ALeft cb v, [])"
| "auth_spec (AFree r) AAnswered = Some (AGone, [AFreed r])"
| "auth_spec (AVerdictEvent r) (ADecided cb v) = Some (AAnswered, [AVerdictCallback r cb v])"
| "auth_spec (AVerdictEvent r) (ALeft cb v) = Some (AGone, [AVerdictCallback r cb v, AFreed r])"
| "auth_spec _ _ = None"

fun auth_run :: "auth_label list \<Rightarrow> (nat \<Rightarrow> auth_phase) \<Rightarrow> ((nat \<Rightarrow> auth_phase) \<times> auth_output list) option" where
  "auth_run [] ph = Some (ph, [])"
| "auth_run (l # ls) ph =
     (case auth_spec l (ph (label_request l)) of
        None \<Rightarrow> None
      | Some (p, out) \<Rightarrow>
          (case auth_run ls (ph(label_request l := p)) of None \<Rightarrow> None | Some (ph', out') \<Rightarrow> Some (ph', out @ out')))"

fun phase_of :: "nabto_device_authorization_request option \<Rightarrow> auth_phase \<Rightarrow> bool" where
  "phase_of None p \<longleftrightarrow> p = ANone \<or> p = AGone"
| "phase_of (Some x) ANone \<longleftrightarrow> False"
| "phase_of (Some x) AGone \<longleftrightarrow> False"
| "phase_of (Some x) ACreated \<longleftrightarrow> ar_apiDone x \<and> \<not> ar_platformDone x \<and> \<not> ar_verdictDone x \<and> \<not> ar_verdictEvent x"
| "phase_of (Some x) (AAsked cb) \<longleftrightarrow>
     \<not> ar_apiDone x \<and> \<not> ar_platformDone x \<and> \<not> ar_verdictDone x \<and> \<not> ar_verdictEvent x \<and> ar_verdictCallback x = Some cb"
| "phase_of (Some x) (ADecided cb v) \<longleftrightarrow>
     \<not> ar_apiDone x \<and> \<not> ar_platformDone x \<and> ar_verdictDone x \<and> ar_verdictEvent x \<and> ar_verdictCallback x = Some cb \<and> ar_verdict x = v"
| "phase_of (Some x) AAnswered \<longleftrightarrow> \<not> ar_apiDone x \<and> ar_platformDone x \<and> ar_verdictDone x \<and> \<not> ar_verdictEvent x"
| "phase_of (Some x) (ALeft cb v) \<longleftrightarrow>
     ar_apiDone x \<and> \<not> ar_platformDone x \<and> ar_verdictDone x \<and> ar_verdictEvent x \<and> ar_verdictCallback x = Some cb \<and> ar_verdict x = v"

text \<open>The answers of a request, and how often it was freed.\<close>

fun answers_of :: "nat \<Rightarrow> auth_output list \<Rightarrow> bool list" where
  "answers_of r [] = []"
| "answers_of r (AVerdictCallback r' cb v # out) = (if r' = r then v # answers_of r out else answers_of r out)"
| "answers_of r (_ # out) = answers_of r out"

fun frees_of :: "nat \<Rightarrow> auth_output list \<Rightarrow> nat" where
  "frees_of r [] = 0"
| "frees_of r (AFreed r' # out) = (if r' = r then Suc (frees_of r out) else frees_of r out)"
| "frees_of r (_ # out) = frees_of r out"

fun first_verdict :: "nat \<Rightarrow> auth_label list \<Rightarrow> bool option" where
  "first_verdict r [] = None"
| "first_verdict r (AVerdict r' v # ls) = (if r' = r then Some v else first_verdict r ls)"
| "first_verdict r (_ # ls) = first_verdict r ls"

text \<open>What has happened to a request in each phase.\<close>

fun phase_history :: "auth_phase \<Rightarrow> bool option \<Rightarrow> bool list \<Rightarrow> nat \<Rightarrow> bool" where
  "phase_history ANone d as n \<longleftrightarrow> d = None \<and> as = [] \<and> n = 0"
| "phase_history ACreated d as n \<longleftrightarrow> d = None \<and> as = [] \<and> n = 0"
| "phase_history (AAsked _) d as n \<longleftrightarrow> d = None \<and> as = [] \<and> n = 0"
| "phase_history (ADecided _ v) d as n \<longleftrightarrow> d = Some v \<and> as = [] \<and> n = 0"
| "phase_history AAnswered d as n \<longleftrightarrow> (\<exists>v. d = Some v \<and> as = [v]) \<and> n = 0"
| "phase_history (ALeft _ v) d as n \<longleftrightarrow> v = (d = Some True) \<and> as = [] \<and> n = 0"
| "phase_history AGone d as n \<longleftrightarrow> (as = [] \<or> as = [d = Some True]) \<and> n = 1"

text \<open>Two requests: one is granted, the other finds no listener.\<close>

definition auth_demo :: "auth_label list" where
  "auth_demo = [ACreate 1 7 ''A'', ACheck True 1 9, ACreate 2 7 ''B'', ACheck False 2 8, AVerdict 1 True, AFree 1,
     AVerdictEvent 2, AVerdictEvent 1]"

section \<open>The life of a request\<close>

lemmas auth_defs = with_request_def put_request_def create_request_def free_request_when_unused_def discard_request_def
  handle_verdict_def do_verdict_def check_access_def add_string_attribute_def nabto_device_authorization_request_free_def
  nabto_device_authorization_request_verdict_def

lemma auth_step_refines:
  assumes "phase_of (s (label_request l)) p" "auth_spec l p = Some (q, out)"
  shows "\<exists>s'. auth_step l s = Inr (s', out) \<and> phase_of (s' (label_request l)) q \<and> (\<forall>r. r \<noteq> label_request l \<longrightarrow> s' r = s r)"
  using assms
  by (cases "(l, p)" rule: auth_spec.cases; cases "s (label_request l)")
    (auto simp: auth_defs act_simps Let_def andThen_def split: if_splits)

lemma auth_run_refines:
  assumes "\<And>r. phase_of (s r) (ph r)" "auth_run ls ph = Some (ph', out)"
  shows "\<exists>s'. run_acts auth_step ls s = Inr (s', out) \<and> (\<forall>r. phase_of (s' r) (ph' r))"
  using assms
proof (induction ls arbitrary: s ph out)
  case (Cons l ls)
  from Cons.prems(2) obtain q o1 o2 where q: "auth_spec l (ph (label_request l)) = Some (q, o1)"
    "auth_run ls (ph(label_request l := q)) = Some (ph', o2)" "out = o1 @ o2"
    by (auto split: option.splits)
  from auth_step_refines [of s l, OF Cons.prems(1) q(1)] obtain s1 where
    s1: "auth_step l s = Inr (s1, o1)" "phase_of (s1 (label_request l)) q" "\<forall>r. r \<noteq> label_request l \<longrightarrow> s1 r = s r" by blast
  have "phase_of (s1 r) ((ph(label_request l := q)) r)" for r using s1 Cons.prems(1) by (cases "r = label_request l") auto
  from Cons.IH [OF this q(2)] obtain s' where "run_acts auth_step ls s1 = Inr (s', o2)" "\<forall>r. phase_of (s' r) (ph' r)" by blast
  with s1 q show ?case by (auto simp: andThen_def)
qed auto

lemma first_verdict_append:
  "first_verdict r (ks @ ls) = (case first_verdict r ks of None \<Rightarrow> first_verdict r ls | Some v \<Rightarrow> Some v)"
  by (induction r ks rule: first_verdict.induct) simp_all

lemma answers_of_append [simp]: "answers_of r (xs @ ys) = answers_of r xs @ answers_of r ys"
  by (induction r xs rule: answers_of.induct) simp_all

lemma frees_of_append [simp]: "frees_of r (xs @ ys) = frees_of r xs + frees_of r ys"
  by (induction r xs rule: frees_of.induct) simp_all

lemma auth_run_append:
  "auth_run (ks @ ls) ph = (case auth_run ks ph of None \<Rightarrow> None
     | Some (ph1, o1) \<Rightarrow> (case auth_run ls ph1 of None \<Rightarrow> None | Some (ph2, o2) \<Rightarrow> Some (ph2, o1 @ o2)))"
  by (induction ks arbitrary: ph) (auto split: option.splits prod.splits)

lemma auth_spec_history:
  assumes "phase_history p (first_verdict r ls) (answers_of r out) (frees_of r out)" "auth_spec l p = Some (q, o1)" "label_request l = r"
  shows "phase_history q (first_verdict r (ls @ [l])) (answers_of r (out @ o1)) (frees_of r (out @ o1))"
  using assms
  by (cases "(l, p)" rule: auth_spec.cases)
    (auto simp: first_verdict_append split: option.splits if_splits)

lemma auth_spec_other:
  assumes "auth_spec l p = Some (q, o1)" "label_request l \<noteq> r"
  shows "first_verdict r (ls @ [l]) = first_verdict r ls" "answers_of r o1 = []" "frees_of r o1 = 0"
  using assms
  by (cases "(l, p)" rule: auth_spec.cases; auto simp: first_verdict_append split: option.splits if_splits)+

lemma auth_run_history:
  "auth_run ls (\<lambda>_. ANone) = Some (ph, out) \<Longrightarrow> phase_history (ph r) (first_verdict r ls) (answers_of r out) (frees_of r out)"
proof (induction ls arbitrary: ph out rule: rev_induct)
  case (snoc l ls)
  from snoc.prems obtain ph1 o1 q o2 where run: "auth_run ls (\<lambda>_. ANone) = Some (ph1, o1)"
    and step: "auth_spec l (ph1 (label_request l)) = Some (q, o2)" "ph = ph1(label_request l := q)" "out = o1 @ o2"
    by (auto simp: auth_run_append split: option.splits)
  show ?case
  proof (cases "label_request l = r")
    case True
    with auth_spec_history [where p = "ph1 r" and r = r and out = o1, OF snoc.IH [OF run], of l q o2] step show ?thesis by simp
  next
    case False
    with auth_spec_other [OF step(1) False] snoc.IH [OF run] step show ?thesis by simp
  qed
qed simp



text \<open>The attributes are read back in the reverse order; there is no check of the index.\<close>

lemma auth_get_attribute_nth:
  "auth_get_attribute as i = (if i < get_attributes_size as then Some (as ! i) else None)"
  by (induction as i rule: auth_get_attribute.induct) auto

lemma attribute_index_out_of_range:
  "s r = Some x \<Longrightarrow> get_attributes_size (ar_attributes x) \<le> i \<Longrightarrow>
     nabto_device_authorization_request_get_attribute_name r i s = Inl NullPointer"
  by (simp add: nabto_device_authorization_request_get_attribute_name_def auth_get_attribute_nth)

end
