(* ===== verification/NcSpake2.thy ===== *)
theory NcSpake2
  imports NcClientConnection NcCoap
begin

text \<open>
  Password authentication with SPAKE2 (\<^verbatim>\<open>src/core/nc_spake2.c\<close> and \<^verbatim>\<open>nc_spake2_coap.c\<close>). The elliptic curve, the big numbers and the
  hash function belong to mbedtls, which is not part of the repository: they are the fields of a record. The points
  have the operations of an abelian group, and the laws say which of them the functions of mbedtls compute.
\<close>

section \<open>The functions of mbedtls\<close>

text \<open>
  A function that can fail returns none. \<open>ecp_N\<close> is the order of the group, \<open>ecp_zero\<close> a point that has been
  initialised, and \<open>mpi_write_binary n s\<close> the big-endian digits of \<open>n\<close> in \<open>s\<close> bytes.
\<close>

record 'p mbedtls_ecp =
  ecp_N :: int
  ecp_zero :: 'p
  ecp_read_binary :: "u8 list \<Rightarrow> 'p option"
  ecp_write_binary :: "'p \<Rightarrow> u8 list option"
  ecp_muladd :: "int \<Rightarrow> 'p \<Rightarrow> int \<Rightarrow> 'p \<Rightarrow> 'p option"
  mpi_read_binary :: "u8 list \<Rightarrow> int"
  mpi_size :: "int \<Rightarrow> nat"
  mpi_write_binary :: "int \<Rightarrow> nat \<Rightarrow> u8 list option"
  sha256 :: "u8 list \<Rightarrow> u8 list"

text \<open>
  The reader of CBOR with byte strings: \<open>cbor_copy_bytes v n\<close> is what \<open>cbor_value_copy_byte_string\<close> writes into a buffer of
  \<open>n\<close> bytes.
\<close>

record 'v tinycbor_bytes = "'v tinycbor" +
  cbor_copy_bytes :: "'v \<Rightarrow> nat \<Rightarrow> u8 list"

section \<open>The key\<close>

definition Mdata :: "u8 list" where
  "Mdata = [0x04, 0x88, 0x6e, 0x2f, 0x97, 0xac, 0xe4, 0x6e, 0x55, 0xba, 0x9d, 0xd7, 0x24, 0x25, 0x79, 0xf2, 0x99, 0x3b,
     0x64, 0xe1, 0x6e, 0xf3, 0xdc, 0xab, 0x95, 0xaf, 0xd4, 0x97, 0x33, 0x3d, 0x8f, 0xa1, 0x2f, 0x5f, 0xf3, 0x55, 0x16, 0x3e,
     0x43, 0xce, 0x22, 0x4e, 0x0b, 0x0e, 0x65, 0xff, 0x02, 0xac, 0x8e, 0x5c, 0x7b, 0xe0, 0x94, 0x19, 0xc7, 0x85, 0xe0, 0xca,
     0x54, 0x7d, 0x55, 0xa1, 0x2e, 0x2d, 0x20]"

definition Ndata :: "u8 list" where
  "Ndata = [0x04, 0xd8, 0xbb, 0xd6, 0xc6, 0x39, 0xc6, 0x29, 0x37, 0xb0, 0x4d, 0x99, 0x7f, 0x38, 0xc3, 0x77, 0x07, 0x19,
     0xc6, 0x29, 0xd7, 0x01, 0x4d, 0x49, 0xa2, 0x4b, 0x4f, 0x98, 0xba, 0xa1, 0x29, 0x2b, 0x49, 0x07, 0xd6, 0x0a, 0xa6, 0xbf,
     0xad, 0xe4, 0x50, 0x08, 0xa6, 0x36, 0x33, 0x7f, 0x51, 0x68, 0xc6, 0x4d, 0x9b, 0xd3, 0x60, 0x34, 0x80, 0x8c, 0xd5, 0x64,
     0x49, 0x0b, 0x1e, 0x65, 0x6e, 0xdb, 0xe7]"

text \<open>
  A hash context is the list of the bytes that were added. The parts return whether the status is zero, and the bytes they add.
\<close>

definition hashLength :: "u32 \<Rightarrow> u8 list" where
  "hashLength val = [ucast (drop_bit 24 val), ucast (drop_bit 16 val), ucast (drop_bit 8 val), ucast val]"

definition hashData :: "u8 list \<Rightarrow> u8 list" where
  "hashData d = hashLength (of_nat (length d)) @ d"

text \<open>The length is not set when the point cannot be written.\<close>

definition hashPoint :: "'p mbedtls_ecp \<Rightarrow> 'p \<Rightarrow> u8 list outcome" where
  "hashPoint E p = (case ecp_write_binary E p of None \<Rightarrow> Inl Uninitialized | Some buffer \<Rightarrow> Inr (hashData buffer))"

definition hashMpi :: "'p mbedtls_ecp \<Rightarrow> int \<Rightarrow> (bool \<times> u8 list) outcome" where
  "hashMpi E n =
     (let s = mpi_size E n in
      if s > 256 then Inr (False, [])
      else case mpi_write_binary E n s of None \<Rightarrow> Inl Uninitialized | Some buffer \<Rightarrow> Inr (True, hashData buffer))"

text \<open>A call that sets a status and leaves its target unchanged when it fails.\<close>

definition attempt :: "'a option \<Rightarrow> 'a \<Rightarrow> bool \<times> 'a" where
  "attempt r old = (case r of None \<Rightarrow> (False, old) | Some x \<Rightarrow> (True, x))"

text \<open>
  \<open>keypair\<close> is the pair \<open>y\<close>, \<open>Y\<close> that was generated and \<open>rnd\<close> the random bytes for the case without a password, none when the
  generator fails. The result says whether all calls succeeded, and has the point \<open>S\<close> and the key.
\<close>

definition calculateKey ::
    "'p mbedtls_ecp \<Rightarrow> (int \<times> 'p) option \<Rightarrow> u8 list option \<Rightarrow> 'p \<Rightarrow> u8 list option \<Rightarrow> u8 list \<Rightarrow> u8 list
       \<Rightarrow> (bool \<times> 'p \<times> u8 list) outcome" where
  "calculateKey E keypair rnd T password fingerprintClient fingerprintDevice =
     (let (ok1, M) = attempt (ecp_read_binary E Mdata) (ecp_zero E);
          (ok2, N) = attempt (ecp_read_binary E Ndata) (ecp_zero E);
          (ok3, (y, Y)) = attempt keypair (0, ecp_zero E) in
      obind (case password of
               None \<Rightarrow> (case rnd of None \<Rightarrow> Inl Uninitialized | Some h \<Rightarrow> Inr h)
             | Some p \<Rightarrow> Inr (sha256 E p)) (\<lambda>passwordHash.
      let w = mpi_read_binary E passwordHash;
          (ok4, S) = attempt (ecp_muladd E w N 1 Y) (ecp_zero E);
          tmp = (- 1 * y * w) mod ecp_N E;
          (ok5, K) = attempt (ecp_muladd E y T tmp M) (ecp_zero E) in
      obind (hashPoint E T) (\<lambda>hT.
      obind (hashPoint E S) (\<lambda>hS.
      obind (hashPoint E K) (\<lambda>hK.
      obind (hashMpi E w) (\<lambda>(ok6, hw).
        Inr (ok1 \<and> ok2 \<and> ok3 \<and> ok4 \<and> ok5 \<and> ok6, S,
             sha256 E (hashData fingerprintClient @ hashData fingerprintDevice @ hT @ hS @ hK @ hw))))))))"

section \<open>Requests for a password\<close>

definition NC_SPAKE2_USERNAME_MAX_LENGTH :: nat where "NC_SPAKE2_USERNAME_MAX_LENGTH = 32"
definition NC_SPAKE2_MAX_PASSWORD_AUTHENTICATION_REQUESTS :: nat where "NC_SPAKE2_MAX_PASSWORD_AUTHENTICATION_REQUESTS = 6"

record 'p nc_spake2_password_request =
  pr_username :: "char list"
  pr_T :: 'p

record nc_spake2_module =
  sp_passwordRequestHandler :: "nat option"
  sp_spake21 :: bool
  sp_spake22 :: bool

datatype 'p spake2_output =
    SpError nat nat
  | SpResponse nat "u8 list"
  | SpPasswordRequest nat "'p nc_spake2_password_request"
  | SpCoapFree
  | SpRequestFree

definition nc_spake2_init :: nc_spake2_module where
  "nc_spake2_init = \<lparr>sp_passwordRequestHandler = None, sp_spake21 = False, sp_spake22 = False\<rparr>"

definition nc_spake2_clear_password_request_callback :: "nc_spake2_module \<Rightarrow> nc_spake2_module" where
  "nc_spake2_clear_password_request_callback m = m\<lparr>sp_passwordRequestHandler := None\<rparr>"

definition nc_spake2_set_password_request_callback :: "nat \<Rightarrow> nc_spake2_module \<Rightarrow> np_error_code \<times> nc_spake2_module" where
  "nc_spake2_set_password_request_callback handler m =
     (if sp_passwordRequestHandler m \<noteq> None then (NABTO_EC_IN_USE, m)
      else (NABTO_EC_OK, m\<lparr>sp_passwordRequestHandler := Some handler\<rparr>))"

definition nc_spake2_password_request_new :: "'p mbedtls_ecp \<Rightarrow> bool \<Rightarrow> 'p nc_spake2_password_request option" where
  "nc_spake2_password_request_new E mem =
     (if \<not> mem then None
      else Some \<lparr>pr_username = replicate (NC_SPAKE2_USERNAME_MAX_LENGTH + 1) NUL, pr_T = ecp_zero E\<rparr>)"

definition nc_spake2_password_request_free :: "'p nc_spake2_password_request option \<Rightarrow> 'p spake2_output list" where
  "nc_spake2_password_request_free r = (case r of None \<Rightarrow> [] | Some _ \<Rightarrow> [SpRequestFree])"

text \<open>
  \<open>conn\<close> is the connection of the CoAP request, none when it is closed; the fingerprints are none when the DTLS
  module cannot give them.
\<close>

definition nc_spake2_password_ready ::
    "'p mbedtls_ecp \<Rightarrow> (int \<times> 'p) option \<Rightarrow> u8 list option \<Rightarrow> u8 list option \<Rightarrow> u8 list option
       \<Rightarrow> 'p nc_spake2_password_request \<Rightarrow> u8 list option \<Rightarrow> nc_client_connection option
       \<Rightarrow> (nc_client_connection option \<times> 'p spake2_output list) outcome" where
  "nc_spake2_password_ready E keypair rnd fpClient fpDevice req password conn =
     (case conn of
        None \<Rightarrow> Inr (None, [SpError 5 0, SpCoapFree, SpRequestFree])
      | Some connection \<Rightarrow>
          (case (fpClient, fpDevice) of
             (Some fingerprintClient, Some fingerprintDevice) \<Rightarrow>
               obind (calculateKey E keypair rnd (pr_T req) password fingerprintClient fingerprintDevice) (\<lambda>(ok, S, key).
                 let c1 = connection\<lparr>spake2Key := key\<rparr> in
                 case (ok, ecp_write_binary E S) of
                   (True, Some buffer) \<Rightarrow>
                     Inr (Some (c1\<lparr>hasSpake2Key := True\<rparr>), [SpResponse 201 buffer, SpCoapFree, SpRequestFree])
                 | _ \<Rightarrow> Inr (Some c1, [SpError 5 0, SpCoapFree, SpRequestFree]))
           | _ \<Rightarrow> Inl Uninitialized))"

section \<open>The CoAP endpoints\<close>

text \<open>The answers of the CoAP server for the two resources; only the second one is looked at.\<close>

definition nc_spake2_coap_init :: "nabto_coap_error \<Rightarrow> nabto_coap_error \<Rightarrow> nc_spake2_module \<Rightarrow> np_error_code \<times> nc_spake2_module" where
  "nc_spake2_coap_init err1 err2 m =
     (nc_coap_error_to_core err2,
      m\<lparr>sp_spake21 := (if err1 = NABTO_COAP_ERROR_OK then True else sp_spake21 m),
        sp_spake22 := (if err2 = NABTO_COAP_ERROR_OK then True else sp_spake22 m)\<rparr>)"

definition nc_spake2_coap_deinit :: "nc_spake2_module \<Rightarrow> nc_spake2_module" where
  "nc_spake2_coap_deinit m = m\<lparr>sp_spake21 := False, sp_spake22 := False\<rparr>"

definition read_text_string :: "'v tinycbor_bytes \<Rightarrow> 'v \<Rightarrow> char list \<Rightarrow> nat \<Rightarrow> (bool \<times> char list) outcome" where
  "read_text_string C v out maxLength =
     (if \<not> cbor_is_text C v then Inr (False, out)
      else case cbor_calculate_string_length C v of
        None \<Rightarrow> Inl Uninitialized
      | Some strLength \<Rightarrow>
          if strLength > maxLength then Inr (False, out) else Inr (True, cbor_copy_text C v strLength out))"

definition read_group_element :: "'v tinycbor_bytes \<Rightarrow> 'p mbedtls_ecp \<Rightarrow> 'v \<Rightarrow> 'p option outcome" where
  "read_group_element C E v =
     (if \<not> cbor_is_bytes C v then Inr None
      else case cbor_calculate_string_length C v of
        None \<Rightarrow> Inl Uninitialized
      | Some n \<Rightarrow> if n > 256 then Inr None else Inr (ecp_read_binary E (take n (cbor_copy_bytes C v n))))"

text \<open>The search in a map needs a map, which is not checked.\<close>

definition read_username_and_password ::
    "'v tinycbor_bytes \<Rightarrow> 'p mbedtls_ecp \<Rightarrow> u8 list \<Rightarrow> 'p nc_spake2_password_request \<Rightarrow> 'p nc_spake2_password_request option outcome" where
  "read_username_and_password C E payload req =
     (let m = cbor_parser_init C payload in
      if \<not> cbor_is_map C m then Inl WrongType
      else obind (read_group_element C E (cbor_map_find C m ''T'')) (\<lambda>p.
        case p of
          None \<Rightarrow> Inr None
        | Some T \<Rightarrow>
            obind (read_text_string C (cbor_map_find C m ''Username'') (pr_username req) NC_SPAKE2_USERNAME_MAX_LENGTH) (\<lambda>(ok, name).
              Inr (if ok then Some (req\<lparr>pr_T := T, pr_username := name\<rparr>) else None))))"

text \<open>
  A request: its content format, negative when there is none, and its payload. The format for CBOR,
  \<open>NABTO_COAP_CONTENT_FORMAT_APPLICATION_CBOR\<close>, is 60.
\<close>

record spake2_coap_request =
  scr_format :: int
  scr_payload :: "u8 list option"

definition count_attempt :: "nc_client_connection \<Rightarrow> nc_client_connection" where
  "count_attempt c = c\<lparr>passwordAuthenticationRequests := (passwordAuthenticationRequests c + 1) mod 2 ^ 64\<rparr>"

definition nc_spake2_handle_coap_1 ::
    "'v tinycbor_bytes \<Rightarrow> 'p mbedtls_ecp \<Rightarrow> bool \<Rightarrow> nc_spake2_module \<Rightarrow> spake2_coap_request \<Rightarrow> nc_client_connection option
       \<Rightarrow> (nc_client_connection option \<times> 'p spake2_output list) outcome" where
  "nc_spake2_handle_coap_1 C E mem spake2 request conn =
     obind (deref conn) (\<lambda>c0.
       let c = count_attempt c0; err = (\<lambda>a b. Inr (Some c, [SpError a b, SpCoapFree])) in
       case sp_passwordRequestHandler spake2 of
         None \<Rightarrow> err 4 4
       | Some handler \<Rightarrow>
           if passwordAuthenticationRequests c > NC_SPAKE2_MAX_PASSWORD_AUTHENTICATION_REQUESTS then err 4 29
           else if scr_format request \<noteq> 60 then err 4 15
           else case scr_payload request of
             None \<Rightarrow> err 4 0
           | Some payload \<Rightarrow>
               (case nc_spake2_password_request_new E mem of
                  None \<Rightarrow> err 5 0
                | Some req \<Rightarrow>
                    obind (read_username_and_password C E payload req) (\<lambda>r.
                      case r of
                        None \<Rightarrow> Inr (Some c, [SpError 4 0] @ nc_spake2_password_request_free (Some req) @ [SpCoapFree])
                      | Some req' \<Rightarrow> Inr (Some c, [SpPasswordRequest handler req']))))"

definition nc_spake2_handle_coap_2 ::
    "'p mbedtls_ecp \<Rightarrow> nc_spake2_module \<Rightarrow> spake2_coap_request \<Rightarrow> nc_client_connection option
       \<Rightarrow> (nc_client_connection option \<times> 'p spake2_output list) outcome" where
  "nc_spake2_handle_coap_2 E spake2 request conn =
     obind (deref conn) (\<lambda>c0.
       let c = count_attempt c0; err = (\<lambda>a b. Inr (Some c, [SpError a b, SpCoapFree])) in
       case sp_passwordRequestHandler spake2 of
         None \<Rightarrow> err 4 4
       | Some _ \<Rightarrow>
           if passwordAuthenticationRequests c > NC_SPAKE2_MAX_PASSWORD_AUTHENTICATION_REQUESTS then err 4 29
           else case scr_payload request of
             None \<Rightarrow> err 4 0
           | Some payload \<Rightarrow>
               if length payload \<noteq> 32 then err 4 0
               else if \<not> hasSpake2Key c then err 4 0
               else let hash1 = sha256 E (spake2Key c); hash2 = sha256 E hash1 in
                 if payload \<noteq> hash2 then err 4 1 else Inr (Some c, [SpResponse 201 hash1, SpCoapFree]))"

section \<open>Specification\<close>

text \<open>A multiple of a point, in the abelian group of the points.\<close>

definition smul :: "int \<Rightarrow> 'p::ab_group_add \<Rightarrow> 'p" where
  "smul k P = (if 0 \<le> k then ((+) P ^^ nat k) 0 else - (((+) P ^^ nat (- k)) 0))"

definition valid_scalar :: "'p mbedtls_ecp \<Rightarrow> int \<Rightarrow> bool" where
  "valid_scalar E k \<longleftrightarrow> 0 < k \<and> k < ecp_N E"

text \<open>
  What the module relies on: the order is a prime number, the sum of two multiples is computed when the factors are valid
  private keys, a point and a number that are written can be read back, and a point takes at most 65 bytes, a number
  below the order at most 32.
\<close>

definition mbedtls_ecp_laws :: "'p::ab_group_add mbedtls_ecp \<Rightarrow> bool" where
  "mbedtls_ecp_laws E \<longleftrightarrow>
     1 < ecp_N E \<and> (\<forall>a b. ecp_N E dvd a * b \<longrightarrow> ecp_N E dvd a \<or> ecp_N E dvd b) \<and>
     (\<forall>P :: 'p. smul (ecp_N E) P = 0) \<and>
     (\<forall>j k P Q. valid_scalar E j \<longrightarrow> valid_scalar E k \<longrightarrow> ecp_muladd E j P k Q = Some (smul j P + smul k Q)) \<and>
     (\<forall>P. \<exists>b. ecp_write_binary E P = Some b \<and> ecp_read_binary E b = Some P \<and> length b \<le> 65) \<and>
     (\<forall>n. valid_scalar E n \<longrightarrow> mpi_size E n \<le> 32 \<and>
        (\<exists>b. mpi_write_binary E n (mpi_size E n) = Some b \<and> length b = mpi_size E n \<and> mpi_read_binary E b = n))"

text \<open>The hashed data of the protocol, and the two sides of it as they are specified.\<close>

definition spake2_transcript :: "'p mbedtls_ecp \<Rightarrow> u8 list \<Rightarrow> u8 list \<Rightarrow> 'p \<Rightarrow> 'p \<Rightarrow> 'p \<Rightarrow> int \<Rightarrow> u8 list" where
  "spake2_transcript E fpC fpD T S K w =
     hashData fpC @ hashData fpD @ hashData (the (ecp_write_binary E T)) @ hashData (the (ecp_write_binary E S)) @
     hashData (the (ecp_write_binary E K)) @ hashData (the (mpi_write_binary E w (mpi_size E w)))"

definition spake2_server :: "'p::ab_group_add mbedtls_ecp \<Rightarrow> 'p \<Rightarrow> 'p \<Rightarrow> int \<Rightarrow> int \<Rightarrow> 'p \<Rightarrow> 'p \<Rightarrow> u8 list \<Rightarrow> u8 list \<Rightarrow> 'p \<times> u8 list" where
  "spake2_server E M N w y Y T fpC fpD =
     (let S = smul w N + Y in (S, sha256 E (spake2_transcript E fpC fpD T S (smul y (T - smul w M)) w)))"

definition spake2_client :: "'p::ab_group_add mbedtls_ecp \<Rightarrow> 'p \<Rightarrow> int \<Rightarrow> int \<Rightarrow> 'p \<Rightarrow> 'p \<Rightarrow> u8 list \<Rightarrow> u8 list \<Rightarrow> u8 list" where
  "spake2_client E N w x T S fpC fpD = sha256 E (spake2_transcript E fpC fpD T S (smul x (S - smul w N)) w)"

text \<open>A group of order two, for the witnesses.\<close>

definition demo_ecp :: "1 word mbedtls_ecp" where
  "demo_ecp =
     \<lparr>ecp_N = 2, ecp_zero = 0,
      ecp_read_binary = (\<lambda>b. if length b = 1 then Some (ucast (hd b)) else Some 1),
      ecp_write_binary = (\<lambda>P. Some [ucast P]),
      ecp_muladd = (\<lambda>j P k Q. Some (of_int j * P + of_int k * Q)),
      mpi_read_binary = (\<lambda>_. 1), mpi_size = (\<lambda>_. 1), mpi_write_binary = (\<lambda>n s. Some (replicate s 1)),
      sha256 = (\<lambda>b. replicate 32 (fold (+) b 0))\<rparr>"

text \<open>A reader for which every payload is a request of the first step.\<close>

definition demo_spake2_cbor :: "cbor tinycbor_bytes" where
  "demo_spake2_cbor =
     (tinycbor.extend (cbor_by_item (CborMap [(CborText ''T'', CborBytes [0]), (CborText ''Username'', CborText ''u'')]))
       (tinycbor_bytes.fields (\<lambda>v n. case v of CborBytes b \<Rightarrow> b | _ \<Rightarrow> [])))
     \<lparr>cbor_calculate_string_length := (\<lambda>v. case v of CborBytes b \<Rightarrow> Some (length b) | _ \<Rightarrow> Some (length (text_of v)))\<rparr>"

text \<open>The steps of a connection: the two requests of the client, and the answer of the application.\<close>

datatype spake2_label =
    Spake2One spake2_coap_request bool
  | Spake2Two spake2_coap_request
  | Spake2Ready "u8 list option" "u8 list option"

text \<open>\<open>env\<close> has what the random generator gives, and the fingerprints of the connection; \<open>req\<close> is the pending request.\<close>

fun spake2_step ::
    "'v tinycbor_bytes \<Rightarrow> 'p mbedtls_ecp \<Rightarrow> (int \<times> 'p) option \<times> u8 list option \<times> u8 list option \<Rightarrow> 'p nc_spake2_password_request
       \<Rightarrow> nc_spake2_module \<Rightarrow> spake2_label \<Rightarrow> (nc_client_connection option, 'p spake2_output) act" where
  "spake2_step C E env req m (Spake2One r mem) c = nc_spake2_handle_coap_1 C E mem m r c"
| "spake2_step C E env req m (Spake2Two r) c = nc_spake2_handle_coap_2 E m r c"
| "spake2_step C E (keypair, fpC, fpD) req m (Spake2Ready rnd password) c = nc_spake2_password_ready E keypair rnd fpC fpD req password c"

fun is_request :: "spake2_label \<Rightarrow> bool" where
  "is_request (Spake2Ready _ _) = False"
| "is_request _ = True"

lemma smul_nat: "smul (int n) P = ((+) P ^^ n) 0"
  by (simp add: smul_def)

lemma smul_Suc: "smul (int (Suc n)) P = P + smul (int n) P"
  by (simp add: smul_nat del: of_nat_Suc)

lemma smul_0 [simp]: "smul 0 P = 0"
  by (simp add: smul_def)

lemma smul_1 [simp]: "smul 1 P = P"
  by (simp add: smul_def)

lemma smul_minus [simp]: "smul (- k) P = - smul k P"
  by (cases "k = 0") (auto simp: smul_def)

lemma smul_succ: "smul (k + 1) P = P + smul k P"
proof (cases "0 \<le> k")
  case True
  then obtain n where "k = int n" using nonneg_int_cases by blast
  then show ?thesis using smul_Suc [of n P] by (simp add: add.commute)
next
  case False
  define n where "n = nat (- k) - 1"
  with False have k: "k = - int (Suc n)" by simp
  then have "k + 1 = - int n" by simp
  then show ?thesis unfolding k by (simp only: smul_minus smul_Suc) simp
qed

lemma smul_add: "smul (j + k) P = smul j P + smul k P"
proof (induction k rule: int_induct [where k = 0])
  case (step1 i)
  have "smul (j + (i + 1)) P = P + smul (j + i) P" using smul_succ [of "j + i" P] by (simp add: add.assoc)
  then show ?case using step1 by (simp add: smul_succ add.left_commute)
next
  case (step2 i)
  have "smul (j + i) P = P + smul (j + (i - 1)) P" using smul_succ [of "j + (i - 1)" P] by (simp add: add.assoc)
  moreover have "smul i P = P + smul (i - 1) P" using smul_succ [of "i - 1" P] by simp
  ultimately show ?case using step2 by (simp add: algebra_simps)
qed simp

lemma smul_diff: "smul (j - k) P = smul j P - smul k P"
  using smul_add [of j "- k" P] by simp

lemma smul_mult: "smul (j * k) P = smul j (smul k P)"
proof (induction j rule: int_induct [where k = 0])
  case (step1 i)
  then show ?case by (simp add: distrib_right smul_add add.commute)
next
  case (step2 i)
  then show ?case by (simp add: left_diff_distrib smul_diff)
qed simp

lemma smul_group_add: "smul k (P + Q) = smul k P + smul k Q"
proof (induction k rule: int_induct [where k = 0])
  case (step1 i)
  then show ?case by (simp add: smul_add algebra_simps)
next
  case (step2 i)
  then show ?case by (simp add: smul_diff algebra_simps)
qed simp

lemma smul_group_minus: "smul k (- P) = - smul k P"
  using smul_mult [of k "-1" P] smul_mult [of "-1" k P] smul_minus [of 1 P] smul_minus [of 1 "smul k P"] by simp

lemma smul_group_diff: "smul k (P - Q) = smul k P - smul k Q"
  using smul_group_add [of k P "- Q"] by (simp add: smul_group_minus)

lemma smul_mod:
  fixes P :: "'p::ab_group_add"
  assumes "\<And>P :: 'p. smul n P = 0"
  shows "smul (k mod n) P = smul k P"
proof -
  have "smul k P = smul (k div n) (smul n P) + smul (k mod n) P"
    by (metis div_mult_mod_eq smul_add smul_mult)
  moreover have "smul j (0 :: 'p) = 0" for j using smul_mult [of j 0 P] by simp
  ultimately show ?thesis using assms by simp
qed

lemma lawsD:
  fixes P :: "'p::ab_group_add"
  assumes "mbedtls_ecp_laws E"
  shows "1 < ecp_N E" "ecp_N E dvd a * b \<Longrightarrow> ecp_N E dvd a \<or> ecp_N E dvd b" "smul (ecp_N E) P = 0"
    "valid_scalar E j \<Longrightarrow> valid_scalar E k \<Longrightarrow> ecp_muladd E j P k Q = Some (smul j P + smul k Q)"
    "\<exists>b. ecp_write_binary E P = Some b \<and> ecp_read_binary E b = Some P \<and> length b \<le> 65"
    "valid_scalar E n \<Longrightarrow> mpi_size E n \<le> 32 \<and>
        (\<exists>b. mpi_write_binary E n (mpi_size E n) = Some b \<and> length b = mpi_size E n \<and> mpi_read_binary E b = n)"
  using assms unfolding mbedtls_ecp_laws_def by blast+

lemma tmp_valid:
  assumes "mbedtls_ecp_laws E" "valid_scalar E y" "valid_scalar E w"
  shows "valid_scalar E ((- 1 * y * w) mod ecp_N E)"
proof -
  have "\<not> ecp_N E dvd y" "\<not> ecp_N E dvd w"
    using assms(2,3) zdvd_not_zless by (auto simp: valid_scalar_def)
  then have "\<not> ecp_N E dvd - 1 * y * w" using lawsD(2) [OF assms(1), of y w] by auto
  then have "(- 1 * y * w) mod ecp_N E \<noteq> 0" using mod_0_imp_dvd by blast
  moreover have "0 \<le> (- 1 * y * w) mod ecp_N E" "(- 1 * y * w) mod ecp_N E < ecp_N E"
    using lawsD(1) [OF assms(1)] by simp_all
  ultimately show ?thesis unfolding valid_scalar_def by linarith
qed

lemma one_valid: "mbedtls_ecp_laws E \<Longrightarrow> valid_scalar E 1"
  by (simp add: valid_scalar_def lawsD(1))

lemma calculateKey_server:
  assumes E: "mbedtls_ecp_laws E" and M: "ecp_read_binary E Mdata = Some M" and N: "ecp_read_binary E Ndata = Some N"
    and y: "valid_scalar E y" and w: "w = mpi_read_binary E (sha256 E password)" "valid_scalar E w"
  shows "calculateKey E (Some (y, Y)) rnd T (Some password) fpC fpD = Inr (True, spake2_server E M N w y Y T fpC fpD)"
proof -
  let ?tmp = "(- 1 * y * w) mod ecp_N E"
  have S: "ecp_muladd E w N 1 Y = Some (smul w N + Y)" using lawsD(4) [OF E w(2) one_valid [OF E]] by simp
  have "smul y T + smul ?tmp M = smul y (T - smul w M)"
    using smul_mod [OF lawsD(3) [OF E], of "- (y * w)" M]
    by (simp add: smul_mult smul_group_diff)
  with lawsD(4) [OF E y tmp_valid [OF E y w(2)], of T M] have K: "ecp_muladd E y T ?tmp M = Some (smul y (T - smul w M))" by simp
  obtain bT where bT: "ecp_write_binary E T = Some bT" using lawsD(5) [OF E, of T] by blast
  obtain bS where bS: "ecp_write_binary E (smul w N + Y) = Some bS" using lawsD(5) [OF E, of "smul w N + Y"] by blast
  obtain bK where bK: "ecp_write_binary E (smul y (T - smul w M)) = Some bK" using lawsD(5) [OF E, of "smul y (T - smul w M)"] by blast
  from lawsD(6) [OF E w(2)] obtain bw where bw: "mpi_size E w \<le> 32" "mpi_write_binary E w (mpi_size E w) = Some bw" by blast
  show ?thesis
    using S K bT bS bK bw M N w(1) [symmetric]
    by (simp add: calculateKey_def attempt_def hashPoint_def hashMpi_def spake2_server_def spake2_transcript_def Let_def)
qed

lemma spake2_agree:
  assumes "T = smul x G + smul w M" "Y = smul y G"
  shows "snd (spake2_server E M N w y Y T fpC fpD) = spake2_client E N w x T (fst (spake2_server E M N w y Y T fpC fpD)) fpC fpD"
proof -
  have "smul y (T - smul w M) = smul x (smul w N + Y - smul w N)"
    using assms by (simp add: smul_mult [symmetric] mult.commute)
  then show ?thesis by (simp add: spake2_server_def spake2_client_def Let_def)
qed


lemma one_word_cases: "(P :: 1 word) = 0 \<or> P = 1"
proof -
  have "unat P < 2" using unsigned_less [of P, where ?'a = nat] by simp
  then have "unat P = 0 \<or> unat P = 1" by linarith
  then show ?thesis by (metis unat_0 unat_1 unsigned_word_eqI unsigned_0 unsigned_1)
qed

lemma demo_ecp_laws: "mbedtls_ecp_laws demo_ecp"
proof -
  have "smul 2 P = 0" for P :: "1 word" using one_word_cases [of P] smul_add [of 1 1 P] by auto
  moreover have "valid_scalar demo_ecp k \<longleftrightarrow> k = 1" for k by (auto simp: valid_scalar_def demo_ecp_def)
  moreover have "ucast (ucast P :: u8) = P" for P :: "1 word" using one_word_cases [of P] by auto
  ultimately show ?thesis by (simp add: mbedtls_ecp_laws_def) (simp add: demo_ecp_def)
qed


lemma hashLength_inject:
  assumes "hashLength a = hashLength b"
  shows "a = b"
proof -
  have "bit a n = bit b n" if "n < 32" for n
  proof -
    have "bit (ucast (drop_bit (8 * i) a) :: u8) j = bit (ucast (drop_bit (8 * i) b) :: u8) j" if "i < 4" for i j
    proof -
      from that have "i \<in> {0, 1, 2, 3}" by auto
      with assms show ?thesis by (auto simp: hashLength_def)
    qed
    from this [of "n div 8" "n mod 8"] that show ?thesis
      by (simp add: bit_ucast_iff bit_drop_bit_eq)
  qed
  then show ?thesis by (simp add: bit_eq_iff)
qed

lemma hashData_inject:
  assumes "hashData a @ x = hashData b @ y" "length a < 2 ^ 32" "length b < 2 ^ 32"
  shows "a = b \<and> x = y"
proof -
  have len: "length (hashLength v) = 4" for v by (simp add: hashLength_def)
  from assms(1) have "hashLength (of_nat (length a)) = hashLength (of_nat (length b))" "a @ x = b @ y"
    by (simp_all add: hashData_def len)
  moreover from this(1) have "length a = length b"
    using assms(2,3) by (auto dest!: hashLength_inject simp: word_of_nat_eq_iff take_bit_nat_eq_self)
  ultimately show ?thesis by simp
qed

lemma point_inject:
  assumes "mbedtls_ecp_laws E" "the (ecp_write_binary E P) = the (ecp_write_binary E Q)"
  shows "P = Q"
  using lawsD(5) [OF assms(1), of P] lawsD(5) [OF assms(1), of Q] assms(2) by auto



lemma spake2_step_counter:
  assumes "spake2_step C E env req m lab (Some c) = Inr (c', out)"
  shows "\<exists>d. c' = Some d \<and> passwordAuthenticationRequests d =
    (if is_request lab then (passwordAuthenticationRequests c + 1) mod 2 ^ 64 else passwordAuthenticationRequests c) \<and>
    passwordAuthenticated d = passwordAuthenticated c"
proof (cases lab)
  case (Spake2Ready rnd password)
  with assms show ?thesis
    by (cases env) (auto simp: nc_spake2_password_ready_def obind_eq_Inr_iff Let_def split: option.splits prod.splits bool.splits)
qed (use assms in \<open>auto simp: nc_spake2_handle_coap_1_def nc_spake2_handle_coap_2_def count_attempt_def obind_eq_Inr_iff Let_def
  split: option.splits if_splits\<close>)

lemma spake2_run_counter:
  "run_acts (spake2_step C E env req m) ls (Some c) = Inr (c', out) \<Longrightarrow>
   passwordAuthenticationRequests c + length (filter is_request ls) < 2 ^ 64 \<Longrightarrow>
   \<exists>d. c' = Some d \<and> passwordAuthenticationRequests d = passwordAuthenticationRequests c + length (filter is_request ls)"
proof (induction ls arbitrary: c out)
  case (Cons l ls)
  from Cons.prems(1) obtain c1 o1 o2 where step: "spake2_step C E env req m l (Some c) = Inr (c1, o1)"
    "run_acts (spake2_step C E env req m) ls c1 = Inr (c', o2)" by (auto simp: andThen_eq_Inr_iff)
  from spake2_step_counter [OF step(1)] obtain d where d: "c1 = Some d" "passwordAuthenticationRequests d =
    (if is_request l then (passwordAuthenticationRequests c + 1) mod 2 ^ 64 else passwordAuthenticationRequests c)" by blast
  with Cons.prems(2) have "passwordAuthenticationRequests d = passwordAuthenticationRequests c + (if is_request l then 1 else 0)" by auto
  with Cons.IH [of d o2] step d Cons.prems(2) show ?case by (auto split: if_splits)
qed auto

text \<open>
  C18. A client has six attempts on a connection: whatever requests came before, in either step of the exchange, and whatever the
  application answered, when there were six of them every later request is refused, without a look at its payload, at the
  password or at the key.
\<close>

theorem spake2_attempts_bounded:
  assumes "run_acts (spake2_step C E env req m) ls (Some conn_zero) = Inr (c, out)"
    and "6 \<le> length (filter is_request ls)" "length (filter is_request ls) < 2 ^ 64 - 1" "is_request lab"
  shows "\<exists>d code. spake2_step C E env req m lab c = Inr (Some d, [SpError 4 code, SpCoapFree]) \<and> code \<in> {4, 29} \<and>
    hasSpake2Key d = hasSpake2Key (the c) \<and> spake2Key d = spake2Key (the c)"
proof -
  have "passwordAuthenticationRequests conn_zero = 0" by (simp add: conn_zero_def)
  with spake2_run_counter [OF assms(1)] assms(3) obtain d where
    d: "c = Some d" "passwordAuthenticationRequests d = length (filter is_request ls)" by auto
  then have "passwordAuthenticationRequests (count_attempt d) > 6" using assms(2,3) by (simp add: count_attempt_def)
  with d assms(4) show ?thesis
    by (cases lab) (auto simp: nc_spake2_handle_coap_1_def nc_spake2_handle_coap_2_def Let_def
        NC_SPAKE2_MAX_PASSWORD_AUTHENTICATION_REQUESTS_def count_attempt_def split: option.splits)
qed

lemma demo_spake2_run:
  "passwordAuthenticationRequests c + n \<le> 6 \<Longrightarrow>
   \<exists>c' out. run_acts (spake2_step demo_spake2_cbor demo_ecp env req \<lparr>sp_passwordRequestHandler = Some 9, sp_spake21 = a, sp_spake22 = b\<rparr>)
     (replicate n (Spake2One \<lparr>scr_format = 60, scr_payload = Some []\<rparr> True)) (Some c) = Inr (c', out)"
proof (induction n arbitrary: c)
  case (Suc n)
  then have cnt: "passwordAuthenticationRequests (count_attempt c) = passwordAuthenticationRequests c + 1" by (simp add: count_attempt_def)
  have "\<exists>out. nc_spake2_handle_coap_1 demo_spake2_cbor demo_ecp True \<lparr>sp_passwordRequestHandler = Some 9, sp_spake21 = a, sp_spake22 = b\<rparr>
      \<lparr>scr_format = 60, scr_payload = Some []\<rparr> (Some c) = Inr (Some (count_attempt c), out)"
    using Suc.prems cnt
    by (simp add: nc_spake2_handle_coap_1_def Let_def NC_SPAKE2_MAX_PASSWORD_AUTHENTICATION_REQUESTS_def
        nc_spake2_password_request_new_def read_username_and_password_def read_group_element_def read_text_string_def
        NC_SPAKE2_USERNAME_MAX_LENGTH_def demo_spake2_cbor_def cbor_by_item_simps tinycbor.defs tinycbor_bytes.defs demo_ecp_def)
  moreover from Suc.IH [of "count_attempt c"] Suc.prems cnt obtain c' out where
    "run_acts (spake2_step demo_spake2_cbor demo_ecp env req \<lparr>sp_passwordRequestHandler = Some 9, sp_spake21 = a, sp_spake22 = b\<rparr>)
     (replicate n (Spake2One \<lparr>scr_format = 60, scr_payload = Some []\<rparr> True)) (Some (count_attempt c)) = Inr (c', out)" by auto
  ultimately show ?case by (auto simp: andThen_def)
qed simp

theorem spake2_attempts_bounded_witness:
  "\<exists>c out d code. run_acts (spake2_step demo_spake2_cbor demo_ecp (Some (1, 1), Some [1], Some [2]) \<lparr>pr_username = ''u'', pr_T = 0\<rparr>
        \<lparr>sp_passwordRequestHandler = Some 9, sp_spake21 = True, sp_spake22 = True\<rparr>)
        (replicate 6 (Spake2One \<lparr>scr_format = 60, scr_payload = Some []\<rparr> True)) (Some conn_zero) = Inr (c, out) \<and>
     spake2_step demo_spake2_cbor demo_ecp (Some (1, 1), Some [1], Some [2]) \<lparr>pr_username = ''u'', pr_T = 0\<rparr>
        \<lparr>sp_passwordRequestHandler = Some 9, sp_spake21 = True, sp_spake22 = True\<rparr>
        (Spake2Two \<lparr>scr_format = 60, scr_payload = None\<rparr>) c = Inr (Some d, [SpError 4 code, SpCoapFree])"
  (is "\<exists>c out d code. run_acts ?step ?ls _ = _ \<and> _")
proof -
  have "passwordAuthenticationRequests conn_zero + 6 \<le> 6" by (simp add: conn_zero_def)
  from demo_spake2_run [OF this] obtain c out where run: "run_acts ?step ?ls (Some conn_zero) = Inr (c, out)" by blast
  have "6 \<le> length (filter is_request ?ls)" "length (filter is_request ?ls) < 2 ^ 64 - 1"
    "is_request (Spake2Two \<lparr>scr_format = 60, scr_payload = None\<rparr>)" by simp_all
  from spake2_attempts_bounded [OF run this] run show ?thesis by blast
qed

text \<open>Nothing marks a connection as authenticated, whatever the client proves.\<close>

lemma password_never_authenticated:
  "spake2_step C E env req m lab (Some c) = Inr (Some d, out) \<Longrightarrow> passwordAuthenticated d = passwordAuthenticated c"
  by (auto dest: spake2_step_counter)

end
