(* ===== verification/NmTcpTunnel.thy ===== *)
theory NmTcpTunnel
  imports NcCoap NnLib CStd
begin

text \<open>
  TCP tunnels (\<^verbatim>\<open>src/modules/tcp_tunnel\<close>): a stream of a client is connected to a TCP socket. The connection between the two forwards
  the bytes of both directions (\<^verbatim>\<open>nm_tcp_tunnel_connection.c\<close>); the services are the TCP endpoints that may be connected to
  (\<^verbatim>\<open>nm_tcp_tunnel.c\<close>), and the CoAP endpoints list them (\<^verbatim>\<open>nm_tcp_tunnel_coap.c\<close>). The calls into the TCP module and the
  streams are outputs, and the completion of an operation is an event with its result.
\<close>

section \<open>A tunnel connection: state and outputs\<close>

definition NM_TCP_TUNNEL_BUFFER_SIZE :: nat where "NM_TCP_TUNNEL_BUFFER_SIZE = 8192"

text \<open>
  \<open>tc_tcpRecvBuffer\<close> and \<open>tc_streamRecvBuffer\<close> are the bytes of the last read of each side, \<open>tc_readLength\<close> and
  \<open>tc_streamReadSize\<close> their number. \<open>tc_stream\<close> is false when the pointer to the stream is null.
\<close>

record nm_tcp_tunnel_connection =
  tc_stream :: bool
  tc_address :: np_ip_address
  tc_port :: u16
  tc_tcpRecvBuffer :: "u8 list"
  tc_readLength :: nat
  tc_streamRecvBuffer :: "u8 list"
  tc_streamReadSize :: nat
  tc_tcpReadEnded :: bool
  tc_streamReadEnded :: bool

datatype tunnel_output =
    TcpConnect np_ip_address u16
  | TcpRead nat
  | TcpWrite "u8 list"
  | TcpShutdown
  | TcpAbort
  | TcpDestroy
  | StreamAccept
  | StreamRead nat
  | StreamWrite "u8 list"
  | StreamClose
  | StreamAbort
  | StreamRelease
  | ListErase
  | ConnectionFree

text \<open>A connection that has been freed is none.\<close>

type_synonym tunnel_act = "(nm_tcp_tunnel_connection option, tunnel_output) act"

definition with_tunnel :: "(nm_tcp_tunnel_connection \<Rightarrow> tunnel_act) \<Rightarrow> tunnel_act" where
  "with_tunnel f s = (case s of None \<Rightarrow> Inl UseAfterFree | Some c \<Rightarrow> f c s)"

definition upd_tunnel :: "(nm_tcp_tunnel_connection \<Rightarrow> nm_tcp_tunnel_connection) \<Rightarrow> tunnel_act" where
  "upd_tunnel f = with_tunnel (\<lambda>c. modify (\<lambda>_. Some (f c)))"

definition nm_tcp_tunnel_connection_new :: nm_tcp_tunnel_connection where
  "nm_tcp_tunnel_connection_new =
     \<lparr>tc_stream = False, tc_address = \<lparr>ip_type = NABTO_IPV4, ip_bytes = replicate 16 0\<rparr>, tc_port = 0,
      tc_tcpRecvBuffer = [], tc_readLength = 0, tc_streamRecvBuffer = [], tc_streamReadSize = 0,
      tc_tcpReadEnded = False, tc_streamReadEnded = False\<rparr>"

section \<open>A tunnel connection: operations\<close>

definition nm_tcp_tunnel_connection_free :: tunnel_act where
  "nm_tcp_tunnel_connection_free = with_tunnel (\<lambda>c s.
     emit ([TcpDestroy] @ (if tc_stream c then [StreamRelease] else []) @ [ConnectionFree]) None)"

text \<open>
  The answers of the creation of the socket and of the three completion events. An event that cannot be created
  leaves the connection in the list of the service.
\<close>

definition nm_tcp_tunnel_connection_init ::
    "np_error_code \<Rightarrow> np_error_code \<Rightarrow> np_error_code \<Rightarrow> np_error_code \<Rightarrow> np_ip_address \<Rightarrow> u16 \<Rightarrow> nm_tcp_tunnel_connection
       \<Rightarrow> np_error_code \<times> nm_tcp_tunnel_connection \<times> bool" where
  "nm_tcp_tunnel_connection_init tcp ev1 ev2 ev3 address port c =
     (if tcp \<noteq> NABTO_EC_OK then (tcp, c, False)
      else let c1 = c\<lparr>tc_stream := True, tc_address := address, tc_port := port\<rparr> in
      if ev1 \<noteq> NABTO_EC_OK then (ev1, c1, True)
      else if ev2 \<noteq> NABTO_EC_OK then (ev2, c1, True)
      else if ev3 \<noteq> NABTO_EC_OK then (ev3, c1, True)
      else (NABTO_EC_OK, c1\<lparr>tc_tcpReadEnded := False, tc_streamReadEnded := False\<rparr>, True))"

text \<open>A call with the stream of the connection, which must not be null.\<close>

definition tunnel_stream :: "tunnel_output \<Rightarrow> tunnel_act" where
  "tunnel_stream out = with_tunnel (\<lambda>c. if tc_stream c then emit [out] else (\<lambda>_. Inl NullPointer))"

definition start_connect :: tunnel_act where
  "start_connect = with_tunnel (\<lambda>c. emit [TcpConnect (tc_address c) (tc_port c)])"

definition nm_tcp_tunnel_connection_start :: tunnel_act where
  "nm_tcp_tunnel_connection_start = andThen (tunnel_stream StreamAccept) start_connect"

definition the_end :: tunnel_act where
  "the_end = andThen (with_tunnel (\<lambda>_. emit [ListErase])) nm_tcp_tunnel_connection_free"

definition is_ended :: tunnel_act where
  "is_ended = with_tunnel (\<lambda>c. if tc_tcpReadEnded c \<and> tc_streamReadEnded c then the_end else emit [])"

definition abort_connection :: tunnel_act where
  "abort_connection = with_tunnel (\<lambda>c.
     andThen (emit [TcpAbort])
       (if tc_stream c then andThen (emit [StreamAbort]) (upd_tunnel (\<lambda>c. c\<lparr>tc_stream := False\<rparr>)) else emit []))"

definition nm_tcp_tunnel_connection_stop_from_manager :: tunnel_act where
  "nm_tcp_tunnel_connection_stop_from_manager = abort_connection"

definition start_tcp_read :: tunnel_act where
  "start_tcp_read = with_tunnel (\<lambda>_. emit [TcpRead NM_TCP_TUNNEL_BUFFER_SIZE])"

definition start_stream_read :: tunnel_act where
  "start_stream_read = tunnel_stream (StreamRead NM_TCP_TUNNEL_BUFFER_SIZE)"

definition connected :: tunnel_act where
  "connected = andThen start_tcp_read start_stream_read"

definition connect_callback :: "np_error_code \<Rightarrow> tunnel_act" where
  "connect_callback ec = (if ec \<noteq> NABTO_EC_OK then the_end else connected)"

definition close_stream :: tunnel_act where
  "close_stream = with_tunnel (\<lambda>c.
     if tc_stream c then emit [StreamClose]
     else andThen (upd_tunnel (\<lambda>c. c\<lparr>tc_tcpReadEnded := True\<rparr>)) is_ended)"

definition start_stream_write :: "nat \<Rightarrow> tunnel_act" where
  "start_stream_write transferred = with_tunnel (\<lambda>c. tunnel_stream (StreamWrite (take transferred (tc_tcpRecvBuffer c))))"

definition tcp_readen :: "np_error_code \<Rightarrow> tunnel_act" where
  "tcp_readen ec = with_tunnel (\<lambda>c.
     if tc_readLength c = 0 \<or> ec = NABTO_EC_EOF then close_stream
     else if ec \<noteq> NABTO_EC_OK then andThen (upd_tunnel (\<lambda>c. c\<lparr>tc_tcpReadEnded := True\<rparr>)) abort_connection
     else start_stream_write (tc_readLength c))"

definition stream_closed :: "np_error_code \<Rightarrow> tunnel_act" where
  "stream_closed ec = andThen (upd_tunnel (\<lambda>c. c\<lparr>tc_tcpReadEnded := True\<rparr>)) is_ended"

definition stream_written :: "np_error_code \<Rightarrow> tunnel_act" where
  "stream_written ec =
     (if ec \<noteq> NABTO_EC_OK then
        andThen (upd_tunnel (\<lambda>c. c\<lparr>tc_tcpReadEnded := True\<rparr>)) (andThen abort_connection is_ended)
      else start_tcp_read)"

definition close_tcp :: tunnel_act where
  "close_tcp = andThen (with_tunnel (\<lambda>_. emit [TcpShutdown]))
     (andThen (upd_tunnel (\<lambda>c. c\<lparr>tc_streamReadEnded := True\<rparr>)) is_ended)"

definition start_tcp_write :: "nat \<Rightarrow> tunnel_act" where
  "start_tcp_write transferred = with_tunnel (\<lambda>c. emit [TcpWrite (take transferred (tc_streamRecvBuffer c))])"

definition stream_readen :: "np_error_code \<Rightarrow> tunnel_act" where
  "stream_readen ec = with_tunnel (\<lambda>c.
     if tc_streamReadSize c = 0 \<or> ec = NABTO_EC_EOF then close_tcp
     else if ec \<noteq> NABTO_EC_OK then
       andThen (upd_tunnel (\<lambda>c. c\<lparr>tc_streamReadEnded := True\<rparr>)) (andThen abort_connection is_ended)
     else start_tcp_write (tc_streamReadSize c))"

definition tcp_written :: "np_error_code \<Rightarrow> tunnel_act" where
  "tcp_written ec =
     (if ec \<noteq> NABTO_EC_OK then
        andThen (upd_tunnel (\<lambda>c. c\<lparr>tc_streamReadEnded := True\<rparr>)) (andThen abort_connection is_ended)
      else start_stream_read)"

section \<open>A tunnel connection: the system\<close>

text \<open>
  The operation that is pending in each direction: from the TCP socket to the stream, and from the stream to the
  socket. The outputs of the connection start the operations.
\<close>

datatype to_stream = TsIdle | TsConnecting | TsReading | TsWriting | TsClosing

datatype to_tcp = TtIdle | TtReading | TtWriting

record tunnel_system =
  ts_conn :: "nm_tcp_tunnel_connection option"
  ts_toStream :: to_stream
  ts_toTcp :: to_tcp

fun start_operation :: "tunnel_output \<Rightarrow> tunnel_system \<Rightarrow> tunnel_system" where
  "start_operation (TcpConnect _ _) s = s\<lparr>ts_toStream := TsConnecting\<rparr>"
| "start_operation (TcpRead _) s = s\<lparr>ts_toStream := TsReading\<rparr>"
| "start_operation (StreamWrite _) s = s\<lparr>ts_toStream := TsWriting\<rparr>"
| "start_operation StreamClose s = s\<lparr>ts_toStream := TsClosing\<rparr>"
| "start_operation (StreamRead _) s = s\<lparr>ts_toTcp := TtReading\<rparr>"
| "start_operation (TcpWrite _) s = s\<lparr>ts_toTcp := TtWriting\<rparr>"
| "start_operation _ s = s"

text \<open>
  The completions. A read has its bytes, or none when the buffer and the length are left as they were.
\<close>

datatype tunnel_label =
    TConnected np_error_code
  | TReaden np_error_code "u8 list option"
  | SWritten np_error_code
  | SClosed np_error_code
  | SReaden np_error_code "u8 list option"
  | TWritten np_error_code
  | TStop

definition tunnel_run :: "tunnel_act \<Rightarrow> (tunnel_system, tunnel_output) act" where
  "tunnel_run f s = obind (f (ts_conn s)) (\<lambda>(c, out). Inr (fold start_operation out (s\<lparr>ts_conn := c\<rparr>), out))"

definition store_tcp :: "u8 list option \<Rightarrow> nm_tcp_tunnel_connection \<Rightarrow> nm_tcp_tunnel_connection" where
  "store_tcp b c = (case b of None \<Rightarrow> c | Some bs \<Rightarrow> c\<lparr>tc_tcpRecvBuffer := bs, tc_readLength := length bs\<rparr>)"

definition store_stream :: "u8 list option \<Rightarrow> nm_tcp_tunnel_connection \<Rightarrow> nm_tcp_tunnel_connection" where
  "store_stream b c = (case b of None \<Rightarrow> c | Some bs \<Rightarrow> c\<lparr>tc_streamRecvBuffer := bs, tc_streamReadSize := length bs\<rparr>)"

fun tunnel_handler :: "tunnel_label \<Rightarrow> tunnel_act" where
  "tunnel_handler (TConnected ec) = connect_callback ec"
| "tunnel_handler (TReaden ec b) = andThen (upd_tunnel (store_tcp b)) (tcp_readen ec)"
| "tunnel_handler (SWritten ec) = stream_written ec"
| "tunnel_handler (SClosed ec) = stream_closed ec"
| "tunnel_handler (SReaden ec b) = andThen (upd_tunnel (store_stream b)) (stream_readen ec)"
| "tunnel_handler (TWritten ec) = tcp_written ec"
| "tunnel_handler TStop = nm_tcp_tunnel_connection_stop_from_manager"

fun complete_operation :: "tunnel_label \<Rightarrow> tunnel_system \<Rightarrow> tunnel_system" where
  "complete_operation (SReaden _ _) s = s\<lparr>ts_toTcp := TtIdle\<rparr>"
| "complete_operation (TWritten _) s = s\<lparr>ts_toTcp := TtIdle\<rparr>"
| "complete_operation TStop s = s"
| "complete_operation _ s = s\<lparr>ts_toStream := TsIdle\<rparr>"

definition tunnel_step :: "tunnel_label \<Rightarrow> (tunnel_system, tunnel_output) act" where
  "tunnel_step l s = tunnel_run (tunnel_handler l) (complete_operation l s)"

text \<open>
  What the TCP module and the streams promise: an operation completes once, a successful read has at least one byte and no more than
  the buffer takes, and one that fails has none. No operation on the socket that would use the stream succeeds after an abort.
\<close>

definition read_result :: "np_error_code \<Rightarrow> u8 list option \<Rightarrow> bool" where
  "read_result ec b \<longleftrightarrow>
     (if ec = NABTO_EC_OK then (case b of None \<Rightarrow> False | Some bs \<Rightarrow> bs \<noteq> [] \<and> length bs \<le> NM_TCP_TUNNEL_BUFFER_SIZE)
      else b = None \<or> b = Some [])"

definition stream_open :: "tunnel_system \<Rightarrow> bool" where
  "stream_open s = (case ts_conn s of None \<Rightarrow> False | Some c \<Rightarrow> tc_stream c)"

fun tunnel_allowed :: "tunnel_system \<Rightarrow> tunnel_label \<Rightarrow> bool" where
  "tunnel_allowed s (TConnected ec) \<longleftrightarrow> ts_toStream s = TsConnecting \<and> (stream_open s \<or> ec \<noteq> NABTO_EC_OK)"
| "tunnel_allowed s (TReaden ec b) \<longleftrightarrow> ts_toStream s = TsReading \<and> read_result ec b \<and> (stream_open s \<or> ec \<noteq> NABTO_EC_OK)"
| "tunnel_allowed s (SWritten ec) \<longleftrightarrow> ts_toStream s = TsWriting"
| "tunnel_allowed s (SClosed ec) \<longleftrightarrow> ts_toStream s = TsClosing"
| "tunnel_allowed s (SReaden ec b) \<longleftrightarrow> ts_toTcp s = TtReading \<and> read_result ec b"
| "tunnel_allowed s (TWritten ec) \<longleftrightarrow> ts_toTcp s = TtWriting \<and> (stream_open s \<or> ec \<noteq> NABTO_EC_OK)"
| "tunnel_allowed s TStop \<longleftrightarrow> ts_conn s \<noteq> None"

fun tunnel_allowed_run :: "tunnel_label list \<Rightarrow> tunnel_system \<Rightarrow> bool" where
  "tunnel_allowed_run [] s = True"
| "tunnel_allowed_run (l # ls) s \<longleftrightarrow> tunnel_allowed s l \<and>
     (case tunnel_step l s of Inl _ \<Rightarrow> True | Inr (s', _) \<Rightarrow> tunnel_allowed_run ls s')"

definition tunnel_started :: "np_ip_address \<Rightarrow> u16 \<Rightarrow> tunnel_system" where
  "tunnel_started address port = \<lparr>ts_conn = Some (nm_tcp_tunnel_connection_new\<lparr>tc_stream := True, tc_address := address, tc_port := port\<rparr>), ts_toStream = TsConnecting, ts_toTcp = TtIdle\<rparr>"

text \<open>The bytes that the socket and the stream delivered, and those that were given to the other side.\<close>

fun tcp_bytes :: "tunnel_label list \<Rightarrow> u8 list" where
  "tcp_bytes [] = []"
| "tcp_bytes (TReaden ec (Some bs) # ls) = (if ec = NABTO_EC_OK then bs @ tcp_bytes ls else tcp_bytes ls)"
| "tcp_bytes (_ # ls) = tcp_bytes ls"

fun stream_bytes :: "tunnel_label list \<Rightarrow> u8 list" where
  "stream_bytes [] = []"
| "stream_bytes (SReaden ec (Some bs) # ls) = (if ec = NABTO_EC_OK then bs @ stream_bytes ls else stream_bytes ls)"
| "stream_bytes (_ # ls) = stream_bytes ls"

fun to_stream_bytes :: "tunnel_output list \<Rightarrow> u8 list" where
  "to_stream_bytes [] = []"
| "to_stream_bytes (StreamWrite bs # out) = bs @ to_stream_bytes out"
| "to_stream_bytes (_ # out) = to_stream_bytes out"

fun to_tcp_bytes :: "tunnel_output list \<Rightarrow> u8 list" where
  "to_tcp_bytes [] = []"
| "to_tcp_bytes (TcpWrite bs # out) = bs @ to_tcp_bytes out"
| "to_tcp_bytes (_ # out) = to_tcp_bytes out"

fun tcp_read_failed :: "tunnel_label \<Rightarrow> bool" where
  "tcp_read_failed (TReaden ec _) \<longleftrightarrow> ec \<noteq> NABTO_EC_OK \<and> ec \<noteq> NABTO_EC_EOF"
| "tcp_read_failed _ = False"

definition tunnel_inv :: "tunnel_system \<Rightarrow> bool \<Rightarrow> tunnel_output list \<Rightarrow> bool" where
  "tunnel_inv s failed out \<longleftrightarrow>
     (case ts_conn s of
        None \<Rightarrow> ts_toStream s = TsIdle \<and> ts_toTcp s = TtIdle \<and> count_list out ConnectionFree = 1 \<and>
          (StreamRelease \<in> set out) = (StreamAbort \<notin> set out)
      | Some c \<Rightarrow> ConnectionFree \<notin> set out \<and> StreamRelease \<notin> set out \<and> tc_stream c = (StreamAbort \<notin> set out) \<and>
          tc_readLength c \<le> length (tc_tcpRecvBuffer c) \<and> tc_streamReadSize c \<le> length (tc_streamRecvBuffer c) \<and>
          (if ts_toStream s = TsConnecting then \<not> tc_tcpReadEnded c \<and> \<not> tc_streamReadEnded c \<and> ts_toTcp s = TtIdle
           else tc_tcpReadEnded c = (ts_toStream s = TsIdle) \<and> tc_streamReadEnded c = (ts_toTcp s = TtIdle) \<and>
             (tc_tcpReadEnded c \<and> tc_streamReadEnded c \<longrightarrow> failed)))"

definition demo_tunnel :: tunnel_system where
  "demo_tunnel = tunnel_started \<lparr>ip_type = NABTO_IPV4, ip_bytes = replicate 16 127\<rparr> 80"

definition tunnel_demo :: "tunnel_label list" where
  "tunnel_demo = [TConnected NABTO_EC_OK, TReaden NABTO_EC_OK (Some [1, 2]), SReaden NABTO_EC_OK (Some [3]), SWritten NABTO_EC_OK,
     TReaden NABTO_EC_OK (Some [4]), TWritten NABTO_EC_OK, SReaden NABTO_EC_EOF None, SWritten NABTO_EC_OK, TReaden NABTO_EC_EOF None,
     SClosed NABTO_EC_OK]"

definition run_result :: "tunnel_label list \<Rightarrow> tunnel_system \<times> tunnel_output list" where
  "run_result ls = (case run_acts tunnel_step ls demo_tunnel of Inl _ \<Rightarrow> (demo_tunnel, []) | Inr r \<Rightarrow> r)"

text \<open>The socket fails after the other direction has ended: the connection stays, with nothing pending.\<close>

definition tunnel_leak_demo :: "tunnel_label list" where
  "tunnel_leak_demo = [TConnected NABTO_EC_OK, TReaden NABTO_EC_OK (Some [1]), SReaden NABTO_EC_EOF None, SWritten NABTO_EC_OK,
     TReaden NABTO_EC_ABORTED None]"

section \<open>Services\<close>

text \<open>
  A pointer to a service or to a connection is a number; what has been freed is none. The lists hold pointers. A service whose
  strings could not be copied has a null \<open>svc_id\<close> or \<open>svc_type\<close>. The weak pointer of a service is the value of a counter.
\<close>

record 'l nm_tcp_tunnel_service =
  svc_address :: np_ip_address
  svc_port :: u16
  svc_streamPort :: u32
  svc_connections :: 'l
  svc_id :: "string option"
  svc_type :: "string option"
  svc_weakPtr :: u64

record 'l nm_tcp_tunnels =
  tt_device :: bool
  tt_services :: 'l
  tt_weakPtrCounter :: u64
  tt_coapListServices :: "nat option"
  tt_coapGetService :: "nat option"
  tt_service :: "nat \<Rightarrow> 'l nm_tcp_tunnel_service option"
  tt_connection :: "nat \<Rightarrow> nm_tcp_tunnel_connection option"

datatype tunnels_output =
    AddResource "string list" nat
  | RemoveResource nat
  | AddStreamListener u32
  | RemoveStreamListener u32
  | AuthCheckStream string string string u64 nat
  | AuthDiscard
  | ReleaseStream nat
  | ConnectionOut nat tunnel_output

type_synonym 'l tunnels_act = "('l nm_tcp_tunnels, tunnels_output) act"

type_synonym 'l llist_of = "('l, nat) nn_llist"

definition with_service :: "nat \<Rightarrow> ('l nm_tcp_tunnel_service \<Rightarrow> 'l tunnels_act) \<Rightarrow> 'l tunnels_act" where
  "with_service h f s = (case tt_service s h of None \<Rightarrow> Inl UseAfterFree | Some svc \<Rightarrow> f svc s)"

definition put_service :: "nat \<Rightarrow> 'l nm_tcp_tunnel_service \<Rightarrow> 'l nm_tcp_tunnels \<Rightarrow> 'l nm_tcp_tunnels" where
  "put_service h svc s = s\<lparr>tt_service := (tt_service s)(h \<mapsto> svc)\<rparr>"

text \<open>Taking the node of a connection out of the list it is in.\<close>

definition erase_connection :: "'l llist_of \<Rightarrow> nat \<Rightarrow> 'l nm_tcp_tunnels \<Rightarrow> 'l nm_tcp_tunnels" where
  "erase_connection L c s = s\<lparr>tt_service := (\<lambda>h. map_option (\<lambda>svc. svc\<lparr>svc_connections := ll_erase_node L (svc_connections svc) c\<rparr>)
     (tt_service s h))\<rparr>"

text \<open>A handler of a connection, in the state of all tunnels.\<close>

definition on_connection :: "'l llist_of \<Rightarrow> nat \<Rightarrow> tunnel_act \<Rightarrow> 'l tunnels_act" where
  "on_connection L c f s = obind (f (tt_connection s c)) (\<lambda>(x, out).
     let s1 = s\<lparr>tt_connection := (tt_connection s)(c := x)\<rparr> in
     Inr (if ListErase \<in> set out then erase_connection L c s1 else s1, map (ConnectionOut c) out))"

text \<open>The error of adding a resource, and the resource.\<close>

definition nm_tcp_tunnel_coap_deinit :: "'l tunnels_act" where
  "nm_tcp_tunnel_coap_deinit s =
     Inr (s\<lparr>tt_coapListServices := None, tt_coapGetService := None\<rparr>,
       (case tt_coapListServices s of None \<Rightarrow> [] | Some r \<Rightarrow> [RemoveResource r]) @
       (case tt_coapGetService s of None \<Rightarrow> [] | Some r \<Rightarrow> [RemoveResource r]))"

definition nm_tcp_tunnel_coap_init ::
    "nabto_coap_error \<times> nat \<Rightarrow> nabto_coap_error \<times> nat \<Rightarrow> nabto_coap_error \<times> nat \<Rightarrow> 'l nm_tcp_tunnels
       \<Rightarrow> np_error_code \<times> 'l nm_tcp_tunnels \<times> tunnels_output list" where
  "nm_tcp_tunnel_coap_init r1 r2 r3 s =
     (let failed = (\<lambda>err s out. case nm_tcp_tunnel_coap_deinit s of Inr (s1, o1) \<Rightarrow> (nc_coap_error_to_core err, s1, out @ o1)) in
      if fst r1 \<noteq> NABTO_COAP_ERROR_OK then failed (fst r1) s []
      else let s1 = s\<lparr>tt_coapListServices := Some (snd r1)\<rparr>; o1 = [AddResource [''tcp-tunnels'', ''services''] (snd r1)] in
      if fst r2 \<noteq> NABTO_COAP_ERROR_OK then failed (fst r2) s1 o1
      else let s2 = s1\<lparr>tt_coapGetService := Some (snd r2)\<rparr>; o2 = o1 @ [AddResource [''tcp-tunnels'', ''services'', ''{id}''] (snd r2)] in
      if fst r3 \<noteq> NABTO_COAP_ERROR_OK then failed (fst r3) s2 o2
      else (NABTO_EC_OK, s2\<lparr>tt_coapGetService := Some (snd r3)\<rparr>,
            o2 @ [AddResource [''tcp-tunnels'', ''connect'', ''{id}''] (snd r3)]))"

definition nm_tcp_tunnels_init ::
    "'l llist_of \<Rightarrow> nabto_coap_error \<times> nat \<Rightarrow> nabto_coap_error \<times> nat \<Rightarrow> nabto_coap_error \<times> nat \<Rightarrow> 'l nm_tcp_tunnels
       \<Rightarrow> np_error_code \<times> 'l nm_tcp_tunnels \<times> tunnels_output list" where
  "nm_tcp_tunnels_init L r1 r2 r3 s =
     (if tt_device s then (NABTO_EC_RESOURCE_EXISTS, s, [])
      else nm_tcp_tunnel_coap_init r1 r2 r3 (s\<lparr>tt_services := ll_init L, tt_device := True, tt_weakPtrCounter := 1\<rparr>))"

definition nm_tcp_tunnel_service_create :: "'l llist_of \<Rightarrow> bool \<Rightarrow> nat \<Rightarrow> 'l tunnels_act" where
  "nm_tcp_tunnel_service_create L mem h s =
     (if \<not> mem then Inl NullPointer
      else let n = tt_weakPtrCounter s + 1 in
      emit [] (put_service h \<lparr>svc_address = \<lparr>ip_type = NABTO_IPV4, ip_bytes = replicate 16 0\<rparr>, svc_port = 0, svc_streamPort = 0,
          svc_connections = ll_init L, svc_id = None, svc_type = None, svc_weakPtr = n\<rparr> (s\<lparr>tt_weakPtrCounter := n\<rparr>)))"

text \<open>The result of adding the stream listener, and the port it listens on.\<close>

definition nm_tcp_tunnel_service_init_stream_listener ::
    "np_error_code \<times> u32 \<Rightarrow> nat \<Rightarrow> 'l nm_tcp_tunnels \<Rightarrow> (np_error_code \<times> 'l nm_tcp_tunnels \<times> tunnels_output list) outcome" where
  "nm_tcp_tunnel_service_init_stream_listener r h s =
     obind (deref (tt_service s h)) (\<lambda>svc.
       if fst r = NABTO_EC_OK then Inr (NABTO_EC_OK, put_service h (svc\<lparr>svc_streamPort := snd r\<rparr>) s, [AddStreamListener (snd r)])
       else Inr (fst r, s, []))"

definition nm_tcp_tunnel_service_init ::
    "'l llist_of \<Rightarrow> heap \<Rightarrow> np_error_code \<times> u32 \<Rightarrow> nat \<Rightarrow> string \<Rightarrow> string \<Rightarrow> np_ip_address \<Rightarrow> u16 \<Rightarrow> 'l nm_tcp_tunnels
       \<Rightarrow> (np_error_code \<times> 'l nm_tcp_tunnels \<times> tunnels_output list) outcome" where
  "nm_tcp_tunnel_service_init L hp r h sid type address port s =
     obind (deref (tt_service s h)) (\<lambda>svc.
       case strdup sid hp of (i, hp1) \<Rightarrow> case strdup type hp1 of (t, _) \<Rightarrow>
       obind (nm_tcp_tunnel_service_init_stream_listener r h
                (put_service h (svc\<lparr>svc_id := i, svc_type := t, svc_address := address, svc_port := port\<rparr>) s)) (\<lambda>(ec, s1, out).
         if ec \<noteq> NABTO_EC_OK then Inr (ec, s1, out)
         else Inr (ec, s1\<lparr>tt_services := ll_append L (tt_services s1) h\<rparr>, out)))"

text \<open>The connections of a service are stopped, first to last; the list loses its first element in every round.\<close>

fun stop_connections :: "'l llist_of \<Rightarrow> nat \<Rightarrow> nat list \<Rightarrow> 'l tunnels_act" where
  "stop_connections L h [] s = Inr (s, [])"
| "stop_connections L h (c # cs) s =
     andThen (with_service h (\<lambda>svc. modify (put_service h (svc\<lparr>svc_connections := ll_erase L (svc_connections svc) 0\<rparr>))))
       (andThen (on_connection L c nm_tcp_tunnel_connection_stop_from_manager) (stop_connections L h cs)) s"

definition nm_tcp_tunnel_service_deinit :: "'l llist_of \<Rightarrow> nat \<Rightarrow> 'l tunnels_act" where
  "nm_tcp_tunnel_service_deinit L h = with_service h (\<lambda>svc.
     andThen (stop_connections L h (ll_items L (svc_connections svc))) (emit [RemoveStreamListener (svc_streamPort svc)]))"

definition nm_tcp_tunnel_service_destroy :: "'l llist_of \<Rightarrow> nat \<Rightarrow> 'l tunnels_act" where
  "nm_tcp_tunnel_service_destroy L h = with_service h (\<lambda>svc.
     modify (\<lambda>s. s\<lparr>tt_services := ll_erase_node L (tt_services s) h, tt_service := (tt_service s)(h := None)\<rparr>))"

fun find_service_in :: "(nat \<Rightarrow> 'l nm_tcp_tunnel_service option) \<Rightarrow> string \<Rightarrow> nat list \<Rightarrow> nat option outcome" where
  "find_service_in svcs i [] = Inr None"
| "find_service_in svcs i (h # hs) =
     (case svcs h of
        None \<Rightarrow> Inl UseAfterFree
      | Some svc \<Rightarrow> obind (deref (svc_id svc)) (\<lambda>x. if x = i then Inr (Some h) else find_service_in svcs i hs))"

definition nm_tcp_tunnels_find_service :: "'l llist_of \<Rightarrow> 'l nm_tcp_tunnels \<Rightarrow> string option \<Rightarrow> nat option outcome" where
  "nm_tcp_tunnels_find_service L s i =
     (case i of None \<Rightarrow> Inr None | Some i \<Rightarrow> find_service_in (tt_service s) i (ll_items L (tt_services s)))"

fun find_weak_in :: "(nat \<Rightarrow> 'l nm_tcp_tunnel_service option) \<Rightarrow> u64 \<Rightarrow> nat list \<Rightarrow> nat option outcome" where
  "find_weak_in svcs w [] = Inr None"
| "find_weak_in svcs w (h # hs) =
     (case svcs h of
        None \<Rightarrow> Inl UseAfterFree
      | Some svc \<Rightarrow> if svc_weakPtr svc = w then Inr (Some h) else find_weak_in svcs w hs)"

definition nm_tcp_tunnels_find_service_by_weak_ptr :: "'l llist_of \<Rightarrow> 'l nm_tcp_tunnels \<Rightarrow> u64 \<Rightarrow> nat option outcome" where
  "nm_tcp_tunnels_find_service_by_weak_ptr L s w = find_weak_in (tt_service s) w (ll_items L (tt_services s))"

definition nm_tcp_tunnel_service_destroy_by_id ::
    "'l llist_of \<Rightarrow> string option \<Rightarrow> 'l nm_tcp_tunnels \<Rightarrow> (np_error_code \<times> 'l nm_tcp_tunnels \<times> tunnels_output list) outcome" where
  "nm_tcp_tunnel_service_destroy_by_id L i s =
     obind (nm_tcp_tunnels_find_service L s i) (\<lambda>f. case f of
         None \<Rightarrow> Inr (NABTO_EC_NOT_FOUND, s, [])
       | Some h \<Rightarrow> obind (andThen (nm_tcp_tunnel_service_deinit L h) (nm_tcp_tunnel_service_destroy L h) s) (\<lambda>(s1, out).
           Inr (NABTO_EC_OK, s1, out)))"

text \<open>
  The loop of \<open>nm_tcp_tunnels_deinit\<close> takes the first service out of the list in every round, which is what the recursion over
  the elements does.
\<close>

fun destroy_services :: "'l llist_of \<Rightarrow> nat list \<Rightarrow> 'l tunnels_act" where
  "destroy_services L [] s = Inr (s, [])"
| "destroy_services L (h # hs) s =
     andThen (modify (\<lambda>s. s\<lparr>tt_services := ll_erase L (tt_services s) 0\<rparr>))
       (andThen (nm_tcp_tunnel_service_deinit L h)
         (andThen (nm_tcp_tunnel_service_destroy L h) (destroy_services L hs))) s"

definition nm_tcp_tunnels_deinit :: "'l llist_of \<Rightarrow> 'l tunnels_act" where
  "nm_tcp_tunnels_deinit L s =
     (if tt_device s then andThen (destroy_services L (ll_items L (tt_services s))) nm_tcp_tunnel_coap_deinit s
      else Inr (s, []))"

text \<open>
  A new stream on the port of a service: whether the authorization request could be created, and the results of adding its
  attributes. A null request cannot be discarded (\<open>discard_request\<close> writes to it).
\<close>

definition nm_tcp_tunnel_service_stream_listener_callback ::
    "bool \<Rightarrow> np_error_code \<Rightarrow> np_error_code \<Rightarrow> np_error_code \<Rightarrow> nat \<Rightarrow> nat \<Rightarrow> 'l tunnels_act" where
  "nm_tcp_tunnel_service_stream_listener_callback created a1 a2 ec stream h =
     (if ec \<noteq> NABTO_EC_OK then emit []
      else with_service h (\<lambda>svc.
        if \<not> created then (\<lambda>_. Inl NullPointer)
        else (\<lambda>s. obind (deref (svc_id svc)) (\<lambda>i.
          if a1 \<noteq> NABTO_EC_OK then emit [AuthDiscard, ReleaseStream stream] s
          else obind (deref (svc_type svc)) (\<lambda>t.
            if a2 \<noteq> NABTO_EC_OK then emit [AuthDiscard, ReleaseStream stream] s
            else emit [AuthCheckStream ''TcpTunnel:Connect'' i t (svc_weakPtr svc) stream] s)))))"

text \<open>
  The verdict. \<open>c\<close> is the new connection, if there is memory for it; the results are those of creating its socket and its
  three events.
\<close>

definition service_stream_iam_callback ::
    "'l llist_of \<Rightarrow> nat option \<Rightarrow> np_error_code \<Rightarrow> np_error_code \<Rightarrow> np_error_code \<Rightarrow> np_error_code \<Rightarrow> bool \<Rightarrow> u64 \<Rightarrow> nat
       \<Rightarrow> 'l tunnels_act" where
  "service_stream_iam_callback L c tcp ev1 ev2 ev3 allow w stream s =
     obind (nm_tcp_tunnels_find_service_by_weak_ptr L s w) (\<lambda>f. case f of
         None \<Rightarrow> emit [ReleaseStream stream] s
       | Some h \<Rightarrow>
           if \<not> allow then emit [ReleaseStream stream] s
           else case c of
             None \<Rightarrow> emit [ReleaseStream stream] s
           | Some c \<Rightarrow> with_service h (\<lambda>svc s.
               case nm_tcp_tunnel_connection_init tcp ev1 ev2 ev3 (svc_address svc) (svc_port svc) nm_tcp_tunnel_connection_new of (ec, conn, linked) \<Rightarrow>
               let s1 = s\<lparr>tt_connection := (tt_connection s)(c \<mapsto> conn)\<rparr>;
                   s2 = (if linked then put_service h (svc\<lparr>svc_connections := ll_append L (svc_connections svc) c\<rparr>) s1 else s1) in
               if ec = NABTO_EC_OK then
                 on_connection L c nm_tcp_tunnel_connection_start s2
               else on_connection L c nm_tcp_tunnel_connection_free s2) s)"

section \<open>The endpoints\<close>

text \<open>A request: its connection, if that still exists, and its parameter.\<close>

record tunnel_request =
  tr_connectionRef :: "u64 option"
  tr_id :: "string option"

datatype tunnel_call =
    AuthCheckRequest u64 string "(string \<times> string) list"
  | RequestDiscard
  | RespondError nat nat "string option"
  | RespondCode nat nat
  | RespondContentFormat u16
  | RespondPayload cbor
  | RespondReady
  | FreeRequest

definition list_services :: "bool \<Rightarrow> tunnel_request \<Rightarrow> tunnel_call list outcome" where
  "list_services created rq =
     obind (deref (tr_connectionRef rq)) (\<lambda>ref.
       if created then Inr [AuthCheckRequest ref ''TcpTunnel:ListServices'' []] else Inl NullPointer)"

fun encode_service_ids :: "(nat \<Rightarrow> 'l nm_tcp_tunnel_service option) \<Rightarrow> nat list \<Rightarrow> cbor list outcome" where
  "encode_service_ids svcs [] = Inr []"
| "encode_service_ids svcs (h # hs) =
     (case svcs h of
        None \<Rightarrow> Inl UseAfterFree
      | Some svc \<Rightarrow> obind (deref (svc_id svc)) (\<lambda>i. obind (encode_service_ids svcs hs) (\<lambda>cs. Inr (CborText i # cs))))"

definition encode_services_list :: "'l llist_of \<Rightarrow> 'l nm_tcp_tunnels \<Rightarrow> cbor outcome" where
  "encode_services_list L s = obind (encode_service_ids (tt_service s) (ll_items L (tt_services s))) (\<lambda>cs. Inr (CborArray cs))"

definition encode_service :: "'l nm_tcp_tunnel_service \<Rightarrow> cbor outcome" where
  "encode_service svc =
     obind (deref (svc_id svc)) (\<lambda>i. obind (deref (svc_type svc)) (\<lambda>t.
       Inr (CborMap [(CborText ''Id'', CborText i), (CborText ''Type'', CborText t),
         (CborText ''Host'', CborText (np_ip_address_to_string (svc_address svc))),
         (CborText ''Port'', CborUint (ucast (svc_port svc))),
         (CborText ''StreamPort'', CborUint (ucast (svc_streamPort svc)))])))"

text \<open>The end of the two handlers: whether there is memory for the payload, and whether it can be set.\<close>

definition respond_cbor :: "bool \<Rightarrow> bool \<Rightarrow> cbor \<Rightarrow> tunnel_call list" where
  "respond_cbor mem ok payload =
     (if \<not> mem then [RespondError 5 0 None, FreeRequest]
      else [RespondCode 2 5, RespondContentFormat 60, RespondPayload payload] @
           (if ok then [RespondReady] else [RespondError 5 0 None]) @ [FreeRequest])"

definition list_services_iam :: "'l llist_of \<Rightarrow> bool \<Rightarrow> bool \<Rightarrow> bool \<Rightarrow> 'l nm_tcp_tunnels \<Rightarrow> tunnel_call list outcome" where
  "list_services_iam L mem ok allow s =
     (if \<not> allow then Inr [RespondError 4 3 None, FreeRequest]
      else obind (encode_services_list L s) (\<lambda>payload. Inr (respond_cbor mem ok payload)))"

definition get_service_action ::
    "'l llist_of \<Rightarrow> bool \<Rightarrow> np_error_code \<Rightarrow> np_error_code \<Rightarrow> string \<Rightarrow> tunnel_request \<Rightarrow> 'l nm_tcp_tunnels
       \<Rightarrow> tunnel_call list outcome" where
  "get_service_action L created a1 a2 action rq s =
     obind (nm_tcp_tunnels_find_service L s (tr_id rq)) (\<lambda>f.
       case Option.bind f (tt_service s) of
         None \<Rightarrow> Inr [RespondError 4 4 None, FreeRequest]
       | Some svc \<Rightarrow>
           obind (deref (tr_connectionRef rq)) (\<lambda>ref.
             if \<not> created then Inl NullPointer
             else obind (deref (svc_id svc)) (\<lambda>i.
               if a1 \<noteq> NABTO_EC_OK then Inr [RequestDiscard, RespondError 5 0 None, FreeRequest]
               else obind (deref (svc_type svc)) (\<lambda>t.
                 if a2 \<noteq> NABTO_EC_OK then Inr [RequestDiscard, RespondError 5 0 None, FreeRequest]
                 else Inr [AuthCheckRequest ref action [(''TcpTunnel:ServiceId'', i), (''TcpTunnel:ServiceType'', t)]]))))"

definition get_service_tunnel ::
    "'l llist_of \<Rightarrow> bool \<Rightarrow> np_error_code \<Rightarrow> np_error_code \<Rightarrow> tunnel_request \<Rightarrow> 'l nm_tcp_tunnels \<Rightarrow> tunnel_call list outcome" where
  "get_service_tunnel L created a1 a2 = get_service_action L created a1 a2 ''TcpTunnel:GetService''"

definition get_connect ::
    "'l llist_of \<Rightarrow> bool \<Rightarrow> np_error_code \<Rightarrow> np_error_code \<Rightarrow> tunnel_request \<Rightarrow> 'l nm_tcp_tunnels \<Rightarrow> tunnel_call list outcome" where
  "get_connect L created a1 a2 = get_service_action L created a1 a2 ''TcpTunnel:Connect''"

definition get_service_iam ::
    "'l llist_of \<Rightarrow> bool \<Rightarrow> bool \<Rightarrow> bool \<Rightarrow> tunnel_request \<Rightarrow> 'l nm_tcp_tunnels \<Rightarrow> tunnel_call list outcome" where
  "get_service_iam L mem ok allow rq s =
     (if \<not> allow then Inr [RespondError 4 3 None, FreeRequest]
      else obind (nm_tcp_tunnels_find_service L s (tr_id rq)) (\<lambda>f.
        case Option.bind f (tt_service s) of
          None \<Rightarrow> Inr [RespondError 4 4 None, FreeRequest]
        | Some svc \<Rightarrow> obind (encode_service svc) (\<lambda>payload. Inr (respond_cbor mem ok payload))))"

section \<open>The API\<close>

text \<open>
  \<open>None\<close> is \<^verbatim>\<open>NABTO_DEVICE_EC_INVALID_ARGUMENT\<close>; the other errors are those of the core. The result of
  initialising the service is not used.
\<close>

definition nabto_device_add_tcp_tunnel_service ::
    "'l llist_of \<Rightarrow> bool \<Rightarrow> heap \<Rightarrow> np_error_code \<times> u32 \<Rightarrow> nat \<Rightarrow> string \<Rightarrow> string \<Rightarrow> string \<Rightarrow> u16 \<Rightarrow> np_ip_address
       \<Rightarrow> 'l nm_tcp_tunnels \<Rightarrow> (np_error_code option \<times> 'l nm_tcp_tunnels \<times> tunnels_output list) outcome" where
  "nabto_device_add_tcp_tunnel_service L mem hp r h serviceId serviceType host port uninit s =
     (case np_ip_address_read_v4 host uninit of (ok, address) \<Rightarrow>
      if \<not> ok then Inr (None, s, [])
      else obind (nm_tcp_tunnel_service_create L mem h s) (\<lambda>(s1, o1).
        obind (nm_tcp_tunnel_service_init L hp r h serviceId serviceType address port s1) (\<lambda>(_, s2, o2).
          Inr (Some NABTO_EC_OK, s2, o1 @ o2))))"

definition nabto_device_remove_tcp_tunnel_service ::
    "'l llist_of \<Rightarrow> string option \<Rightarrow> 'l nm_tcp_tunnels \<Rightarrow> (np_error_code \<times> 'l nm_tcp_tunnels \<times> tunnels_output list) outcome" where
  "nabto_device_remove_tcp_tunnel_service = nm_tcp_tunnel_service_destroy_by_id"

section \<open>All tunnels: the system\<close>

text \<open>
  The calls of the application, new streams, verdicts and the completions of the connections. \<open>ty_pending\<close> has the pending operations
  of every connection.
\<close>

record 'l tunnels_system =
  ty_tunnels :: "'l nm_tcp_tunnels"
  ty_pending :: "nat \<Rightarrow> to_stream \<times> to_tcp"

datatype tunnels_label =
    AddService nat string string np_ip_address u16 u32
  | RemoveService string
  | NewStream nat nat
  | Verdict bool u64 nat nat
  | Completion nat tunnel_label

definition connection_system :: "'l tunnels_system \<Rightarrow> nat \<Rightarrow> tunnel_system" where
  "connection_system s c = \<lparr>ts_conn = tt_connection (ty_tunnels s) c, ts_toStream = fst (ty_pending s c), ts_toTcp = snd (ty_pending s c)\<rparr>"

text \<open>The operations that outputs start, for every connection.\<close>

fun start_operations :: "tunnels_output list \<Rightarrow> (nat \<Rightarrow> to_stream \<times> to_tcp) \<Rightarrow> nat \<Rightarrow> to_stream \<times> to_tcp" where
  "start_operations [] p = p"
| "start_operations (ConnectionOut c x # out) p =
     (let t = start_operation x \<lparr>ts_conn = None, ts_toStream = fst (p c), ts_toTcp = snd (p c)\<rparr> in
      start_operations out (p(c := (ts_toStream t, ts_toTcp t))))"
| "start_operations (_ # out) p = start_operations out p"

definition tunnels_run :: "'l tunnels_act \<Rightarrow> ('l tunnels_system, tunnels_output) act" where
  "tunnels_run f s = obind (f (ty_tunnels s)) (\<lambda>(t, out).
     Inr (\<lparr>ty_tunnels = t, ty_pending = start_operations out (ty_pending s)\<rparr>, out))"

definition add_service :: "'l llist_of \<Rightarrow> nat \<Rightarrow> string \<Rightarrow> string \<Rightarrow> np_ip_address \<Rightarrow> u16 \<Rightarrow> u32 \<Rightarrow> 'l tunnels_act" where
  "add_service L h sid type address port streamPort =
     andThen (nm_tcp_tunnel_service_create L True h)
       (\<lambda>s. obind (nm_tcp_tunnel_service_init L [] (NABTO_EC_OK, streamPort) h sid type address port s) (\<lambda>(_, s1, out). Inr (s1, out)))"

definition remove_service :: "'l llist_of \<Rightarrow> string \<Rightarrow> 'l tunnels_act" where
  "remove_service L sid s = obind (nabto_device_remove_tcp_tunnel_service L (Some sid) s) (\<lambda>(_, s1, out). Inr (s1, out))"

fun tunnels_step :: "'l llist_of \<Rightarrow> tunnels_label \<Rightarrow> ('l tunnels_system, tunnels_output) act" where
  "tunnels_step L (AddService h sid type address port streamPort) s = tunnels_run (add_service L h sid type address port streamPort) s"
| "tunnels_step L (RemoveService sid) s = tunnels_run (remove_service L sid) s"
| "tunnels_step L (NewStream h stream) s =
     tunnels_run (nm_tcp_tunnel_service_stream_listener_callback True NABTO_EC_OK NABTO_EC_OK NABTO_EC_OK stream h) s"
| "tunnels_step L (Verdict allow w stream c) s =
     tunnels_run (service_stream_iam_callback L (Some c) NABTO_EC_OK NABTO_EC_OK NABTO_EC_OK NABTO_EC_OK allow w stream) s"
| "tunnels_step L (Completion c l) s =
     tunnels_run (on_connection L c (tunnel_handler l))
       (let t = complete_operation l (connection_system s c) in s\<lparr>ty_pending := (ty_pending s)(c := (ts_toStream t, ts_toTcp t))\<rparr>)"

text \<open>
  A new service or connection is a fresh pointer, a stream arrives on the port of a service that listens, and the
  completions of a connection are those of one tunnel.
\<close>

fun tunnels_allowed :: "'l llist_of \<Rightarrow> 'l tunnels_system \<Rightarrow> tunnels_label \<Rightarrow> bool" where
  "tunnels_allowed L s (AddService h sid type address port streamPort) \<longleftrightarrow> tt_service (ty_tunnels s) h = None"
| "tunnels_allowed L s (RemoveService sid) = True"
| "tunnels_allowed L s (NewStream h stream) \<longleftrightarrow> h \<in> set (ll_items L (tt_services (ty_tunnels s)))"
| "tunnels_allowed L s (Verdict allow w stream c) \<longleftrightarrow> tt_connection (ty_tunnels s) c = None"
| "tunnels_allowed L s (Completion c l) \<longleftrightarrow> l \<noteq> TStop \<and> tunnel_allowed (connection_system s c) l"

fun tunnels_allowed_run :: "'l llist_of \<Rightarrow> tunnels_label list \<Rightarrow> 'l tunnels_system \<Rightarrow> bool" where
  "tunnels_allowed_run L [] s = True"
| "tunnels_allowed_run L (l # ls) s \<longleftrightarrow> tunnels_allowed L s l \<and>
     (case tunnels_step L l s of Inl _ \<Rightarrow> True | Inr (s', _) \<Rightarrow> tunnels_allowed_run L ls s')"

definition tunnels_started :: "'l llist_of \<Rightarrow> 'l tunnels_system" where
  "tunnels_started L = \<lparr>ty_tunnels = \<lparr>tt_device = True, tt_services = ll_init L, tt_weakPtrCounter = 1, tt_coapListServices = Some 0,
     tt_coapGetService = Some 2, tt_service = (\<lambda>_. None), tt_connection = (\<lambda>_. None)\<rparr>, ty_pending = (\<lambda>_. (TsIdle, TtIdle))\<rparr>"

text \<open>The services that were added, in order, and the one that a weak pointer names.\<close>

fun added_services :: "tunnels_label list \<Rightarrow> (string \<times> string \<times> np_ip_address \<times> u16) list" where
  "added_services [] = []"
| "added_services (AddService h sid type address port streamPort # ls) = (sid, type, address, port) # added_services ls"
| "added_services (_ # ls) = added_services ls"

definition named_service :: "(string \<times> string \<times> np_ip_address \<times> u16) list \<Rightarrow> u64 \<Rightarrow> (string \<times> string \<times> np_ip_address \<times> u16) option" where
  "named_service as w = (if 2 \<le> unat w \<and> unat w - 2 < length as then Some (as ! (unat w - 2)) else None)"

text \<open>A step, with every output next to the event that caused it.\<close>

definition traced_step :: "'l llist_of \<Rightarrow> tunnels_label \<Rightarrow> ('l tunnels_system, tunnels_label \<times> tunnels_output) act" where
  "traced_step L l s = obind (tunnels_step L l s) (\<lambda>(s1, out). Inr (s1, map (Pair l) out))"

definition tunnel_ok :: "tunnel_system \<Rightarrow> bool" where
  "tunnel_ok t \<longleftrightarrow> (\<exists>failed out. tunnel_inv t failed out)"

definition service_ok ::
    "'l llist_of \<Rightarrow> (string \<times> string \<times> np_ip_address \<times> u16) list \<Rightarrow> (nat \<Rightarrow> nm_tcp_tunnel_connection option)
       \<Rightarrow> 'l nm_tcp_tunnel_service \<Rightarrow> bool" where
  "service_ok L as conns svc \<longleftrightarrow>
     (\<exists>i t. svc_id svc = Some i \<and> svc_type svc = Some t \<and>
        named_service as (svc_weakPtr svc) = Some (i, t, svc_address svc, svc_port svc)) \<and>
     distinct (ll_items L (svc_connections svc)) \<and> (\<forall>c\<in>set (ll_items L (svc_connections svc)). conns c \<noteq> None)"

definition tunnels_inv :: "'l llist_of \<Rightarrow> (string \<times> string \<times> np_ip_address \<times> u16) list \<Rightarrow> 'l tunnels_system \<Rightarrow> bool" where
  "tunnels_inv L as s \<longleftrightarrow>
     (let t = ty_tunnels s in
      distinct (ll_items L (tt_services t)) \<and> unat (tt_weakPtrCounter t) = 1 + length as \<and>
      (\<forall>h\<in>set (ll_items L (tt_services t)). tt_service t h \<noteq> None) \<and>
      (\<forall>h svc. tt_service t h = Some svc \<longrightarrow> h \<in> set (ll_items L (tt_services t)) \<and> service_ok L as (tt_connection t) svc) \<and>
      (\<forall>c. tt_connection t c \<noteq> None \<longrightarrow> tunnel_ok (connection_system s c)) \<and>
      (\<forall>c. tt_connection t c = None \<longrightarrow> ty_pending s c = (TsIdle, TtIdle)))"

text \<open>A handler of a connection in the system is the handler in the system of that tunnel.\<close>

definition put_connection :: "'l llist_of \<Rightarrow> nat \<Rightarrow> tunnel_system \<Rightarrow> bool \<Rightarrow> 'l tunnels_system \<Rightarrow> 'l tunnels_system" where
  "put_connection L c t erased s =
     (let u = (ty_tunnels s)\<lparr>tt_connection := (tt_connection (ty_tunnels s))(c := ts_conn t)\<rparr> in
      \<lparr>ty_tunnels = if erased then erase_connection L c u else u,
       ty_pending = (ty_pending s)(c := (ts_toStream t, ts_toTcp t))\<rparr>)"

text \<open>Outputs that neither ask for access nor connect to a service.\<close>

definition no_access :: "tunnels_output list \<Rightarrow> bool" where
  "no_access out \<longleftrightarrow> (\<forall>x\<in>set out. case x of AuthCheckStream _ _ _ _ _ \<Rightarrow> False | ConnectionOut _ (TcpConnect _ _) \<Rightarrow> False | _ \<Rightarrow> True)"

definition link_connection :: "'l llist_of \<Rightarrow> nat \<Rightarrow> 'l nm_tcp_tunnel_service \<Rightarrow> nat \<Rightarrow> nm_tcp_tunnel_connection \<Rightarrow> 'l nm_tcp_tunnels \<Rightarrow> 'l nm_tcp_tunnels" where
  "link_connection L h svc c conn s =
     put_service h (svc\<lparr>svc_connections := ll_append L (svc_connections svc) c\<rparr>) (s\<lparr>tt_connection := (tt_connection s)(c \<mapsto> conn)\<rparr>)"

text \<open>What an output that an event caused says of the services added so far.\<close>

definition authorized :: "(string \<times> string \<times> np_ip_address \<times> u16) list \<Rightarrow> tunnels_label \<times> tunnels_output \<Rightarrow> bool" where
  "authorized as e = (case e of
       (_, AuthCheckStream _ i t w _) \<Rightarrow> (case named_service as w of None \<Rightarrow> False | Some (i', t', _, _) \<Rightarrow> i' = i \<and> t' = t)
     | (l, ConnectionOut c (TcpConnect a p)) \<Rightarrow>
         (case l of Verdict allow w _ c' \<Rightarrow> allow \<and> c' = c \<and>
            (case named_service as w of None \<Rightarrow> False | Some (_, _, a', p') \<Rightarrow> a' = a \<and> p' = p)
          | _ \<Rightarrow> False)
     | _ \<Rightarrow> True)"

definition tunnels_demo :: "tunnels_label list" where
  "tunnels_demo = [AddService 7 ''ssh'' ''tcp'' \<lparr>ip_type = NABTO_IPV4, ip_bytes = replicate 16 1\<rparr> 22 3,
     NewStream 7 100, AddService 8 ''web'' ''http'' \<lparr>ip_type = NABTO_IPV4, ip_bytes = replicate 16 2\<rparr> 80 4,
     NewStream 8 101, RemoveService ''ssh'', Verdict True 2 100 1, Verdict True 3 101 1, Completion 1 (TConnected NABTO_EC_OK)]"

text \<open>A service with one stream whose connection could not be initialised, and what removing the service does then.\<close>

definition linked_after_free :: "nat list nm_tcp_tunnels outcome" where
  "linked_after_free =
     obind (tunnels_step llist_by_list (AddService 7 ''ssh'' ''tcp'' \<lparr>ip_type = NABTO_IPV4, ip_bytes = []\<rparr> 22 3) (tunnels_started llist_by_list))
       (\<lambda>(s, _). obind (service_stream_iam_callback llist_by_list (Some 1) NABTO_EC_OK NABTO_EC_OK NABTO_EC_OUT_OF_MEMORY NABTO_EC_OK True 2 100 (ty_tunnels s))
         (\<lambda>(t, _). Inr t))"

section \<open>A tunnel connection: theorems\<close>

lemmas tunnel_defs = tunnel_step_def tunnel_run_def with_tunnel_def upd_tunnel_def nm_tcp_tunnel_connection_free_def tunnel_stream_def
  the_end_def is_ended_def abort_connection_def nm_tcp_tunnel_connection_stop_from_manager_def start_tcp_read_def
  start_stream_read_def connected_def connect_callback_def close_stream_def start_stream_write_def tcp_readen_def
  stream_closed_def stream_written_def close_tcp_def start_tcp_write_def stream_readen_def tcp_written_def
  store_tcp_def store_stream_def

lemma tunnel_step_inv:
  assumes "tunnel_inv s failed out" "tunnel_allowed s l"
  shows "\<exists>s' o1. tunnel_step l s = Inr (s', o1) \<and> tunnel_inv s' (failed \<or> tcp_read_failed l) (out @ o1) \<and>
    to_stream_bytes o1 = tcp_bytes [l] \<and> to_tcp_bytes o1 = stream_bytes [l]"
proof (cases "ts_conn s")
  case None
  with assms show ?thesis by (cases l) (auto simp: tunnel_inv_def)
next
  case (Some c)
  show ?thesis
  proof (cases l)
    case (TConnected ec)
    with assms Some show ?thesis
      by (auto simp: tunnel_defs act_simps andThen_def tunnel_inv_def stream_open_def)
  next
    case (TReaden ec b)
    with assms Some show ?thesis
      by (cases b) (auto simp: tunnel_defs act_simps andThen_def tunnel_inv_def stream_open_def read_result_def)
  next
    case (SWritten ec)
    with assms Some show ?thesis
      by (auto simp: tunnel_defs act_simps andThen_def tunnel_inv_def)
  next
    case (SClosed ec)
    with assms Some show ?thesis
      by (auto simp: tunnel_defs act_simps andThen_def tunnel_inv_def)
  next
    case (SReaden ec b)
    with assms Some show ?thesis
      by (cases b) (auto simp: tunnel_defs act_simps andThen_def tunnel_inv_def read_result_def)
  next
    case (TWritten ec)
    with assms Some show ?thesis
      by (auto simp: tunnel_defs act_simps andThen_def tunnel_inv_def stream_open_def)
  next
    case TStop
    with assms Some show ?thesis
      by (auto simp: tunnel_defs act_simps andThen_def tunnel_inv_def)
  qed
qed

lemma tcp_bytes_append: "tcp_bytes (ls @ ks) = tcp_bytes ls @ tcp_bytes ks"
  by (induction ls rule: tcp_bytes.induct) auto

lemma stream_bytes_append: "stream_bytes (ls @ ks) = stream_bytes ls @ stream_bytes ks"
  by (induction ls rule: stream_bytes.induct) auto

lemma to_stream_bytes_append: "to_stream_bytes (ls @ ks) = to_stream_bytes ls @ to_stream_bytes ks"
  by (induction ls rule: to_stream_bytes.induct) auto

lemma to_tcp_bytes_append: "to_tcp_bytes (ls @ ks) = to_tcp_bytes ls @ to_tcp_bytes ks"
  by (induction ls rule: to_tcp_bytes.induct) auto

lemma tunnel_run_inv:
  assumes "tunnel_inv s failed out" "tunnel_allowed_run ls s"
  shows "\<exists>s' o1. run_acts tunnel_step ls s = Inr (s', o1) \<and> tunnel_inv s' (failed \<or> list_ex tcp_read_failed ls) (out @ o1) \<and>
    to_stream_bytes o1 = tcp_bytes ls \<and> to_tcp_bytes o1 = stream_bytes ls"
  using assms
proof (induction ls arbitrary: s failed out)
  case Nil
  then show ?case by simp
next
  case (Cons l ls)
  from Cons.prems have "tunnel_allowed s l" by simp
  with Cons.prems(1) obtain s1 o1 where 1: "tunnel_step l s = Inr (s1, o1)"
      "tunnel_inv s1 (failed \<or> tcp_read_failed l) (out @ o1)"
      "to_stream_bytes o1 = tcp_bytes [l]" "to_tcp_bytes o1 = stream_bytes [l]"
    using tunnel_step_inv by blast
  with Cons.prems(2) have "tunnel_allowed_run ls s1" by simp
  from Cons.IH [OF 1(2) this] obtain s2 o2 where 2: "run_acts tunnel_step ls s1 = Inr (s2, o2)"
      "tunnel_inv s2 ((failed \<or> tcp_read_failed l) \<or> list_ex tcp_read_failed ls) ((out @ o1) @ o2)"
      "to_stream_bytes o2 = tcp_bytes ls" "to_tcp_bytes o2 = stream_bytes ls"
    by blast
  from 1 2 show ?case
    using tcp_bytes_append [of "[l]" ls] stream_bytes_append [of "[l]" ls]
    by (simp add: andThen_def to_stream_bytes_append to_tcp_bytes_append disj_assoc)
qed

lemma tunnel_inv_started: "tunnel_inv (tunnel_started address port) False []"
  by (simp add: tunnel_inv_def tunnel_started_def nm_tcp_tunnel_connection_new_def)

lemma tunnel_started_by_start:
  assumes "nm_tcp_tunnel_connection_init NABTO_EC_OK NABTO_EC_OK NABTO_EC_OK NABTO_EC_OK address port nm_tcp_tunnel_connection_new = (NABTO_EC_OK, c, True)"
  shows "tunnel_run nm_tcp_tunnel_connection_start \<lparr>ts_conn = Some c, ts_toStream = TsIdle, ts_toTcp = TtIdle\<rparr>
    = Inr ((tunnel_started address port), [StreamAccept, TcpConnect address port])"
  using assms
  by (auto simp: nm_tcp_tunnel_connection_init_def nm_tcp_tunnel_connection_new_def tunnel_started_def Let_def tunnel_defs
      nm_tcp_tunnel_connection_start_def start_connect_def act_simps andThen_def)



lemmas tunnel_eval = demo_tunnel_def tunnel_demo_def tunnel_leak_demo_def tunnel_started_def nm_tcp_tunnel_connection_new_def tunnel_defs act_simps andThen_def
  read_result_def stream_open_def NM_TCP_TUNNEL_BUFFER_SIZE_def

lemma tunnel_leak:
  "tunnel_allowed_run tunnel_leak_demo demo_tunnel \<and>
   (case run_acts tunnel_step tunnel_leak_demo demo_tunnel of Inl _ \<Rightarrow> False
    | Inr (s, _) \<Rightarrow> ts_conn s \<noteq> None \<and> ts_toStream s = TsIdle \<and> ts_toTcp s = TtIdle)"
  by (simp add: tunnel_eval)



section \<open>All tunnels: lemmas\<close>

lemma start_operation_conn:
  "ts_toStream (start_operation x (s\<lparr>ts_conn := k\<rparr>)) = ts_toStream (start_operation x s)"
  "ts_toTcp (start_operation x (s\<lparr>ts_conn := k\<rparr>)) = ts_toTcp (start_operation x s)"
  "ts_conn (start_operation x s) = ts_conn s"
  by (cases x; simp)+

lemma fold_start_operation_conn: "ts_conn (fold start_operation out s) = ts_conn s"
  by (induction out arbitrary: s) (simp_all add: start_operation_conn)

lemma start_operations_connection:
  "start_operations (map (ConnectionOut c) out) p =
     p(c := (let t = fold start_operation out \<lparr>ts_conn = k, ts_toStream = fst (p c), ts_toTcp = snd (p c)\<rparr> in
       (ts_toStream t, ts_toTcp t)))"
proof (induction out arbitrary: p)
  case (Cons x out)
  let ?t = "start_operation x \<lparr>ts_conn = k, ts_toStream = fst (p c), ts_toTcp = snd (p c)\<rparr>"
  have "start_operation x \<lparr>ts_conn = None, ts_toStream = fst (p c), ts_toTcp = snd (p c)\<rparr> = ?t\<lparr>ts_conn := None\<rparr>"
    by (cases x) simp_all
  moreover have "\<lparr>ts_conn = k, ts_toStream = ts_toStream ?t, ts_toTcp = ts_toTcp ?t\<rparr> = ?t"
    by (cases x) simp_all
  ultimately show ?case by (simp add: Cons.IH Let_def fun_upd_def cong: if_cong)
qed (simp add: Let_def)

lemma start_operations_append: "start_operations (o1 @ o2) p = start_operations o2 (start_operations o1 p)"
proof (induction o1 arbitrary: p)
  case (Cons x o1)
  then show ?case by (cases x) (simp_all add: Let_def fun_upd_def)
qed simp

lemma tunnels_run_andThen: "tunnels_run (andThen f g) s = andThen (tunnels_run f) (tunnels_run g) s"
  by (auto simp: tunnels_run_def andThen_def obind_def start_operations_append split: sum.splits)

lemma tunnels_run_emit: "tunnels_run (emit out) s = Inr (s\<lparr>ty_pending := start_operations out (ty_pending s)\<rparr>, out)"
  by (simp add: tunnels_run_def emit_def)

lemma tunnels_run_modify: "tunnels_run (modify f) s = Inr (s\<lparr>ty_tunnels := f (ty_tunnels s)\<rparr>, [])"
  by (simp add: tunnels_run_def modify_def)

lemma tunnels_run_with_service:
  assumes "tt_service (ty_tunnels s) h = Some svc"
  shows "tunnels_run (with_service h f) s = tunnels_run (f svc) s"
  using assms by (simp add: tunnels_run_def with_service_def)

lemma tunnels_run_on_connection:
  assumes "tunnel_run f (connection_system s c) = Inr (t, out)"
  shows "tunnels_run (on_connection L c f) s = Inr (put_connection L c t (ListErase \<in> set out) s, map (ConnectionOut c) out)"
proof -
  from assms obtain x where x: "f (tt_connection (ty_tunnels s) c) = Inr (x, out)"
      "t = fold start_operation out ((connection_system s c)\<lparr>ts_conn := x\<rparr>)"
    by (auto simp: tunnel_run_def connection_system_def obind_eq_Inr_iff)
  have "ts_conn t = x" by (simp add: x fold_start_operation_conn)
  then show ?thesis
    using x
    by (simp add: tunnels_run_def on_connection_def start_operations_connection [where k = x] connection_system_def put_connection_def Let_def)
qed

lemma tunnel_step_outputs:
  assumes "tunnel_step l s = Inr (t, out)" "ts_conn s \<noteq> None"
  shows "(ListErase \<in> set out) = (ts_conn t = None)" "TcpConnect a p \<notin> set out"
  using assms
  by (cases l; force simp: tunnel_defs act_simps andThen_def split: option.splits if_splits)+

lemma named_service_append: "named_service as w = Some x \<Longrightarrow> named_service (as @ bs) w = Some x"
  by (auto simp: named_service_def nth_append split: if_splits)

lemma tunnel_ok_step:
  assumes "tunnel_ok t" "tunnel_allowed t l"
  shows "\<exists>t' out. tunnel_step l t = Inr (t', out) \<and> tunnel_ok t' \<and> (ts_conn t' = None \<longrightarrow> ts_toStream t' = TsIdle \<and> ts_toTcp t' = TtIdle)"
proof -
  from assms(1) obtain failed out where "tunnel_inv t failed out" by (auto simp: tunnel_ok_def)
  from tunnel_step_inv [OF this assms(2)] obtain t' o1 where 1: "tunnel_step l t = Inr (t', o1)"
      "tunnel_inv t' (failed \<or> tcp_read_failed l) (out @ o1)" by blast
  then have "ts_conn t' = None \<longrightarrow> ts_toStream t' = TsIdle \<and> ts_toTcp t' = TtIdle"
    by (auto simp: tunnel_inv_def)
  with 1 show ?thesis by (auto simp: tunnel_ok_def)
qed

lemma connection_system_put:
  "connection_system (put_connection L c t e s) d = (if d = c then t else connection_system s d)"
  by (simp add: connection_system_def put_connection_def Let_def erase_connection_def)

lemma put_connection_simps [simp]:
  "tt_services (ty_tunnels (put_connection L c t e s)) = tt_services (ty_tunnels s)"
  "tt_weakPtrCounter (ty_tunnels (put_connection L c t e s)) = tt_weakPtrCounter (ty_tunnels s)"
  "tt_connection (ty_tunnels (put_connection L c t e s)) = (tt_connection (ty_tunnels s))(c := ts_conn t)"
  "ty_pending (put_connection L c t e s) = (ty_pending s)(c := (ts_toStream t, ts_toTcp t))"
  "tt_service (ty_tunnels (put_connection L c t e s)) h =
     (if e then map_option (\<lambda>svc. svc\<lparr>svc_connections := ll_erase_node L (svc_connections svc) c\<rparr>) (tt_service (ty_tunnels s) h)
      else tt_service (ty_tunnels s) h)"
  by (simp_all add: put_connection_def erase_connection_def Let_def)

lemma service_ok_update:
  assumes "service_ok L as conns svc" "x \<noteq> None"
  shows "service_ok L as (conns(c := x)) svc"
  using assms by (auto simp: service_ok_def)

lemma service_ok_erase:
  assumes "nn_llist_laws L" "service_ok L as conns svc"
  shows "service_ok L as (conns(c := x)) (svc\<lparr>svc_connections := ll_erase_node L (svc_connections svc) c\<rparr>)"
  using assms by (auto simp: service_ok_def nn_laws)

lemma tunnels_inv_put:
  assumes L: "nn_llist_laws L" and s: "tunnels_inv L as s" and t: "tunnel_ok t" "ts_conn t = None \<Longrightarrow> ts_toStream t = TsIdle \<and> ts_toTcp t = TtIdle"
  shows "tunnels_inv L as (put_connection L c t (ts_conn t = None) s)"
  using s t
  by (auto simp: tunnels_inv_def Let_def connection_system_put service_ok_update service_ok_erase [OF L])

lemma tunnels_invD:
  assumes "tunnels_inv L as s"
  shows "distinct (ll_items L (tt_services (ty_tunnels s)))" "unat (tt_weakPtrCounter (ty_tunnels s)) = 1 + length as"
    "h \<in> set (ll_items L (tt_services (ty_tunnels s))) \<Longrightarrow> \<exists>svc. tt_service (ty_tunnels s) h = Some svc"
    "tt_service (ty_tunnels s) h = Some svc \<Longrightarrow> h \<in> set (ll_items L (tt_services (ty_tunnels s)))"
    "tt_service (ty_tunnels s) h = Some svc \<Longrightarrow> service_ok L as (tt_connection (ty_tunnels s)) svc"
    "tt_connection (ty_tunnels s) c \<noteq> None \<Longrightarrow> tunnel_ok (connection_system s c)"
    "tt_connection (ty_tunnels s) c = None \<Longrightarrow> ty_pending s c = (TsIdle, TtIdle)"
  using assms by (auto simp: tunnels_inv_def Let_def)

text \<open>A handler of a connection that the tunnel's own system allows.\<close>

lemma completion_step:
  assumes L: "nn_llist_laws L" and s: "tunnels_inv L as s" "tunnel_allowed (connection_system s c) l"
  shows "\<exists>s' out. tunnels_step L (Completion c l) s = Inr (s', map (ConnectionOut c) out) \<and> tunnels_inv L as s' \<and>
    (\<forall>a p. TcpConnect a p \<notin> set out)"
proof -
  let ?t = "connection_system s c"
  have live: "tt_connection (ty_tunnels s) c \<noteq> None"
  proof
    assume "tt_connection (ty_tunnels s) c = None"
    with tunnels_invD(7) [OF s(1)] s(2) show False by (cases l) (auto simp: connection_system_def)
  qed
  from tunnel_ok_step [OF tunnels_invD(6) [OF s(1) live] s(2)] obtain t' out where t': "tunnel_step l ?t = Inr (t', out)" "tunnel_ok t'"
      "ts_conn t' = None \<longrightarrow> ts_toStream t' = TsIdle \<and> ts_toTcp t' = TtIdle"
    by (elim exE conjE) (rule that)
  let ?s = "s\<lparr>ty_pending := (ty_pending s)(c := (ts_toStream (complete_operation l ?t), ts_toTcp (complete_operation l ?t)))\<rparr>"
  have c: "connection_system ?s c = complete_operation l ?t"
    by (cases l) (simp_all add: connection_system_def)
  have e: "(ListErase \<in> set out) = (ts_conn t' = None)" "\<And>a p. TcpConnect a p \<notin> set out"
    using tunnel_step_outputs [OF t'(1)] live by (simp_all add: connection_system_def)
  have r: "tunnels_run (on_connection L c (tunnel_handler l)) ?s =
      Inr (put_connection L c t' (ListErase \<in> set out) ?s, map (ConnectionOut c) out)"
    by (rule tunnels_run_on_connection) (simp only: c t'(1) [unfolded tunnel_step_def])
  have "put_connection L c t' (ts_conn t' = None) ?s = put_connection L c t' (ts_conn t' = None) s"
    by (simp add: put_connection_def Let_def)
  with tunnels_inv_put [OF L s(1) t'(2)] t'(3) have i: "tunnels_inv L as (put_connection L c t' (ts_conn t' = None) ?s)" by simp
  have "tunnels_step L (Completion c l) s = tunnels_run (on_connection L c (tunnel_handler l)) ?s"
    by (simp only: tunnels_step.simps Let_def)
  then have "tunnels_step L (Completion c l) s =
      Inr (put_connection L c t' (ts_conn t' = None) ?s, map (ConnectionOut c) out)"
    by (simp only: r e(1))
  with i e(2) show ?thesis by (intro exI conjI allI)
qed

lemma find_service_in_ok:
  assumes "\<forall>h\<in>set hs. \<exists>svc i. svcs h = Some svc \<and> svc_id svc = Some i"
  shows "\<exists>f. find_service_in svcs i hs = Inr f \<and> (\<forall>h. f = Some h \<longrightarrow> h \<in> set hs)"
  using assms by (induction hs) (auto simp: deref_def obind_def)

lemma find_weak_in_ok:
  assumes "\<forall>h\<in>set hs. \<exists>svc. svcs h = Some svc"
  shows "\<exists>f. find_weak_in svcs w hs = Inr f \<and> (\<forall>h. f = Some h \<longrightarrow> h \<in> set hs \<and> (\<exists>svc. svcs h = Some svc \<and> svc_weakPtr svc = w))"
  using assms by (induction hs) auto

lemma no_access_simps [simp]:
  "no_access []" "no_access (o1 @ o2) \<longleftrightarrow> no_access o1 \<and> no_access o2"
  by (auto simp: no_access_def)

lemma no_access_connection: "(\<forall>a p. TcpConnect a p \<notin> set out) \<Longrightarrow> no_access (map (ConnectionOut c) out)"
  by (auto simp: no_access_def split: tunnel_output.splits)

lemma stop_step:
  assumes L: "nn_llist_laws L" and s: "tunnels_inv L as s" and c: "tt_connection (ty_tunnels s) c \<noteq> None"
  shows "\<exists>s' out. tunnels_run (on_connection L c nm_tcp_tunnel_connection_stop_from_manager) s = Inr (s', out) \<and>
    tunnels_inv L as s' \<and> tt_service (ty_tunnels s') = tt_service (ty_tunnels s) \<and> no_access out"
proof -
  let ?t = "connection_system s c"
  have live: "ts_conn ?t \<noteq> None" using c by (simp add: connection_system_def)
  then have "tunnel_allowed ?t TStop" by simp
  from tunnel_ok_step [OF tunnels_invD(6) [OF s c] this] obtain t' out where t': "tunnel_step TStop ?t = Inr (t', out)" "tunnel_ok t'"
      "ts_conn t' = None \<longrightarrow> ts_toStream t' = TsIdle \<and> ts_toTcp t' = TtIdle"
    by (elim exE conjE) (rule that)
  have conn: "ts_conn t' \<noteq> None"
    using t'(1) live by (auto simp: tunnel_defs act_simps andThen_def split: option.splits if_splits)
  have e: "(ListErase \<in> set out) = (ts_conn t' = None)" "\<And>a p. TcpConnect a p \<notin> set out"
    using tunnel_step_outputs [OF t'(1) live] by simp_all
  have r: "tunnels_run (on_connection L c nm_tcp_tunnel_connection_stop_from_manager) s =
      Inr (put_connection L c t' (ListErase \<in> set out) s, map (ConnectionOut c) out)"
    by (rule tunnels_run_on_connection) (use t'(1) in \<open>simp add: tunnel_step_def\<close>)
  have "tunnels_inv L as (put_connection L c t' (ts_conn t' = None) s)"
    by (rule tunnels_inv_put [OF L s t'(2)]) (use t'(3) in simp)
  moreover have "tt_service (ty_tunnels (put_connection L c t' (ts_conn t' = None) s)) = tt_service (ty_tunnels s)"
    using conn by (auto simp: fun_eq_iff)
  moreover have "no_access (map (ConnectionOut c) out)" using e(2) by (simp add: no_access_connection)
  ultimately show ?thesis using r unfolding e(1) by (intro exI conjI)
qed

lemma unlink_inv:
  assumes L: "nn_llist_laws L" and s: "tunnels_inv L as s" "tt_service (ty_tunnels s) h = Some svc" "ll_items L (svc_connections svc) = c # cs"
  defines "svc' \<equiv> svc\<lparr>svc_connections := ll_erase L (svc_connections svc) 0\<rparr>"
  shows "tunnels_inv L as (s\<lparr>ty_tunnels := put_service h svc' (ty_tunnels s)\<rparr>)" "ll_items L (svc_connections svc') = cs"
proof -
  show items: "ll_items L (svc_connections svc') = cs"
    using s(3) by (simp add: svc'_def ll_items_erase [OF L])
  have "service_ok L as (tt_connection (ty_tunnels s)) svc'"
    using tunnels_invD(5) [OF s(1,2)] s(3) items by (auto simp: service_ok_def svc'_def)
  with s(1,2) show "tunnels_inv L as (s\<lparr>ty_tunnels := put_service h svc' (ty_tunnels s)\<rparr>)"
    by (auto simp: tunnels_inv_def Let_def put_service_def connection_system_def)
qed

lemma tunnels_run_seq:
  assumes "tunnels_run f s = Inr (s1, o1)" "tunnels_run g s1 = Inr (s2, o2)"
  shows "tunnels_run (andThen f g) s = Inr (s2, o1 @ o2)"
  using assms by (simp add: tunnels_run_andThen andThen_def)

lemma stop_connections_inv:
  assumes L: "nn_llist_laws L" and "tunnels_inv L as s" "tt_service (ty_tunnels s) h = Some svc" "ll_items L (svc_connections svc) = cs"
  shows "\<exists>s' out. tunnels_run (stop_connections L h cs) s = Inr (s', out) \<and> tunnels_inv L as s' \<and>
    tt_service (ty_tunnels s') h \<noteq> None \<and> no_access out"
  using assms(2-)
proof (induction cs arbitrary: s svc)
  case Nil
  moreover have "tunnels_run (stop_connections L h []) s = Inr (s, [])" by (cases s) (simp add: tunnels_run_def)
  ultimately show ?case by (intro exI [of _ s] exI [of _ "[]"] conjI) (simp_all del: stop_connections.simps)
next
  case (Cons c cs)
  let ?svc = "svc\<lparr>svc_connections := ll_erase L (svc_connections svc) 0\<rparr>"
  let ?s1 = "s\<lparr>ty_tunnels := put_service h ?svc (ty_tunnels s)\<rparr>"
  note inv1 = unlink_inv [OF L Cons.prems]
  have r1: "tunnels_run (with_service h (\<lambda>svc. modify (put_service h (svc\<lparr>svc_connections := ll_erase L (svc_connections svc) 0\<rparr>)))) s
      = Inr (?s1, [])"
    by (simp only: tunnels_run_with_service [OF Cons.prems(2)] tunnels_run_modify)
  have "tt_connection (ty_tunnels ?s1) c \<noteq> None"
    using tunnels_invD(5) [OF Cons.prems(1,2)] Cons.prems(3) by (auto simp: service_ok_def put_service_def)
  from stop_step [OF L inv1(1) this] obtain s2 o2 where 2:
      "tunnels_run (on_connection L c nm_tcp_tunnel_connection_stop_from_manager) ?s1 = Inr (s2, o2)"
      "tunnels_inv L as s2" "tt_service (ty_tunnels s2) = tt_service (ty_tunnels ?s1)" "no_access o2"
    by (elim exE conjE) (rule that)
  have "tt_service (ty_tunnels s2) h = Some ?svc" by (simp add: 2(3) put_service_def)
  from Cons.IH [OF 2(2) this inv1(2)] obtain s3 o3 where 3: "tunnels_run (stop_connections L h cs) s2 = Inr (s3, o3)"
      "tunnels_inv L as s3" "tt_service (ty_tunnels s3) h \<noteq> None" "no_access o3"
    by (elim exE conjE) (rule that)
  have "tunnels_run (stop_connections L h (c # cs)) s = Inr (s3, [] @ o2 @ o3)"
    using tunnels_run_seq [OF r1 tunnels_run_seq [OF 2(1) 3(1)]] by (simp add: tunnels_run_def)
  with 2(4) 3 show ?case by (intro exI [of _ s3] exI [of _ "o2 @ o3"] conjI) (simp_all del: stop_connections.simps)
qed

lemma deinit_inv:
  assumes L: "nn_llist_laws L" and s: "tunnels_inv L as s" "tt_service (ty_tunnels s) h = Some svc"
  shows "\<exists>s' out. tunnels_run (andThen (nm_tcp_tunnel_service_deinit L h) (nm_tcp_tunnel_service_destroy L h)) s = Inr (s', out) \<and>
    tunnels_inv L as s' \<and> no_access out \<and> tt_service (ty_tunnels s') h = None"
proof -
  from stop_connections_inv [OF L s refl] obtain s1 o1 where 1: "tunnels_run (stop_connections L h (ll_items L (svc_connections svc))) s = Inr (s1, o1)"
      "tunnels_inv L as s1" "tt_service (ty_tunnels s1) h \<noteq> None" "no_access o1"
    by (elim exE conjE) (rule that)
  then obtain svc1 where svc1: "tt_service (ty_tunnels s1) h = Some svc1" by auto
  have e: "tunnels_run (emit [RemoveStreamListener (svc_streamPort svc)]) s1 = Inr (s1, [RemoveStreamListener (svc_streamPort svc)])"
    by (simp add: tunnels_run_emit)
  let ?s2 = "s1\<lparr>ty_tunnels := (ty_tunnels s1)\<lparr>tt_services := ll_erase_node L (tt_services (ty_tunnels s1)) h,
    tt_service := (tt_service (ty_tunnels s1))(h := None)\<rparr>\<rparr>"
  have d: "tunnels_run (nm_tcp_tunnel_service_destroy L h) s1 = Inr (?s2, [])"
    by (simp add: nm_tcp_tunnel_service_destroy_def tunnels_run_with_service [OF svc1] tunnels_run_modify)
  have deinit: "tunnels_run (nm_tcp_tunnel_service_deinit L h) s = Inr (s1, o1 @ [RemoveStreamListener (svc_streamPort svc)])"
    unfolding nm_tcp_tunnel_service_deinit_def tunnels_run_with_service [OF s(2)] by (rule tunnels_run_seq [OF 1(1) e])
  have "tunnels_inv L as ?s2"
    using 1(2) tunnels_invD(1) [OF 1(2)]
    by (auto simp: tunnels_inv_def Let_def connection_system_def ll_items_erase_node [OF L])
  moreover have "no_access ((o1 @ [RemoveStreamListener (svc_streamPort svc)]) @ [])" using 1(4) by (simp add: no_access_def)
  moreover have "tt_service (ty_tunnels ?s2) h = None" by simp
  ultimately show ?thesis using tunnels_run_seq [OF deinit d] by (intro exI conjI)
qed

lemma new_service_weakPtr:
  assumes "unat (n :: u64) = 1 + length as" "length as + 2 < 2 ^ 64"
  shows "unat (n + 1) = length as + 2" "named_service (as @ [x]) (n + 1) = Some x"
proof -
  show u: "unat (n + 1) = length as + 2"
    using assms by (subst unat_add_lem [THEN iffD1]) simp_all
  show "named_service (as @ [x]) (n + 1) = Some x"
    by (simp add: named_service_def u)
qed

lemma service_ok_append: "service_ok L as conns svc \<Longrightarrow> service_ok L (as @ bs) conns svc"
  by (auto simp: service_ok_def intro: named_service_append)

lemma add_step:
  assumes L: "nn_llist_laws L" and s: "tunnels_inv L as s" "tt_service (ty_tunnels s) h = None" and n: "length as + 2 < 2 ^ 64"
  shows "\<exists>s' out. tunnels_step L (AddService h sid type address port streamPort) s = Inr (s', out) \<and>
    tunnels_inv L (as @ [(sid, type, address, port)]) s' \<and> no_access out"
proof -
  let ?n = "tt_weakPtrCounter (ty_tunnels s) + 1"
  let ?svc = "\<lparr>svc_address = address, svc_port = port, svc_streamPort = streamPort, svc_connections = ll_init L,
    svc_id = Some sid, svc_type = Some type, svc_weakPtr = ?n\<rparr>"
  let ?t = "(ty_tunnels s)\<lparr>tt_weakPtrCounter := ?n, tt_service := (tt_service (ty_tunnels s))(h \<mapsto> ?svc),
    tt_services := ll_append L (tt_services (ty_tunnels s)) h\<rparr>"
  let ?as = "as @ [(sid, type, address, port)]"
  note w = new_service_weakPtr [OF tunnels_invD(2) [OF s(1)] n]
  have h: "h \<notin> set (ll_items L (tt_services (ty_tunnels s)))"
    using s(2) tunnels_invD(3) [OF s(1), of h] by auto
  have ok: "service_ok L ?as (tt_connection (ty_tunnels s)) ?svc"
    by (simp add: service_ok_def w(2) ll_items_init [OF L])
  have inv: "tunnels_inv L ?as (s\<lparr>ty_tunnels := ?t\<rparr>)"
    using s(1) h w(1) ok
    by (auto simp: tunnels_inv_def Let_def connection_system_def ll_items_append [OF L] service_ok_append)
  have "tunnels_step L (AddService h sid type address port streamPort) s = Inr (s\<lparr>ty_tunnels := ?t\<rparr>, [AddStreamListener streamPort])"
    by (simp add: tunnels_run_def add_service_def andThen_def nm_tcp_tunnel_service_create_def emit_def put_service_def Let_def
        nm_tcp_tunnel_service_init_def nm_tcp_tunnel_service_init_stream_listener_def deref_def)
  with inv show ?thesis
    by (intro exI [of _ "s\<lparr>ty_tunnels := ?t\<rparr>"] exI [of _ "[AddStreamListener streamPort]"] conjI) (simp_all add: no_access_def)
qed

lemma remove_step:
  assumes L: "nn_llist_laws L" and s: "tunnels_inv L as s"
  shows "\<exists>s' out. tunnels_step L (RemoveService sid) s = Inr (s', out) \<and> tunnels_inv L as s' \<and> no_access out"
proof -
  have "\<forall>h\<in>set (ll_items L (tt_services (ty_tunnels s))). \<exists>svc i. tt_service (ty_tunnels s) h = Some svc \<and> svc_id svc = Some i"
    using tunnels_invD(3,5) [OF s] by (fastforce simp: service_ok_def)
  from find_service_in_ok [OF this, of sid] obtain f where f: "find_service_in (tt_service (ty_tunnels s)) sid (ll_items L (tt_services (ty_tunnels s))) = Inr f"
      "\<forall>h. f = Some h \<longrightarrow> h \<in> set (ll_items L (tt_services (ty_tunnels s)))" by blast
  show ?thesis
  proof (cases f)
    case None
    have "tunnels_step L (RemoveService sid) s = Inr (s, [])"
      using f(1) None by (cases s) (simp add: tunnels_run_def remove_service_def nabto_device_remove_tcp_tunnel_service_def
          nm_tcp_tunnel_service_destroy_by_id_def nm_tcp_tunnels_find_service_def)
    with s show ?thesis by (intro exI [of _ s] exI [of _ "[]"] conjI) simp_all
  next
    case (Some h)
    with f(2) tunnels_invD(3) [OF s] obtain svc where "tt_service (ty_tunnels s) h = Some svc" by blast
    from deinit_inv [OF L s this] obtain s' out where
        r: "tunnels_run (andThen (nm_tcp_tunnel_service_deinit L h) (nm_tcp_tunnel_service_destroy L h)) s = Inr (s', out)"
        "tunnels_inv L as s'" "no_access out"
      by (elim exE conjE) (rule that)
    have "tunnels_step L (RemoveService sid) s = Inr (s', out)"
      using f(1) r(1) Some
      by (auto simp: tunnels_run_def remove_service_def nabto_device_remove_tcp_tunnel_service_def
          nm_tcp_tunnel_service_destroy_by_id_def nm_tcp_tunnels_find_service_def obind_eq_Inr_iff)
    with r(2,3) show ?thesis by blast
  qed
qed

lemma stream_step:
  assumes s: "tunnels_inv L as s" and h: "h \<in> set (ll_items L (tt_services (ty_tunnels s)))"
  shows "\<exists>i t w. tunnels_step L (NewStream h stream) s = Inr (s, [AuthCheckStream ''TcpTunnel:Connect'' i t w stream]) \<and>
    (\<exists>a p. named_service as w = Some (i, t, a, p))"
proof -
  from tunnels_invD(3) [OF s h] obtain svc where svc: "tt_service (ty_tunnels s) h = Some svc" by blast
  from tunnels_invD(5) [OF s svc] obtain i t where "svc_id svc = Some i" "svc_type svc = Some t"
      "named_service as (svc_weakPtr svc) = Some (i, t, svc_address svc, svc_port svc)"
    by (auto simp: service_ok_def)
  with svc show ?thesis
    by (cases s) (auto simp: tunnels_run_def nm_tcp_tunnel_service_stream_listener_callback_def with_service_def emit_def deref_def)
qed

lemma tunnel_ok_started: "tunnel_ok (tunnel_started a p)"
  using tunnel_inv_started by (auto simp: tunnel_ok_def)

lemma service_ok_link:
  assumes L: "nn_llist_laws L" and svc: "service_ok L as conns svc" "conns c = None"
  shows "service_ok L as (conns(c \<mapsto> x)) (svc\<lparr>svc_connections := ll_append L (svc_connections svc) c\<rparr>)"
  using svc by (auto simp: service_ok_def ll_items_append [OF L])

lemma link_connection_simps [simp]:
  "tt_services (link_connection L h svc c conn s) = tt_services s"
  "tt_weakPtrCounter (link_connection L h svc c conn s) = tt_weakPtrCounter s"
  "tt_connection (link_connection L h svc c conn s) = (tt_connection s)(c \<mapsto> conn)"
  "tt_service (link_connection L h svc c conn s) =
     (tt_service s)(h \<mapsto> svc\<lparr>svc_connections := ll_append L (svc_connections svc) c\<rparr>)"
  by (simp_all add: link_connection_def put_service_def)

lemma link_connection_inv:
  assumes L: "nn_llist_laws L" and s: "tunnels_inv L as s" "tt_service (ty_tunnels s) h = Some svc" "tt_connection (ty_tunnels s) c = None"
    and t: "tunnel_ok t" "ts_conn t = Some x"
  shows "tunnels_inv L as (put_connection L c t False (s\<lparr>ty_tunnels := link_connection L h svc c conn (ty_tunnels s)\<rparr>))"
proof -
  have ok: "service_ok L as ((tt_connection (ty_tunnels s))(c \<mapsto> x)) (svc\<lparr>svc_connections := ll_append L (svc_connections svc) c\<rparr>)"
    by (rule service_ok_link [OF L tunnels_invD(5) [OF s(1,2)] s(3)])
  have conn: "connection_system (s\<lparr>ty_tunnels := link_connection L h svc c conn (ty_tunnels s)\<rparr>) d = connection_system s d" if "d \<noteq> c" for d
    using that by (simp add: connection_system_def link_connection_def put_service_def)
  show ?thesis
    using s ok t by (auto simp: tunnels_inv_def Let_def connection_system_put conn service_ok_update)
qed

lemma verdict_step:
  assumes L: "nn_llist_laws L" and s: "tunnels_inv L as s" "tt_connection (ty_tunnels s) c = None"
  shows "\<exists>s' out. tunnels_step L (Verdict allow w stream c) s = Inr (s', out) \<and> tunnels_inv L as s' \<and>
    (out = [ReleaseStream stream] \<or>
     (\<exists>i t a p. allow \<and> named_service as w = Some (i, t, a, p) \<and>
        out = map (ConnectionOut c) [StreamAccept, TcpConnect a p]))"
proof -
  have "\<forall>h\<in>set (ll_items L (tt_services (ty_tunnels s))). \<exists>svc. tt_service (ty_tunnels s) h = Some svc"
    using tunnels_invD(3) [OF s(1)] by blast
  from find_weak_in_ok [OF this, of w] obtain f where f: "nm_tcp_tunnels_find_service_by_weak_ptr L (ty_tunnels s) w = Inr f"
      "\<forall>h. f = Some h \<longrightarrow> (\<exists>svc. tt_service (ty_tunnels s) h = Some svc \<and> svc_weakPtr svc = w)"
    unfolding nm_tcp_tunnels_find_service_by_weak_ptr_def by blast
  show ?thesis
  proof (cases "f \<noteq> None \<and> allow")
    case False
    then have "tunnels_step L (Verdict allow w stream c) s = Inr (s, [ReleaseStream stream])"
      using f(1) by (cases s) (auto simp: tunnels_run_def service_stream_iam_callback_def emit_def split: option.splits)
    with s(1) show ?thesis by blast
  next
    case True
    with f(2) obtain h svc where h: "f = Some h" "tt_service (ty_tunnels s) h = Some svc" "svc_weakPtr svc = w" by auto
    let ?a = "svc_address svc" and ?p = "svc_port svc"
    obtain conn where conn: "nm_tcp_tunnel_connection_init NABTO_EC_OK NABTO_EC_OK NABTO_EC_OK NABTO_EC_OK ?a ?p nm_tcp_tunnel_connection_new
        = (NABTO_EC_OK, conn, True)"
      by (simp add: nm_tcp_tunnel_connection_init_def)
    let ?s = "s\<lparr>ty_tunnels := link_connection L h svc c conn (ty_tunnels s)\<rparr>"
    have c: "connection_system ?s c = \<lparr>ts_conn = Some conn, ts_toStream = TsIdle, ts_toTcp = TtIdle\<rparr>"
      using tunnels_invD(7) [OF s(1,2)] by (simp add: connection_system_def link_connection_def put_service_def)
    have r: "tunnels_run (on_connection L c nm_tcp_tunnel_connection_start) ?s =
        Inr (put_connection L c (tunnel_started ?a ?p) (ListErase \<in> set [StreamAccept, TcpConnect ?a ?p]) ?s,
          map (ConnectionOut c) [StreamAccept, TcpConnect ?a ?p])"
      by (rule tunnels_run_on_connection) (unfold c, rule tunnel_started_by_start [OF conn])
    have "tunnels_step L (Verdict allow w stream c) s = tunnels_run (on_connection L c nm_tcp_tunnel_connection_start) ?s"
      using f(1) h True
      by (simp add: tunnels_run_def service_stream_iam_callback_def conn with_service_def link_connection_def Let_def)
    moreover have "tunnels_inv L as (put_connection L c (tunnel_started ?a ?p) False ?s)"
      by (rule link_connection_inv [OF L s(1) h(2) s(2) tunnel_ok_started]) (simp add: tunnel_started_def)
    moreover have "\<exists>i t. named_service as w = Some (i, t, ?a, ?p)"
      using tunnels_invD(5) [OF s(1) h(2)] h(3) by (auto simp: service_ok_def)
    ultimately show ?thesis using r True by auto
  qed
qed

lemma added_services_append: "added_services (ls @ ks) = added_services ls @ added_services ks"
  by (induction ls rule: added_services.induct) auto

lemma no_access_authorized: "no_access out \<Longrightarrow> \<forall>x\<in>set (map (Pair l) out). authorized as x"
proof
  fix x assume q: "no_access out" "x \<in> set (map (Pair l) out)"
  then obtain y where y: "x = (l, y)" "y \<in> set out" by auto
  with q(1) show "authorized as x"
    by (cases y; cases "case y of ConnectionOut _ z \<Rightarrow> z | _ \<Rightarrow> TcpShutdown") (fastforce simp: no_access_def authorized_def)+
qed

lemma authorized_append: "authorized as e \<Longrightarrow> authorized (as @ bs) e"
  by (auto simp: authorized_def named_service_append split: prod.splits tunnels_output.splits tunnel_output.splits
      tunnels_label.splits option.splits)

lemma tunnels_step_inv:
  assumes L: "nn_llist_laws L" and s: "tunnels_inv L as s" "tunnels_allowed L s l" and n: "length as + 2 < 2 ^ 64"
  shows "\<exists>s' out. tunnels_step L l s = Inr (s', out) \<and> tunnels_inv L (as @ added_services [l]) s' \<and>
    (\<forall>x\<in>set (map (Pair l) out). authorized (as @ added_services [l]) x)"
proof (cases l)
  case (AddService h sid type address port streamPort)
  with s(2) add_step [OF L s(1) _ n] show ?thesis
    by (metis added_services.simps(1,2) no_access_authorized tunnels_allowed.simps(1))
next
  case (RemoveService sid)
  from remove_step [OF L s(1), of sid] obtain s' out where "tunnels_step L (RemoveService sid) s = Inr (s', out)" "tunnels_inv L as s'" "no_access out"
    by blast
  with RemoveService show ?thesis using no_access_authorized by fastforce
next
  case (NewStream h stream)
  with s(2) have "h \<in> set (ll_items L (tt_services (ty_tunnels s)))" by simp
  from stream_step [OF s(1) this, of stream] NewStream s(1) show ?thesis
    by (fastforce simp: authorized_def)
next
  case (Verdict allow w stream c)
  with s(2) have "tt_connection (ty_tunnels s) c = None" by simp
  from verdict_step [OF L s(1) this, of allow w stream] obtain s' out where 1: "tunnels_step L (Verdict allow w stream c) s = Inr (s', out)"
      "tunnels_inv L as s'" "out = [ReleaseStream stream] \<or> (\<exists>i t a p. allow \<and> named_service as w = Some (i, t, a, p) \<and>
        out = map (ConnectionOut c) [StreamAccept, TcpConnect a p])" by blast
  from 1(3) have "\<forall>x\<in>set (map (Pair l) out). authorized as x" by (auto simp: authorized_def Verdict)
  with 1 Verdict show ?thesis by auto
next
  case (Completion c k)
  with s(2) have "tunnel_allowed (connection_system s c) k" by simp
  from completion_step [OF L s(1) this] obtain s' out where 1: "tunnels_step L (Completion c k) s = Inr (s', map (ConnectionOut c) out)"
      "tunnels_inv L as s'" "\<forall>a p. TcpConnect a p \<notin> set out"
    by (elim exE conjE) (rule that)
  from no_access_authorized [OF no_access_connection [OF 1(3)]] have "\<forall>x\<in>set (map (Pair l) (map (ConnectionOut c) out)). authorized as x" by blast
  with 1 Completion show ?thesis by (intro exI [of _ s'] exI [of _ "map (ConnectionOut c) out"] conjI) simp_all
qed

lemma tunnels_inv_started:
  assumes "nn_llist_laws L"
  shows "tunnels_inv L [] (tunnels_started L)"
  by (simp add: tunnels_inv_def tunnels_started_def ll_items_init [OF assms])

lemma tunnels_started_by_init:
  "nm_tcp_tunnels_init L (NABTO_COAP_ERROR_OK, 0) (NABTO_COAP_ERROR_OK, 1) (NABTO_COAP_ERROR_OK, 2)
     \<lparr>tt_device = False, tt_services = l, tt_weakPtrCounter = 0, tt_coapListServices = None, tt_coapGetService = None,
      tt_service = (\<lambda>_. None), tt_connection = (\<lambda>_. None)\<rparr> =
   (NABTO_EC_OK, ty_tunnels (tunnels_started L),
     [AddResource [''tcp-tunnels'', ''services''] 0, AddResource [''tcp-tunnels'', ''services'', ''{id}''] 1,
      AddResource [''tcp-tunnels'', ''connect'', ''{id}''] 2])"
  by (simp add: nm_tcp_tunnels_init_def nm_tcp_tunnel_coap_init_def tunnels_started_def Let_def)

text \<open>The second of the three resources stays registered when the module is stopped.\<close>

lemma tunnel_resource_left:
  assumes "nm_tcp_tunnel_coap_init (NABTO_COAP_ERROR_OK, r1) (NABTO_COAP_ERROR_OK, r2) (NABTO_COAP_ERROR_OK, r3) s = (NABTO_EC_OK, s1, o1)"
  shows "nm_tcp_tunnel_coap_deinit s1 = Inr (s1\<lparr>tt_coapListServices := None, tt_coapGetService := None\<rparr>, [RemoveResource r1, RemoveResource r3])"
  using assms by (auto simp: nm_tcp_tunnel_coap_init_def nm_tcp_tunnel_coap_deinit_def Let_def)

text \<open>The application is told that a service was added although its listener could not be.\<close>

lemma add_service_error_lost:
  assumes "np_ip_address_read_v4 host uninit = (True, address)" "ec \<noteq> NABTO_EC_OK"
  shows "\<exists>s1. nabto_device_add_tcp_tunnel_service L True [] (ec, x) h sid type host port uninit s = Inr (Some NABTO_EC_OK, s1, []) \<and>
    tt_services s1 = tt_services s"
  using assms
  by (simp add: nabto_device_add_tcp_tunnel_service_def nm_tcp_tunnel_service_create_def nm_tcp_tunnel_service_init_def emit_def Let_def
      nm_tcp_tunnel_service_init_stream_listener_def put_service_def deref_def)

lemmas tunnels_eval = tunnels_started_def llist_by_list_def tunnels_run_def add_service_def remove_service_def andThen_def emit_def modify_def
  nm_tcp_tunnel_service_create_def put_service_def nm_tcp_tunnel_service_init_def nm_tcp_tunnel_service_init_stream_listener_def deref_def
  nabto_device_remove_tcp_tunnel_service_def nm_tcp_tunnel_service_destroy_by_id_def nm_tcp_tunnels_find_service_def
  nm_tcp_tunnel_service_deinit_def nm_tcp_tunnel_service_destroy_def with_service_def on_connection_def Let_def
  nm_tcp_tunnel_service_stream_listener_callback_def service_stream_iam_callback_def nm_tcp_tunnels_find_service_by_weak_ptr_def
  nm_tcp_tunnel_connection_init_def erase_connection_def connection_system_def traced_step_def

lemma removed_after_failed_connection:
  "(case linked_after_free of Inl _ \<Rightarrow> False | Inr t \<Rightarrow> remove_service llist_by_list ''ssh'' t = Inl UseAfterFree)"
  by (simp add: linked_after_free_def tunnels_eval tunnel_defs nm_tcp_tunnel_connection_new_def)

lemma tunnels_run_authorized:
  assumes L: "nn_llist_laws L" and "tunnels_inv L as s" "tunnels_allowed_run L ls s" "length (as @ added_services ls) + 2 < 2 ^ 64"
  shows "\<exists>s' tr. run_acts (traced_step L) ls s = Inr (s', tr) \<and> (\<forall>x\<in>set tr. authorized (as @ added_services ls) x)"
  using assms(2-)
proof (induction ls arbitrary: as s)
  case (Cons l ls)
  from Cons.prems(2) have a: "tunnels_allowed L s l" by simp
  from Cons.prems(3) added_services_append [of "[l]" ls] have n: "length as + 2 < 2 ^ 64"
      "length ((as @ added_services [l]) @ added_services ls) + 2 < 2 ^ 64" by simp_all
  from tunnels_step_inv [OF L Cons.prems(1) a n(1)] obtain s1 o1 where 1: "tunnels_step L l s = Inr (s1, o1)"
      "tunnels_inv L (as @ added_services [l]) s1" "\<forall>x\<in>set (map (Pair l) o1). authorized (as @ added_services [l]) x"
    by blast
  with Cons.prems(2) have "tunnels_allowed_run L ls s1" by simp
  from Cons.IH [OF 1(2) this n(2)] obtain s2 o2 where 2: "run_acts (traced_step L) ls s1 = Inr (s2, o2)"
      "\<forall>x\<in>set o2. authorized ((as @ added_services [l]) @ added_services ls) x" by blast
  have eq: "(as @ added_services [l]) @ added_services ls = as @ added_services (l # ls)"
    using added_services_append [of "[l]" ls] by simp
  have "run_acts (traced_step L) (l # ls) s = Inr (s2, map (Pair l) o1 @ o2)"
    by (simp add: andThen_def traced_step_def 1(1) 2(1))
  moreover have "\<forall>x\<in>set (map (Pair l) o1 @ o2). authorized (as @ added_services (l # ls)) x"
    using 1(3) 2(2) authorized_append [of "as @ added_services [l]" _ "added_services ls"] unfolding eq [symmetric] by auto
  ultimately show ?case by blast
qed simp

text \<open>
  C6. A stream reaches only the service it was authorized for: whatever services are added and removed while authorization requests are pending, no handler uses a
  service or a connection that was freed; every request for access names the id and the type of the service its weak pointer belongs to; and the device
  connects to an address only in answer to a verdict that allows it, to the address of that same service.
\<close>

theorem tunnel_connects_authorized_service:
  assumes "nn_llist_laws L" "tunnels_allowed_run L ls (tunnels_started L)" "length (added_services ls) < 2 ^ 63"
  shows "\<exists>s tr. run_acts (traced_step L) ls (tunnels_started L) = Inr (s, tr) \<and>
    (\<forall>l action i t w stream. (l, AuthCheckStream action i t w stream) \<in> set tr \<longrightarrow>
       (\<exists>a p. named_service (added_services ls) w = Some (i, t, a, p))) \<and>
    (\<forall>l c a p. (l, ConnectionOut c (TcpConnect a p)) \<in> set tr \<longrightarrow>
       (\<exists>w stream i t. l = Verdict True w stream c \<and> named_service (added_services ls) w = Some (i, t, a, p)))"
proof -
  from assms(3) have "length ([] @ added_services ls) + 2 < 2 ^ 64" by simp
  from tunnels_run_authorized [OF assms(1) tunnels_inv_started [OF assms(1)] assms(2) this] obtain s tr where
    r: "run_acts (traced_step L) ls (tunnels_started L) = Inr (s, tr)" and a: "\<forall>x\<in>set tr. authorized (added_services ls) x" by auto
  have "\<exists>a p. named_service (added_services ls) w = Some (i, t, a, p)" if "(l, AuthCheckStream action i t w stream) \<in> set tr"
    for l action i t w stream
    using a that by (fastforce simp: authorized_def split: option.splits)
  moreover have "\<exists>w stream i t. l = Verdict True w stream c \<and> named_service (added_services ls) w = Some (i, t, a, p)"
    if "(l, ConnectionOut c (TcpConnect a p)) \<in> set tr" for l c a p
    using bspec [OF a that] by (auto simp: authorized_def split: option.splits tunnels_label.splits)
  ultimately show ?thesis using r by blast
qed

theorem tunnel_connects_authorized_service_witness:
  "nn_llist_laws (llist_by_list :: (nat list, nat) nn_llist) \<and> tunnels_allowed_run llist_by_list tunnels_demo (tunnels_started llist_by_list) \<and>
   named_service (added_services tunnels_demo) 3 = Some (''web'', ''http'', \<lparr>ip_type = NABTO_IPV4, ip_bytes = replicate 16 2\<rparr>, 80) \<and>
   (\<exists>s tr. run_acts (traced_step llist_by_list) tunnels_demo (tunnels_started llist_by_list) = Inr (s, tr))"
proof -
  have a: "tunnels_allowed_run llist_by_list tunnels_demo (tunnels_started llist_by_list)"
    by (simp add: tunnels_demo_def tunnels_eval tunnel_defs nm_tcp_tunnel_connection_new_def act_simps stream_open_def
        nm_tcp_tunnel_connection_start_def start_connect_def)
  have n: "length (added_services tunnels_demo) < 2 ^ 63" by (simp add: tunnels_demo_def)
  have w: "named_service (added_services tunnels_demo) 3 = Some (''web'', ''http'', \<lparr>ip_type = NABTO_IPV4, ip_bytes = replicate 16 2\<rparr>, 80)"
    by (simp add: tunnels_demo_def named_service_def)
  from tunnel_connects_authorized_service [OF nn_llist_laws_by_list a n] a w nn_llist_laws_by_list show ?thesis by blast
qed

end
