(* ===== verification/Spec2Isabelle.thy ===== *)
theory Spec2Isabelle
  imports NcPacket NpPlatform NmEventQueue NcKeepAlive NcDnsResolver NmPoliciesJson NmIam NcAttacherTheorems NmIamCoap NmMbedtls NcStreamManager NdAuthorization NcSpake2 NmTcpTunnel
begin

text \<open>
  Verification of the Nabto embedded device SDK. The core (\<^verbatim>\<open>src/core\<close>) attaches a device to a basestation, accepts
  client connections over DTLS and multiplexes CoAP requests and streams over them; the modules (\<^verbatim>\<open>src/modules\<close>) hold the
  access control, the TCP tunnels, the event queues, DTLS and the adapters to the system; the platform layer
  (\<^verbatim>\<open>src/platform\<close>) defines the interfaces and the small utilities all of them use; the API (\<^verbatim>\<open>src/api\<close>) gives the application
  futures, listeners and requests. All file names are below \<^verbatim>\<open>src/src\<close> of the repository.

  \<^bold>\<open>How the parts work together.\<close> A packet arrives at the UDP dispatch, which hands it to the attacher's DTLS client, to STUN or to
  the table of client connections. A client connection finds its DTLS server connection, whose decrypted packets go to the keep
  alive logic, to the streams or to CoAP. A CoAP request or a new stream goes to a handler, which asks the access control for a verdict,
  directly or through an authorization request that the application decides. Everything runs on the event
  queue; the application waits on futures.

  \<^bold>\<open>The style of the model.\<close> A handler is a function of the state of its module that returns the new state and the list of calls it makes to
  other modules (\<open>act\<close> in \<^verbatim>\<open>Prelude\<close>), or a fault: a null pointer, an access out of bounds or after free, a wrong type, an
  undefined operation of C. A pointer to an object with a life of its own is a number, and what has been freed is none. Integers have the width they have in C.
  The result of a call that may fail, such as an allocation, is an argument. A system is the run of its handlers over a
  list of events, and an \<open>allowed\<close> predicate says which events its environment may deliver.

  \<^bold>\<open>The theories.\<close>
  \<^item> \<^verbatim>\<open>Prelude\<close>: outcomes, handlers, runs, and the locale \<open>refinement\<close>, by which a step-wise simulation gives one of runs.
  \<^item> \<^verbatim>\<open>NnLib\<close>, \<^verbatim>\<open>CStd\<close>, \<^verbatim>\<open>CJson\<close>: the containers of nabto-common as parameters with laws; allocation, \<^verbatim>\<open>strtod\<close> and doubles; JSON trees.
  \<^item> \<^verbatim>\<open>NpPlatform\<close>, \<^verbatim>\<open>NcPacket\<close>: error codes, hexadecimal conversion, IP addresses, timestamps; integers of variable length, with their round trip.
  \<^item> \<^verbatim>\<open>NmEventQueue\<close>: the event queue, its thread and completion events. Exactly the events that were posted and not cancelled are
    pending, each once; timed events stay sorted; the thread executes in order.
  \<^item> \<^verbatim>\<open>NcKeepAlive\<close>, \<^verbatim>\<open>NcDnsResolver\<close>: when a silent connection is given up; the merge of two DNS answers.
  \<^item> \<^verbatim>\<open>NmPolicies\<close>, \<^verbatim>\<open>NmPoliciesJson\<close>, \<^verbatim>\<open>NmIam\<close>, \<^verbatim>\<open>NmIamCoap\<close>: conditions, statements, policies, users, roles and their CoAP endpoints. Exactly
    when access is granted, that only entitled requests change or see something, that identifiers stay unique, and the JSON round trip.
  \<^item> \<^verbatim>\<open>NcCoap\<close>: error codes and error responses, with the CBOR reader as a parameter.
  \<^item> \<^verbatim>\<open>NcAttacher\<close>, \<^verbatim>\<open>NcAttacherSystem\<close>, \<^verbatim>\<open>NcAttacherTheorems\<close>: the attacher alone, and with what its environment owes it as an
    inductive step relation. It is never stuck, follows at most five redirects in a row, closes for good, and knows
    which tokens the server has.
  \<^item> \<^verbatim>\<open>NcRendezvous\<close>: the queue of rendezvous packets refines a bounded stack; when the endpoint answers.
  \<^item> \<^verbatim>\<open>NcClientConnection\<close>: the table of connections, their channels and the UDP dispatch. References lead to one connection; exactly which
    short packets are read out of bounds.
  \<^item> \<^verbatim>\<open>NmMbedtls\<close>: DTLS server and client. A closing connection reports its end; which packet decides the channel.
  \<^item> \<^verbatim>\<open>NcStream\<close>, \<^verbatim>\<open>NcStreamManager\<close>: one stream, and all of them. Reads and writes are complete and in order; a packet
    reaches one stream; removing a connection terminates.
  \<^item> \<^verbatim>\<open>NdFuture\<close>, \<^verbatim>\<open>NdListener\<close>, \<^verbatim>\<open>NdAuthorization\<close>: futures, the listeners of six modules behind one untyped
    interface (locale \<open>listener_module\<close>, interpreted for each of them), and authorization requests. Callbacks
    are called once, the pointers have the right types, a listener refines a queue, a request is freed once and
    granted only by the first decision.
  \<^item> \<^verbatim>\<open>NcSpake2\<close>: the password authentication computes the keys of SPAKE2, its transcript is injective, and the attempts are bounded.
  \<^item> \<^verbatim>\<open>NmTcpTunnel\<close>: tunnel connections, services and endpoints. The bytes of both directions are forwarded in order, a connection is freed once, and
    a stream reaches only the service it was authorized for.

  \<^bold>\<open>Assumptions.\<close> The libraries nabto-common, tinycbor, mbedtls and the streaming protocol are not part of the repository. They are records of the functions
  that the sources call; \<open>nn_llist_laws\<close>, \<open>mbedtls_ecp_laws\<close> and the like state their documented behaviour, and the witnesses give
  instances that satisfy them. The environments promise no more than their interfaces: an operation completes at most once, a
  resolver or DTLS client answers what it was asked, a freed pointer may be used again only by a new allocation, an application
  initialises a listener once. For tunnels: a successful read has at least one byte and fits the buffer, a failed one has none, and after an abort no operation on the
  socket succeeds. Counters of 64 bits that only grow are assumed not to wrap, with the bound in the statement.

  \<^bold>\<open>Bounds and fuel.\<close> Loops over a list recurse over its elements. Where the C loop has no such measure, the fuel is enough by
  a theorem or by construction: the search for a free user identifier has one attempt more than there are users, failing the
  queued packets one round for each element, and discarding the events of a listener one for each event. The iteration over the rendezvous endpoints may not end;
  the theorem says exactly when it does.

  \<^bold>\<open>Not modelled.\<close>
  \<^item> The adapters to libevent, \<^verbatim>\<open>select\<close>, sockets, name resolution, clocks, threads and log output: they are calls of the operating system, and the models
    have their results as events.
  \<^item> STUN, mDNS and the CoAP server and client of the core: thin drivers of engines in nabto-common, which decide every step.
  \<^item> The rest of the API (\<^verbatim>\<open>nabto_device.c\<close>, the operations on streams, CoAP requests and password requests beyond their
    listeners) and the device object of the core: they pass arguments on and keep the order of initialisation.
  \<^item> The text parser and printer of cJSON, the JSON form of users and roles, keys, certificates and random numbers of mbedtls, and the table of
    error messages.
  \<^item> The concurrency of the application's threads inside an operation: every operation of the API holds a lock, and is one step.
  \<^item> Programs, examples and tests.
\<close>

end
